theory Spec2Isabelle
  imports Complex_Main "HOL-Library.Log_Nat"
begin

section \<open>JavaScript values\<close>

text \<open>
  The program is JavaScript. A number is a double: \<open>Fin x\<close> is the finite double whose
  exact value is the rational \<open>x\<close>, next to the three special values of the language. An
  arithmetic operation rounds its exact result to the nearest double, to the one with an
  even significand on a tie, and overflows to an infinity. The sign of zero is not
  modelled: it can only show in a division by zero, and the program divides by numbers
  that it has compared to be positive and by the literal 100. A string is the sequence of
  its bytes in UTF-8. An object with data fields is a finite map from property names to
  values; reading a property that the object does not have gives \<open>Undefined\<close>. Arrays
  and nested objects are not among the values.
\<close>

datatype jsnum = Fin rat | NaN | PosInf | NegInf

datatype jsval = Undefined | Null | Boolean bool | Number jsnum | Str string

type_synonym jsobj = "string \<Rightarrow> jsval option"

datatype error = TypeError | SyntaxError | NetworkError | Error string

definition get :: "jsobj \<Rightarrow> string \<Rightarrow> jsval" where
  "get obj k = (case obj k of None \<Rightarrow> Undefined | Some v \<Rightarrow> v)"

text \<open>
  For a positive \<open>q\<close>, \<open>ilog2 q\<close> is the integer \<open>k\<close> with \<open>2^k \<le> q < 2^(k+1)\<close> and
  \<open>ilog10 q\<close> the one with \<open>10^k \<le> q < 10^(k+1)\<close>.
\<close>

definition ilog2 :: "rat \<Rightarrow> int" where
  "ilog2 q = (if 1 \<le> q then bitlen \<lfloor>q\<rfloor> - 1 else - bitlen (\<lceil>1 / q\<rceil> - 1))"

definition ilog10 :: "rat \<Rightarrow> int" where
  "ilog10 q = (if 1 \<le> q then int (floorlog 10 (nat \<lfloor>q\<rfloor>)) - 1
               else - int (floorlog 10 (nat (\<lceil>1 / q\<rceil> - 1))))"

text \<open>The nearest integer, the even one on a tie.\<close>

definition round_even :: "rat \<Rightarrow> int" where
  "round_even x =
     (let f = \<lfloor>x\<rfloor>; r = x - of_int f
      in if r < 1 / 2 then f else if 1 / 2 < r then f + 1 else if even f then f else f + 1)"

text \<open>
  The double nearest to the rational \<open>q\<close>. A double is a multiple \<open>m * 2^e\<close> with
  \<open>m < 2^53\<close> and \<open>- 1074 \<le> e\<close>, below \<open>2^1024\<close>: \<open>q\<close> is rounded to a multiple of
  \<open>2^e\<close> for the exponent \<open>e\<close> of its binade (for \<open>- 1074\<close> below the normal range), and
  a result that reaches \<open>2^1024\<close> is an infinity. A decimal literal of the program, such
  as \<^verbatim>\<open>0.8\<close>, denotes \<open>round64 (8 / 10)\<close>.
\<close>

definition round64 :: "rat \<Rightarrow> jsnum" where
  "round64 q =
     (if q = 0 then Fin 0
      else let e = max (ilog2 \<bar>q\<bar> - 52) (- 1074);
               r = of_int (round_even (\<bar>q\<bar> / 2 powi e)) * 2 powi e
           in if 2 ^ 1024 \<le> r then (if 0 < q then PosInf else NegInf)
              else Fin (if 0 < q then r else - r))"

fun num_lt :: "jsnum \<Rightarrow> jsnum \<Rightarrow> bool" where
  "num_lt (Fin x) (Fin y) = (x < y)"
| "num_lt (Fin x) PosInf = True"
| "num_lt NegInf (Fin y) = True"
| "num_lt NegInf PosInf = True"
| "num_lt _ _ = False"

fun num_neg :: "jsnum \<Rightarrow> jsnum" where
  "num_neg (Fin x) = Fin (- x)"
| "num_neg NaN = NaN"
| "num_neg PosInf = NegInf"
| "num_neg NegInf = PosInf"

definition signed_inf :: "rat \<Rightarrow> jsnum" where
  "signed_inf s = (if s = 0 then NaN else if 0 < s then PosInf else NegInf)"

fun num_mul :: "jsnum \<Rightarrow> jsnum \<Rightarrow> jsnum" where
  "num_mul (Fin x) (Fin y) = round64 (x * y)"
| "num_mul (Fin x) PosInf = signed_inf x"
| "num_mul (Fin x) NegInf = signed_inf (- x)"
| "num_mul PosInf (Fin y) = signed_inf y"
| "num_mul NegInf (Fin y) = signed_inf (- y)"
| "num_mul PosInf PosInf = PosInf"
| "num_mul PosInf NegInf = NegInf"
| "num_mul NegInf PosInf = NegInf"
| "num_mul NegInf NegInf = PosInf"
| "num_mul _ _ = NaN"

fun num_div :: "jsnum \<Rightarrow> jsnum \<Rightarrow> jsnum" where
  "num_div (Fin x) (Fin y) = (if y = 0 then signed_inf x else round64 (x / y))"
| "num_div (Fin x) PosInf = Fin 0"
| "num_div (Fin x) NegInf = Fin 0"
| "num_div PosInf (Fin y) = (if y < 0 then NegInf else PosInf)"
| "num_div NegInf (Fin y) = (if y < 0 then PosInf else NegInf)"
| "num_div _ _ = NaN"

fun num_add :: "jsnum \<Rightarrow> jsnum \<Rightarrow> jsnum" where
  "num_add (Fin x) (Fin y) = round64 (x + y)"
| "num_add (Fin x) PosInf = PosInf"
| "num_add (Fin x) NegInf = NegInf"
| "num_add PosInf (Fin y) = PosInf"
| "num_add NegInf (Fin y) = NegInf"
| "num_add PosInf PosInf = PosInf"
| "num_add NegInf NegInf = NegInf"
| "num_add _ _ = NaN"

section \<open>Numbers and strings\<close>

text \<open>The accented letters of the program's messages are two bytes each.\<close>

definition a_acute :: string where
  "a_acute = [CHR 0xC3, CHR 0xA1]"

definition a_tilde :: string where
  "a_tilde = [CHR 0xC3, CHR 0xA3]"

definition c_cedilla :: string where
  "c_cedilla = [CHR 0xC3, CHR 0xA7]"

fun digits :: "nat \<Rightarrow> string" where
  "digits n = (if n < 10 then [''0123456789'' ! n]
               else digits (n div 10) @ [''0123456789'' ! (n mod 10)])"

declare digits.simps [simp del]

text \<open>
  A positive double as a string. Among the decimal numerals \<open>s * 10^p\<close> that read back as
  \<open>x\<close>, the language takes one with the fewest digits, and of these the nearest to \<open>x\<close>
  (the even one on a tie). \<open>numerals x k\<close> is that numeral with \<open>k\<close> digits, when there
  is one; 17 digits are always enough.
\<close>

definition numerals :: "rat \<Rightarrow> nat \<Rightarrow> (int \<times> int) list" where
  "numerals x k =
     (let p = ilog10 x - int k + 1;
          lo = \<lfloor>x / 10 powi p\<rfloor>;
          ok = (\<lambda>s. round64 (of_int s * 10 powi p) = Fin x);
          d = (\<lambda>s. \<bar>of_int s * 10 powi p - x\<bar>)
      in if ok lo \<and> ok (lo + 1)
         then (if d lo < d (lo + 1) \<or> d lo = d (lo + 1) \<and> even lo then [(lo, p)] else [(lo + 1, p)])
         else if ok lo then [(lo, p)]
         else if ok (lo + 1) then [(lo + 1, p)]
         else [])"

definition shortest :: "rat \<Rightarrow> int \<times> int" where
  "shortest x =
     (case concat (map (numerals x) [1..<18]) of
        [] \<Rightarrow> (0, 0)
      | (s, p) # rest \<Rightarrow> if s mod 10 = 0 then (s div 10, p + 1) else (s, p))"

text \<open>
  The digits \<open>ds\<close> of the numeral and the position \<open>n\<close> of the point after its first
  digit decide the notation: positional for \<open>- 6 < n \<le> 21\<close>, with an exponent otherwise.
\<close>

definition positive_to_string :: "rat \<Rightarrow> string" where
  "positive_to_string x =
     (let (s, p) = shortest x;
          ds = digits (nat s);
          k = int (length ds);
          n = p + k
      in if k \<le> n \<and> n \<le> 21 then ds @ replicate (nat (n - k)) (CHR ''0'')
         else if 0 < n \<and> n \<le> 21 then take (nat n) ds @ ''.'' @ drop (nat n) ds
         else if - 6 < n \<and> n \<le> 0 then ''0.'' @ replicate (nat (- n)) (CHR ''0'') @ ds
         else (if k = 1 then ds else take 1 ds @ ''.'' @ drop 1 ds)
              @ ''e'' @ (if n - 1 < 0 then ''-'' else ''+'') @ digits (nat \<bar>n - 1\<bar>))"

fun number_to_string :: "jsnum \<Rightarrow> string" where
  "number_to_string NaN = ''NaN''"
| "number_to_string PosInf = ''Infinity''"
| "number_to_string NegInf = ''-Infinity''"
| "number_to_string (Fin x) =
     (if x = 0 then ''0''
      else if x < 0 then ''-'' @ positive_to_string (- x)
      else positive_to_string x)"

text \<open>A value inside a template literal, or given to \<^verbatim>\<open>parseInt\<close> or \<^verbatim>\<open>parseFloat\<close>.\<close>

fun to_string :: "jsval \<Rightarrow> string" where
  "to_string Undefined = ''undefined''"
| "to_string Null = ''null''"
| "to_string (Boolean b) = (if b then ''true'' else ''false'')"
| "to_string (Number n) = number_to_string n"
| "to_string (Str s) = s"

text \<open>
  \<^verbatim>\<open>x.toFixed(2)\<close> on a finite number: the sign, then the integer \<open>n\<close> nearest to
  \<open>|x| * 100\<close> (the larger one on a tie) written with at least three digits and a point
  before the last two. From \<open>10^21\<close> on the result is the number as a string.
\<close>

definition fixed2 :: "rat \<Rightarrow> string" where
  "fixed2 x =
     (if 10 ^ 21 \<le> \<bar>x\<bar> then number_to_string (Fin x)
      else let ds = digits (nat \<lfloor>\<bar>x\<bar> * 100 + 1 / 2\<rfloor>);
               m = replicate (3 - length ds) (CHR ''0'') @ ds
           in (if x < 0 then ''-'' else []) @ take (length m - 2) m @ ''.'' @ drop (length m - 2) m)"

text \<open>
  \<^verbatim>\<open>v.toFixed(2)\<close> on any value: \<open>undefined\<close> and \<open>null\<close> have no properties, and a
  boolean or a string has no such method, so the call throws a TypeError there.
\<close>

fun toFixed2 :: "jsval \<Rightarrow> error + string" where
  "toFixed2 (Number (Fin x)) = Inr (fixed2 x)"
| "toFixed2 (Number NaN) = Inr ''NaN''"
| "toFixed2 (Number PosInf) = Inr ''Infinity''"
| "toFixed2 (Number NegInf) = Inr ''-Infinity''"
| "toFixed2 _ = Inl TypeError"

text \<open>The white space and the line terminators of the language, in UTF-8.\<close>

definition white_space :: "string list" where
  "white_space =
     [[CHR 0x09], [CHR 0x0A], [CHR 0x0B], [CHR 0x0C], [CHR 0x0D], [CHR 0x20],
      [CHR 0xC2, CHR 0xA0], [CHR 0xE1, CHR 0x9A, CHR 0x80],
      [CHR 0xE2, CHR 0x80, CHR 0x80], [CHR 0xE2, CHR 0x80, CHR 0x81],
      [CHR 0xE2, CHR 0x80, CHR 0x82], [CHR 0xE2, CHR 0x80, CHR 0x83],
      [CHR 0xE2, CHR 0x80, CHR 0x84], [CHR 0xE2, CHR 0x80, CHR 0x85],
      [CHR 0xE2, CHR 0x80, CHR 0x86], [CHR 0xE2, CHR 0x80, CHR 0x87],
      [CHR 0xE2, CHR 0x80, CHR 0x88], [CHR 0xE2, CHR 0x80, CHR 0x89],
      [CHR 0xE2, CHR 0x80, CHR 0x8A], [CHR 0xE2, CHR 0x80, CHR 0xA8],
      [CHR 0xE2, CHR 0x80, CHR 0xA9], [CHR 0xE2, CHR 0x80, CHR 0xAF],
      [CHR 0xE2, CHR 0x81, CHR 0x9F], [CHR 0xE3, CHR 0x80, CHR 0x80],
      [CHR 0xEF, CHR 0xBB, CHR 0xBF]]"

text \<open>Dropping the leading occurrences of the sequences \<open>ps\<close>, at most \<open>n\<close> of them.\<close>

fun skip :: "string list \<Rightarrow> nat \<Rightarrow> string \<Rightarrow> string" where
  "skip ps 0 s = s"
| "skip ps (Suc n) s =
     (case find (\<lambda>p. take (length p) s = p) ps of
        None \<Rightarrow> s
      | Some p \<Rightarrow> skip ps n (drop (length p) s))"

definition trim_start :: "string \<Rightarrow> string" where
  "trim_start s = skip white_space (length s) s"

definition trim :: "string \<Rightarrow> string" where
  "trim s = rev (skip (map rev white_space) (length s) (rev (trim_start s)))"

text \<open>The value of a digit or a letter as a digit; 36 for any other character.\<close>

definition digit_value :: "char \<Rightarrow> nat" where
  "digit_value c =
     (let n = of_char c :: nat
      in if 48 \<le> n \<and> n \<le> 57 then n - 48
         else if 97 \<le> n \<and> n \<le> 122 then n - 87
         else if 65 \<le> n \<and> n \<le> 90 then n - 55
         else 36)"

definition is_digit :: "nat \<Rightarrow> char \<Rightarrow> bool" where
  "is_digit radix c = (digit_value c < radix)"

definition digits_value :: "nat \<Rightarrow> string \<Rightarrow> nat" where
  "digits_value radix ds = foldl (\<lambda>a c. a * radix + digit_value c) 0 ds"

text \<open>
  An exponent part at the start of \<open>s\<close>, as its value and the rest of \<open>s\<close>; without a
  complete one the value is 0 and the rest is \<open>s\<close>.
\<close>

definition exponent_part :: "string \<Rightarrow> int \<times> string" where
  "exponent_part s =
     (if s \<noteq> [] \<and> hd s \<in> {CHR ''e'', CHR ''E''}
      then (let t = tl s;
                neg = (t \<noteq> [] \<and> hd t = CHR ''-'');
                u = (if t \<noteq> [] \<and> hd t \<in> {CHR ''+'', CHR ''-''} then tl t else t);
                ds = takeWhile (is_digit 10) u
            in if ds = [] then (0, s)
               else ((if neg then - 1 else 1) * int (digits_value 10 ds), dropWhile (is_digit 10) u))
      else (0, s))"

text \<open>
  The longest prefix of \<open>s\<close> that is an unsigned decimal literal (digits with an optional
  fraction, or a fraction alone, and an optional exponent), as its exact value and the rest
  of \<open>s\<close>.
\<close>

definition unsigned_decimal :: "string \<Rightarrow> (rat \<times> string) option" where
  "unsigned_decimal s =
     (let ip = takeWhile (is_digit 10) s;
          r1 = dropWhile (is_digit 10) s;
          dot = (r1 \<noteq> [] \<and> hd r1 = CHR ''.'');
          fp = (if dot then takeWhile (is_digit 10) (tl r1) else []);
          r2 = (if dot then dropWhile (is_digit 10) (tl r1) else r1)
      in if ip = [] \<and> fp = [] then None
         else (let (e, r3) = exponent_part r2
               in Some (of_nat (digits_value 10 (ip @ fp)) * 10 powi (e - int (length fp)), r3)))"

text \<open>The same with a sign and with \<^verbatim>\<open>Infinity\<close>, as a number.\<close>

definition decimal_literal :: "string \<Rightarrow> (jsnum \<times> string) option" where
  "decimal_literal s =
     (let neg = (s \<noteq> [] \<and> hd s = CHR ''-'');
          t = (if s \<noteq> [] \<and> hd s \<in> {CHR ''+'', CHR ''-''} then tl s else s);
          sign = (\<lambda>n. if neg then num_neg n else n)
      in if take 8 t = ''Infinity'' then Some (sign PosInf, drop 8 t)
         else (case unsigned_decimal t of
                 None \<Rightarrow> None
               | Some (q, rest) \<Rightarrow> Some (sign (round64 q), rest)))"

text \<open>A hexadecimal, octal or binary integer literal.\<close>

definition radix_literal :: "string \<Rightarrow> jsnum option" where
  "radix_literal s =
     (let radix = (if take 2 s \<in> {''0x'', ''0X''} then 16
                   else if take 2 s \<in> {''0o'', ''0O''} then 8
                   else if take 2 s \<in> {''0b'', ''0B''} then 2 else 0 :: nat);
          ds = drop 2 s
      in if radix \<noteq> 0 \<and> ds \<noteq> [] \<and> list_all (is_digit radix) ds
         then Some (round64 (of_nat (digits_value radix ds))) else None)"

text \<open>
  A string as a number: 0 when it is empty or white space, the value of the numeric literal
  that it is between white space, and \<open>NaN\<close> otherwise.
\<close>

definition string_to_number :: "string \<Rightarrow> jsnum" where
  "string_to_number s =
     (let t = trim s
      in if t = [] then Fin 0
         else (case radix_literal t of
                 Some n \<Rightarrow> n
               | None \<Rightarrow> (case decimal_literal t of Some (n, []) \<Rightarrow> n | _ \<Rightarrow> NaN)))"

text \<open>
  \<^verbatim>\<open>parseFloat\<close> and \<^verbatim>\<open>parseInt\<close> (without a radix) read a numeral at the start of
  their argument as a string, after white space, and give \<open>NaN\<close> when there is none.
\<close>

definition parseFloat :: "jsval \<Rightarrow> jsnum" where
  "parseFloat v =
     (case decimal_literal (trim_start (to_string v)) of None \<Rightarrow> NaN | Some (n, rest) \<Rightarrow> n)"

definition parseInt :: "jsval \<Rightarrow> jsnum" where
  "parseInt v =
     (let s = trim_start (to_string v);
          neg = (s \<noteq> [] \<and> hd s = CHR ''-'');
          t = (if s \<noteq> [] \<and> hd s \<in> {CHR ''+'', CHR ''-''} then tl s else s);
          radix = (if take 2 t \<in> {''0x'', ''0X''} then 16 else 10);
          ds = takeWhile (is_digit radix) (if radix = 16 then drop 2 t else t)
      in if ds = [] then NaN
         else (let n = round64 (of_nat (digits_value radix ds)) in if neg then num_neg n else n))"

section \<open>Conversions and comparisons\<close>

fun to_number :: "jsval \<Rightarrow> jsnum" where
  "to_number Undefined = NaN"
| "to_number Null = Fin 0"
| "to_number (Boolean b) = Fin (if b then 1 else 0)"
| "to_number (Number n) = n"
| "to_number (Str s) = string_to_number s"

fun truthy :: "jsval \<Rightarrow> bool" where
  "truthy Undefined = False"
| "truthy Null = False"
| "truthy (Boolean b) = b"
| "truthy (Number (Fin q)) = (q \<noteq> 0)"
| "truthy (Number NaN) = False"
| "truthy (Number PosInf) = True"
| "truthy (Number NegInf) = True"
| "truthy (Str s) = (s \<noteq> [])"

definition js_or :: "jsval \<Rightarrow> jsval \<Rightarrow> jsval" where
  "js_or a b = (if truthy a then a else b)"

text \<open>\<open>a > n\<close> and \<open>a < n\<close> where the right operand is a number: the left one is converted.\<close>

definition js_gt :: "jsval \<Rightarrow> jsnum \<Rightarrow> bool" where
  "js_gt a n = num_lt n (to_number a)"

definition js_lt :: "jsval \<Rightarrow> jsnum \<Rightarrow> bool" where
  "js_lt a n = num_lt (to_number a) n"

section \<open>The metrics normalizer\<close>

text \<open>
  \<^verbatim>\<open>calculateMetrics(data)\<close> of the helpers: it destructures the five counters and returns
  an object literal with six properties, each a guarded quotient.
\<close>

definition calculateMetrics :: "jsobj \<Rightarrow> jsobj" where
  "calculateMetrics data =
     (let impressions = get data ''impressions'';
          clicks = get data ''clicks'';
          spend = get data ''spend'';
          conversions = get data ''conversions'';
          revenue = get data ''revenue''
      in [''ctr'' \<mapsto> Number (if js_gt impressions (Fin 0)
                    then num_mul (num_div (to_number clicks) (to_number impressions)) (Fin 100)
                    else Fin 0),
          ''cpc'' \<mapsto> Number (if js_gt clicks (Fin 0)
                    then num_div (to_number spend) (to_number clicks) else Fin 0),
          ''cpl'' \<mapsto> Number (if js_gt conversions (Fin 0)
                    then num_div (to_number spend) (to_number conversions) else Fin 0),
          ''cpa'' \<mapsto> Number (if js_gt conversions (Fin 0)
                    then num_div (to_number spend) (to_number conversions) else Fin 0),
          ''roas'' \<mapsto> Number (if js_gt spend (Fin 0)
                    then num_div (to_number revenue) (to_number spend) else Fin 0),
          ''conversionRate'' \<mapsto> Number (if js_gt clicks (Fin 0)
                    then num_mul (num_div (to_number conversions) (to_number clicks)) (Fin 100)
                    else Fin 0)])"

definition kpi_names :: "string list" where
  "kpi_names = [''ctr'', ''cpc'', ''cpl'', ''cpa'', ''roas'', ''conversionRate'']"

definition counter_names :: "string list" where
  "counter_names = [''impressions'', ''clicks'', ''spend'', ''conversions'', ''revenue'']"

text \<open>A number that is not negative: a finite one from 0 on, or the positive infinity.\<close>

fun nonneg_num :: "jsnum \<Rightarrow> bool" where
  "nonneg_num (Fin x) = (0 \<le> x)"
| "nonneg_num PosInf = True"
| "nonneg_num NaN = False"
| "nonneg_num NegInf = False"

text \<open>A sample of raw counters, as a platform may report them.\<close>

definition sample_counters :: jsobj where
  "sample_counters =
     [''impressions'' \<mapsto> Number (Fin 1000), ''clicks'' \<mapsto> Number (Fin 50),
      ''spend'' \<mapsto> Number (Fin 600), ''conversions'' \<mapsto> Number (Fin 5),
      ''revenue'' \<mapsto> Number (Fin 0)]"

text \<open>Counters whose click-through rate leaves the range of the doubles.\<close>

definition big_counters :: jsobj where
  "big_counters =
     [''impressions'' \<mapsto> Number (Fin 1), ''clicks'' \<mapsto> Number (Fin (2 ^ 1023)),
      ''spend'' \<mapsto> Number (Fin 0), ''conversions'' \<mapsto> Number (Fin 0),
      ''revenue'' \<mapsto> Number (Fin 0)]"

section \<open>The decision rules\<close>

text \<open>
  An action descriptor, as \<^verbatim>\<open>makeOptimizationDecision\<close> builds it and the platform adapters
  read it. A property that the object literal does not have is \<open>Undefined\<close>.
\<close>

record decision =
  d_type :: string
  d_action :: string
  d_reason :: string
  d_adjustment :: jsval
  d_suggestion :: jsval
  d_newBudget :: jsval
  d_currentBudget :: jsval

definition descriptor :: "string \<Rightarrow> string \<Rightarrow> string \<Rightarrow> jsval \<Rightarrow> jsval \<Rightarrow> decision" where
  "descriptor t a r adj sug =
     \<lparr>d_type = t, d_action = a, d_reason = r, d_adjustment = adj, d_suggestion = sug,
      d_newBudget = Undefined, d_currentBudget = Undefined\<rparr>"

text \<open>Pushing in sequence: the first throw ends the evaluation.\<close>

definition and_then :: "error + 'a list \<Rightarrow> error + 'a list \<Rightarrow> error + 'a list" where
  "and_then a b =
     (case a of Inl e \<Rightarrow> Inl e
      | Inr xs \<Rightarrow> (case b of Inl e \<Rightarrow> Inl e | Inr ys \<Rightarrow> Inr (xs @ ys)))"

definition rule_cpl :: "jsobj \<Rightarrow> error + decision list" where
  "rule_cpl metrics =
     (if js_gt (get metrics ''cpl'') (Fin 50)
      then (case toFixed2 (get metrics ''cpl'') of
              Inl e \<Rightarrow> Inl e
            | Inr s \<Rightarrow> Inr [descriptor ''bid_adjustment'' ''decrease_bid''
                (''CPL de R$ '' @ s @ '' est'' @ a_acute @ '' acima do target de R$ 50'')
                (Number (Fin (- 10))) Undefined])
      else Inr [])"

definition rule_roas :: "jsobj \<Rightarrow> error + decision list" where
  "rule_roas metrics =
     (if js_lt (get metrics ''roas'') (Fin 2) \<and> js_gt (get metrics ''conversions'') (Fin 10)
      then (case toFixed2 (get metrics ''roas'') of
              Inl e \<Rightarrow> Inl e
            | Inr s \<Rightarrow> Inr [descriptor ''budget_reallocation'' ''reduce_budget''
                (''ROAS de '' @ s @ ''x est'' @ a_acute @ '' abaixo do target de 2x'')
                (Number (Fin (- 20))) Undefined])
      else Inr [])"

definition rule_ctr :: "jsobj \<Rightarrow> error + decision list" where
  "rule_ctr metrics =
     (if js_lt (get metrics ''ctr'') (Fin 1) \<and> js_gt (get metrics ''impressions'') (Fin 1000)
      then (case toFixed2 (get metrics ''ctr'') of
              Inl e \<Rightarrow> Inl e
            | Inr s \<Rightarrow> Inr [descriptor ''creative_refresh'' ''suggest_new_creatives''
                (''CTR de '' @ s @ ''% est'' @ a_acute @ '' muito baixo'')
                Undefined (Str ''Criar novos criativos com copy mais persuasivo'')])
      else Inr [])"

definition rule_pacing :: "nat \<Rightarrow> jsobj \<Rightarrow> error + decision list" where
  "rule_pacing hour metrics =
     (if js_gt (get metrics ''spend'')
            (num_mul (to_number (get metrics ''dailyBudget'')) (round64 (8 / 10))) \<and> hour < 12
      then Inr [descriptor ''pacing_adjustment'' ''slow_down_delivery''
             (''Gastando or'' @ c_cedilla @ ''amento muito r'' @ a_acute @ ''pido'')
             (Str ''Mudar para entrega uniforme'') Undefined]
      else Inr [])"

text \<open>
  The four \<^verbatim>\<open>if\<close> statements of \<^verbatim>\<open>makeOptimizationDecision\<close>, in their order; \<open>hour\<close> is
  what \<^verbatim>\<open>new Date().getHours()\<close> returns.
\<close>

definition decision_rules :: "nat \<Rightarrow> jsobj \<Rightarrow> error + decision list" where
  "decision_rules hour metrics =
     and_then (rule_cpl metrics)
       (and_then (rule_roas metrics) (and_then (rule_ctr metrics) (rule_pacing hour metrics)))"

text \<open>The KPIs of the worked example.\<close>

definition example_kpis :: jsobj where
  "example_kpis =
     [''cpl'' \<mapsto> Number (Fin 60), ''roas'' \<mapsto> Number (Fin (15 / 10)),
      ''conversions'' \<mapsto> Number (Fin 15), ''ctr'' \<mapsto> Number (Fin (5 / 10)),
      ''impressions'' \<mapsto> Number (Fin 2000), ''spend'' \<mapsto> Number (Fin 85),
      ''dailyBudget'' \<mapsto> Number (Fin 100)]"

definition example_decisions :: "decision list" where
  "example_decisions =
     [descriptor ''bid_adjustment'' ''decrease_bid''
        (''CPL de R$ 60.00 est'' @ a_acute @ '' acima do target de R$ 50'')
        (Number (Fin (- 10))) Undefined,
      descriptor ''budget_reallocation'' ''reduce_budget''
        (''ROAS de 1.50x est'' @ a_acute @ '' abaixo do target de 2x'')
        (Number (Fin (- 20))) Undefined,
      descriptor ''creative_refresh'' ''suggest_new_creatives''
        (''CTR de 0.50% est'' @ a_acute @ '' muito baixo'')
        Undefined (Str ''Criar novos criativos com copy mais persuasivo''),
      descriptor ''pacing_adjustment'' ''slow_down_delivery''
        (''Gastando or'' @ c_cedilla @ ''amento muito r'' @ a_acute @ ''pido'')
        (Str ''Mudar para entrega uniforme'') Undefined]"

section \<open>The alert rules\<close>

text \<open>A row of the \<^verbatim>\<open>campaigns\<close> table, with the columns that the monitoring pass reads.\<close>

record campaign =
  c_id :: string
  c_platform :: string
  c_campaign_id :: string
  c_name :: string
  c_status :: string
  c_daily_budget :: jsval

record alert =
  a_type :: string
  a_severity :: string
  a_message :: string

definition alert_cpl :: "jsobj \<Rightarrow> error + alert list" where
  "alert_cpl metrics =
     (if js_gt (get metrics ''cpl'') (Fin 50)
      then (case toFixed2 (get metrics ''cpl'') of
              Inl e \<Rightarrow> Inl e
            | Inr s \<Rightarrow> Inr [\<lparr>a_type = ''high_cpl'', a_severity = ''warning'',
                a_message = ''CPL de R$ '' @ s @ '' est'' @ a_acute
                  @ '' acima do target de R$ 50''\<rparr>])
      else Inr [])"

definition alert_roas :: "jsobj \<Rightarrow> error + alert list" where
  "alert_roas metrics =
     (if js_lt (get metrics ''roas'') (Fin 2) \<and> js_gt (get metrics ''conversions'') (Fin 10)
      then (case toFixed2 (get metrics ''roas'') of
              Inl e \<Rightarrow> Inl e
            | Inr s \<Rightarrow> Inr [\<lparr>a_type = ''low_roas'', a_severity = ''critical'',
                a_message = ''ROAS de '' @ s @ ''x est'' @ a_acute
                  @ '' abaixo do target de 2x''\<rparr>])
      else Inr [])"

definition alert_budget :: "campaign \<Rightarrow> jsobj \<Rightarrow> error + alert list" where
  "alert_budget c metrics =
     (if js_gt (get metrics ''spend'') (num_mul (to_number (c_daily_budget c)) (round64 (9 / 10)))
      then (case toFixed2 (get metrics ''spend'') of
              Inl e \<Rightarrow> Inl e
            | Inr s \<Rightarrow> Inr [\<lparr>a_type = ''budget_exceeded'', a_severity = ''info'',
                a_message = ''Or'' @ c_cedilla @ ''amento di'' @ a_acute
                  @ ''rio quase esgotado: R$ '' @ s @ '' de R$ ''
                  @ to_string (c_daily_budget c)\<rparr>])
      else Inr [])"

text \<open>The three \<^verbatim>\<open>if\<close> statements of \<^verbatim>\<open>checkAndCreateAlerts\<close>, in their order.\<close>

definition alert_rules :: "campaign \<Rightarrow> jsobj \<Rightarrow> error + alert list" where
  "alert_rules c metrics =
     and_then (alert_cpl metrics) (and_then (alert_roas metrics) (alert_budget c metrics))"

section \<open>The store, the clock and the network\<close>

text \<open>
  A row of \<^verbatim>\<open>performance_metrics\<close>. The table has a unique index on
  \<open>(campaign_id, date)\<close>.
\<close>

record metrics_row =
  m_campaign_id :: string
  m_date :: string
  m_impressions :: jsval
  m_clicks :: jsval
  m_conversions :: jsval
  m_spend :: jsval
  m_revenue :: jsval
  m_ctr :: jsval
  m_cpc :: jsval
  m_cpl :: jsval
  m_cpa :: jsval
  m_roas :: jsval
  m_created_at :: int

text \<open>What a platform adapter returns from \<^verbatim>\<open>executeDecision\<close>.\<close>

record exec_result =
  r_success :: bool
  r_message :: jsval
  r_newBudget :: jsval
  r_status :: jsval

text \<open>
  A row of \<^verbatim>\<open>ai_decisions\<close>. The column \<^verbatim>\<open>action_taken\<close> holds the JSON text of the
  descriptor and of the adapter's result (\<open>None\<close> when no adapter was called and the result
  is \<^verbatim>\<open>undefined\<close>); the model keeps the two values. The insert statement of
  \<^verbatim>\<open>logDecision\<close> does not name the column \<^verbatim>\<open>success\<close>, which stays \<^verbatim>\<open>NULL\<close>.
\<close>

record decision_row =
  dr_campaign_id :: string
  dr_decision_type :: string
  dr_reason :: string
  dr_action_taken :: "decision \<times> exec_result option"
  dr_metrics_before :: jsval
  dr_success :: "bool option"
  dr_created_at :: int

record alert_row =
  al_campaign_id :: string
  al_alert_type :: string
  al_severity :: string
  al_message :: string
  al_created_at :: int

text \<open>The requests that the two adapters send during a monitoring pass.\<close>

datatype request =
    MetaInsights string
  | MetaSetBudget string jsnum
  | MetaPause string
  | GoogleToken
  | GoogleSearch string
  | GoogleMutatePause string

text \<open>
  The outcome of a request: \<^verbatim>\<open>fetch\<close> rejects, or the reply cannot be decoded into an
  object, or it is decoded. For a metrics query the decoded object stands for the first
  element of the reply's rows, empty when there is none
  (\<^verbatim>\<open>result.data?.[0] || {}\<close>).
\<close>

datatype response = Rejected | Malformed | Replied jsobj

text \<open>
  The state that a pass changes: the four tables, the requests sent so far, the calls of an
  adapter's \<^verbatim>\<open>executeDecision\<close> so far (platform, native campaign id, descriptor), and
  the line that \<^verbatim>\<open>monitorCampaign\<close> prints last for a campaign (its name with the
  number of decisions, or with the error caught). The statements of the database are
  taken to succeed.
\<close>

record world =
  campaigns :: "campaign list"
  performance_metrics :: "metrics_row list"
  ai_decisions :: "decision_row list"
  alerts :: "alert_row list"
  sent :: "request list"
  dispatched :: "(string \<times> string \<times> decision) list"
  console :: "(string \<times> (error + nat)) list"

text \<open>
  What a pass reads from outside: the calendar day, the hour and the clock, and the
  network, whose answer may depend on the requests sent before.
\<close>

record env =
  e_today :: string
  e_hour :: nat
  e_now :: int
  e_network :: "request list \<Rightarrow> request \<Rightarrow> response"

definition fetch :: "env \<Rightarrow> request \<Rightarrow> world \<Rightarrow> response \<times> world" where
  "fetch env req w = (e_network env (sent w) req, w\<lparr>sent := sent w @ [req]\<rparr>)"

section \<open>The platform adapters\<close>

definition meta_getCampaignMetrics :: "env \<Rightarrow> string \<Rightarrow> world \<Rightarrow> (error + jsobj) \<times> world" where
  "meta_getCampaignMetrics env campaignId w =
     (case fetch env (MetaInsights campaignId) w of
        (Rejected, w') \<Rightarrow> (Inl NetworkError, w')
      | (Malformed, w') \<Rightarrow> (Inl SyntaxError, w')
      | (Replied row, w') \<Rightarrow> (Inr row, w'))"

definition getAccessToken :: "env \<Rightarrow> world \<Rightarrow> (error + jsval) \<times> world" where
  "getAccessToken env w =
     (case fetch env GoogleToken w of
        (Rejected, w') \<Rightarrow> (Inl NetworkError, w')
      | (Malformed, w') \<Rightarrow> (Inl SyntaxError, w')
      | (Replied body, w') \<Rightarrow> (Inr (get body ''access_token''), w'))"

definition google_getCampaignMetrics :: "env \<Rightarrow> string \<Rightarrow> world \<Rightarrow> (error + jsobj) \<times> world" where
  "google_getCampaignMetrics env campaignId w =
     (case getAccessToken env w of
        (Inl e, w') \<Rightarrow> (Inl e, w')
      | (Inr accessToken, w') \<Rightarrow>
          (case fetch env (GoogleSearch campaignId) w' of
             (Rejected, w'') \<Rightarrow> (Inl NetworkError, w'')
           | (Malformed, w'') \<Rightarrow> (Inl SyntaxError, w'')
           | (Replied row, w'') \<Rightarrow> (Inr row, w'')))"

text \<open>\<^verbatim>\<open>Math.round\<close>: the nearest integer, the larger one on a tie.\<close>

fun math_round :: "jsnum \<Rightarrow> jsnum" where
  "math_round (Fin x) = Fin (of_int \<lfloor>x + 1 / 2\<rfloor>)"
| "math_round n = n"

text \<open>
  \<^verbatim>\<open>decision.newBudget || (decision.currentBudget * (1 + decision.adjustment / 100))\<close>
\<close>

definition new_budget :: "decision \<Rightarrow> jsval" where
  "new_budget d =
     js_or (d_newBudget d)
       (Number (num_mul (to_number (d_currentBudget d))
          (num_add (Fin 1) (num_div (to_number (d_adjustment d)) (Fin 100)))))"

definition exec_ok :: "jsval \<Rightarrow> jsval \<Rightarrow> jsval \<Rightarrow> exec_result" where
  "exec_ok msg nb st = \<lparr>r_success = True, r_message = msg, r_newBudget = nb, r_status = st\<rparr>"

definition not_implemented :: exec_result where
  "not_implemented =
     \<lparr>r_success = False, r_message = Str ''Decision type not implemented'',
      r_newBudget = Undefined, r_status = Undefined\<rparr>"

definition entered :: "string \<Rightarrow> string \<Rightarrow> decision \<Rightarrow> world \<Rightarrow> world" where
  "entered platform campaignId d w = w\<lparr>dispatched := dispatched w @ [(platform, campaignId, d)]\<rparr>"

text \<open>\<^verbatim>\<open>MetaAdsIntegration.executeDecision\<close>: a switch on the descriptor's type.\<close>

definition meta_executeDecision ::
  "env \<Rightarrow> string \<Rightarrow> decision \<Rightarrow> world \<Rightarrow> (error + exec_result) \<times> world" where
  "meta_executeDecision env campaignId d w0 =
     (let w = entered ''meta'' campaignId d w0 in
      if d_type d = ''bid_adjustment''
      then (Inr (exec_ok (Str (''Bid adjustment n'' @ a_tilde @ ''o aplic'' @ a_acute
                                 @ ''vel no Meta Ads'')) Undefined Undefined), w)
      else if d_type d = ''budget_reallocation''
      then (case fetch env (MetaSetBudget campaignId
                     (math_round (num_mul (to_number (new_budget d)) (Fin 100)))) w of
              (Rejected, w') \<Rightarrow> (Inl NetworkError, w')
            | (_, w') \<Rightarrow> (Inr (exec_ok Undefined (new_budget d) Undefined), w'))
      else if d_type d = ''pause_campaign''
      then (case fetch env (MetaPause campaignId) w of
              (Rejected, w') \<Rightarrow> (Inl NetworkError, w')
            | (_, w') \<Rightarrow> (Inr (exec_ok Undefined Undefined (Str ''PAUSED'')), w'))
      else (Inr not_implemented, w))"

text \<open>
  \<^verbatim>\<open>GoogleAdsIntegration.executeDecision\<close>: it asks for an access token first, then
  switches on the descriptor's type.
\<close>

definition google_executeDecision ::
  "env \<Rightarrow> string \<Rightarrow> decision \<Rightarrow> world \<Rightarrow> (error + exec_result) \<times> world" where
  "google_executeDecision env campaignId d w0 =
     (case getAccessToken env (entered ''google'' campaignId d w0) of
        (Inl e, w) \<Rightarrow> (Inl e, w)
      | (Inr accessToken, w) \<Rightarrow>
          if d_type d = ''bid_adjustment''
          then (Inr (exec_ok (Str ''Bid adjustment applied'') Undefined Undefined), w)
          else if d_type d = ''budget_reallocation''
          then (Inr (exec_ok Undefined (new_budget d) Undefined), w)
          else if d_type d = ''pause_campaign''
          then (case fetch env (GoogleMutatePause campaignId) w of
                  (Rejected, w') \<Rightarrow> (Inl NetworkError, w')
                | (_, w') \<Rightarrow> (Inr (exec_ok Undefined Undefined (Str ''PAUSED'')), w'))
          else (Inr not_implemented, w))"

section \<open>The engine: dispatch and ledger\<close>

text \<open>The values that \<^verbatim>\<open>logDecision\<close> binds to its insert statement.\<close>

definition ledger_row ::
  "env \<Rightarrow> string \<Rightarrow> string \<Rightarrow> string \<Rightarrow> decision \<times> exec_result option \<Rightarrow> decision_row" where
  "ledger_row env campaignId decisionType reason actionTaken =
     \<lparr>dr_campaign_id = campaignId, dr_decision_type = decisionType, dr_reason = reason,
      dr_action_taken = actionTaken, dr_metrics_before = Null, dr_success = None,
      dr_created_at = e_now env\<rparr>"

definition logDecision ::
  "env \<Rightarrow> string \<Rightarrow> string \<Rightarrow> string \<Rightarrow> decision \<times> exec_result option \<Rightarrow> world \<Rightarrow> world" where
  "logDecision env campaignId decisionType reason actionTaken w =
     w\<lparr>ai_decisions := ai_decisions w @
        [ledger_row env campaignId decisionType reason actionTaken]\<rparr>"

text \<open>
  \<^verbatim>\<open>AIEngine.executeDecision\<close>: look the campaign up, call the adapter of its platform,
  then write the ledger row. Nothing catches what the adapter throws.
\<close>

definition executeDecision ::
  "env \<Rightarrow> string \<Rightarrow> decision \<Rightarrow> world \<Rightarrow> (error + exec_result option) \<times> world" where
  "executeDecision env campaignId d w =
     (case find (\<lambda>c. c_id c = campaignId) (campaigns w) of
        None \<Rightarrow> (Inl (Error ''Campaign not found''), w)
      | Some c \<Rightarrow>
          (case (if c_platform c = ''meta''
                 then map_prod (map_sum id Some) id (meta_executeDecision env (c_campaign_id c) d w)
                 else if c_platform c = ''google''
                 then map_prod (map_sum id Some) id (google_executeDecision env (c_campaign_id c) d w)
                 else (Inr None, w)) of
             (Inl e, w') \<Rightarrow> (Inl e, w')
           | (Inr result, w') \<Rightarrow>
               (Inr result, logDecision env campaignId (d_type d) (d_reason d) (d, result) w')))"

text \<open>The loop \<^verbatim>\<open>for (const decision of decisions) await this.executeDecision(...)\<close>.\<close>

fun execute_each :: "env \<Rightarrow> string \<Rightarrow> decision list \<Rightarrow> world \<Rightarrow> (error + unit) \<times> world" where
  "execute_each env campaignId [] w = (Inr (), w)"
| "execute_each env campaignId (d # ds) w =
     (case executeDecision env campaignId d w of
        (Inl e, w') \<Rightarrow> (Inl e, w')
      | (Inr result, w') \<Rightarrow> execute_each env campaignId ds w')"

definition makeOptimizationDecision ::
  "env \<Rightarrow> string \<Rightarrow> jsobj \<Rightarrow> world \<Rightarrow> (error + decision list) \<times> world" where
  "makeOptimizationDecision env campaignId metrics w =
     (case decision_rules (e_hour env) metrics of
        Inl e \<Rightarrow> (Inl e, w)
      | Inr decisions \<Rightarrow>
          (case execute_each env campaignId decisions w of
             (Inl e, w') \<Rightarrow> (Inl e, w')
           | (Inr u, w') \<Rightarrow> (Inr decisions, w')))"

section \<open>The monitoring loop\<close>

text \<open>\<^verbatim>\<open>v || 0\<close>\<close>

definition or_zero :: "jsval \<Rightarrow> jsval" where
  "or_zero v = js_or v (Number (Fin 0))"

text \<open>The object literal that \<^verbatim>\<open>monitorCampaign\<close> passes to the normalizer.\<close>

definition raw_counters :: "jsobj \<Rightarrow> jsobj" where
  "raw_counters platformMetrics =
     [''impressions'' \<mapsto> or_zero (Number (parseInt (get platformMetrics ''impressions''))),
      ''clicks'' \<mapsto> or_zero (Number (parseInt (get platformMetrics ''clicks''))),
      ''spend'' \<mapsto> or_zero (Number (parseFloat (get platformMetrics ''spend''))),
      ''conversions'' \<mapsto> or_zero (Number (parseFloat (get platformMetrics ''conversions''))),
      ''revenue'' \<mapsto> Number (Fin 0)]"

text \<open>The values that \<^verbatim>\<open>saveMetrics\<close> binds to its insert statement.\<close>

definition snapshot :: "env \<Rightarrow> string \<Rightarrow> jsobj \<Rightarrow> metrics_row" where
  "snapshot env campaignId metrics =
     \<lparr>m_campaign_id = campaignId, m_date = e_today env,
      m_impressions = or_zero (get metrics ''impressions''),
      m_clicks = or_zero (get metrics ''clicks''),
      m_conversions = or_zero (get metrics ''conversions''),
      m_spend = or_zero (get metrics ''spend''),
      m_revenue = or_zero (get metrics ''revenue''),
      m_ctr = or_zero (get metrics ''ctr''),
      m_cpc = or_zero (get metrics ''cpc''),
      m_cpl = or_zero (get metrics ''cpl''),
      m_cpa = or_zero (get metrics ''cpa''),
      m_roas = or_zero (get metrics ''roas''),
      m_created_at = e_now env\<rparr>"

definition m_key :: "metrics_row \<Rightarrow> string \<times> string" where
  "m_key r = (m_campaign_id r, m_date r)"

text \<open>
  \<^verbatim>\<open>INSERT ... ON CONFLICT(campaign_id, date) DO UPDATE SET ...\<close>: the row with the key
  of the new one takes its ten metric columns and keeps the others; without such a row the
  new one is added.
\<close>

fun upsert :: "metrics_row \<Rightarrow> metrics_row list \<Rightarrow> metrics_row list" where
  "upsert new [] = [new]"
| "upsert new (old # rows) =
     (if m_key old = m_key new
      then old\<lparr>m_impressions := m_impressions new, m_clicks := m_clicks new,
               m_conversions := m_conversions new, m_spend := m_spend new,
               m_revenue := m_revenue new, m_ctr := m_ctr new, m_cpc := m_cpc new,
               m_cpl := m_cpl new, m_cpa := m_cpa new, m_roas := m_roas new\<rparr> # rows
      else old # upsert new rows)"

definition saveMetrics :: "env \<Rightarrow> string \<Rightarrow> jsobj \<Rightarrow> world \<Rightarrow> world" where
  "saveMetrics env campaignId metrics w =
     w\<lparr>performance_metrics := upsert (snapshot env campaignId metrics) (performance_metrics w)\<rparr>"

definition insert_alert :: "env \<Rightarrow> campaign \<Rightarrow> alert \<Rightarrow> alert_row" where
  "insert_alert env c a =
     \<lparr>al_campaign_id = c_id c, al_alert_type = a_type a, al_severity = a_severity a,
      al_message = a_message a, al_created_at = e_now env\<rparr>"

definition checkAndCreateAlerts ::
  "env \<Rightarrow> campaign \<Rightarrow> jsobj \<Rightarrow> world \<Rightarrow> (error + unit) \<times> world" where
  "checkAndCreateAlerts env c metrics w =
     (case alert_rules c metrics of
        Inl e \<Rightarrow> (Inl e, w)
      | Inr found \<Rightarrow> (Inr (), w\<lparr>alerts := alerts w @ map (insert_alert env c) found\<rparr>))"

text \<open>
  The body of the \<^verbatim>\<open>try\<close> block of \<^verbatim>\<open>monitorCampaign\<close>. For a platform that is neither
  \<^verbatim>\<open>meta\<close> nor \<^verbatim>\<open>google\<close> the variable \<^verbatim>\<open>platformMetrics\<close> stays undefined and reading its
  property throws.
\<close>

definition monitor_pipeline :: "env \<Rightarrow> campaign \<Rightarrow> world \<Rightarrow> (error + nat) \<times> world" where
  "monitor_pipeline env c w =
     (case (if c_platform c = ''meta''
            then map_prod (map_sum id Some) id (meta_getCampaignMetrics env (c_campaign_id c) w)
            else if c_platform c = ''google''
            then map_prod (map_sum id Some) id (google_getCampaignMetrics env (c_campaign_id c) w)
            else (Inr None, w)) of
        (Inl e, w1) \<Rightarrow> (Inl e, w1)
      | (Inr None, w1) \<Rightarrow> (Inl TypeError, w1)
      | (Inr (Some platformMetrics), w1) \<Rightarrow>
          (let metrics = calculateMetrics (raw_counters platformMetrics) in
           case makeOptimizationDecision env (c_id c) metrics
                  (saveMetrics env (c_id c) metrics w1) of
             (Inl e, w3) \<Rightarrow> (Inl e, w3)
           | (Inr decisions, w3) \<Rightarrow>
               (case checkAndCreateAlerts env c metrics w3 of
                  (Inl e, w4) \<Rightarrow> (Inl e, w4)
                | (Inr u, w4) \<Rightarrow> (Inr (length decisions), w4))))"

text \<open>\<^verbatim>\<open>monitorCampaign\<close>: the \<^verbatim>\<open>catch\<close> prints the error and returns.\<close>

definition monitorCampaign :: "env \<Rightarrow> campaign \<Rightarrow> world \<Rightarrow> (error + unit) \<times> world" where
  "monitorCampaign env c w =
     (case monitor_pipeline env c w of
        (outcome, w') \<Rightarrow> (Inr (), w'\<lparr>console := console w' @ [(c_name c, outcome)]\<rparr>))"

fun monitor_each :: "env \<Rightarrow> campaign list \<Rightarrow> world \<Rightarrow> (error + unit) \<times> world" where
  "monitor_each env [] w = (Inr (), w)"
| "monitor_each env (c # cs) w =
     (case monitorCampaign env c w of
        (Inl e, w') \<Rightarrow> (Inl e, w')
      | (Inr u, w') \<Rightarrow> monitor_each env cs w')"

text \<open>
  \<^verbatim>\<open>monitorAll\<close>: the active campaigns are read once, then monitored one after the other;
  the \<^verbatim>\<open>catch\<close> around the loop prints the error and returns.
\<close>

definition monitorAll :: "env \<Rightarrow> world \<Rightarrow> (error + unit) \<times> world" where
  "monitorAll env w =
     (case monitor_each env (filter (\<lambda>c. c_status c = ''active'') (campaigns w)) w of
        (outcome, w') \<Rightarrow> (Inr (), w'))"

section \<open>Auxiliary notions\<close>

text \<open>The part of the state that the adapters never touch.\<close>

definition tables ::
  "world \<Rightarrow> campaign list \<times> metrics_row list \<times> decision_row list \<times> alert_row list
     \<times> (string \<times> (error + nat)) list" where
  "tables w = (campaigns w, performance_metrics w, ai_decisions w, alerts w, console w)"

definition known_types :: "string set" where
  "known_types = {''bid_adjustment'', ''budget_reallocation'', ''pause_campaign''}"

definition advisory_types :: "string set" where
  "advisory_types = {''creative_refresh'', ''pacing_adjustment''}"

text \<open>
  The requests that the adapter of a platform sends for a descriptor when its
  \<^verbatim>\<open>executeDecision\<close> returns.
\<close>

definition adapter_requests :: "string \<Rightarrow> string \<Rightarrow> decision \<Rightarrow> request list" where
  "adapter_requests platform campaignId d =
     (if platform = ''meta''
      then (if d_type d = ''budget_reallocation''
            then [MetaSetBudget campaignId
                    (math_round (num_mul (to_number (new_budget d)) (Fin 100)))]
            else if d_type d = ''pause_campaign'' then [MetaPause campaignId]
            else [])
      else if platform = ''google''
      then GoogleToken # (if d_type d = ''pause_campaign'' then [GoogleMutatePause campaignId] else [])
      else [])"

text \<open>The row that a successful dispatch of \<open>d\<close> with the adapter's result \<open>r\<close> adds.\<close>

definition dispatch_row :: "env \<Rightarrow> string \<Rightarrow> decision \<Rightarrow> exec_result option \<Rightarrow> decision_row" where
  "dispatch_row env campaignId d r = ledger_row env campaignId (d_type d) (d_reason d) (d, r)"

text \<open>The ten metric columns of a row, and the rows whose five counters are 0.\<close>

definition m_values :: "metrics_row \<Rightarrow> jsval list" where
  "m_values r =
     [m_impressions r, m_clicks r, m_conversions r, m_spend r, m_revenue r,
      m_ctr r, m_cpc r, m_cpl r, m_cpa r, m_roas r]"

definition zero_counters :: "metrics_row \<Rightarrow> bool" where
  "zero_counters r =
     (m_impressions r = Number (Fin 0) \<and> m_clicks r = Number (Fin 0)
      \<and> m_conversions r = Number (Fin 0) \<and> m_spend r = Number (Fin 0)
      \<and> m_revenue r = Number (Fin 0))"

text \<open>A sequence of calls of \<^verbatim>\<open>saveMetrics\<close>, each with its day, campaign and metrics.\<close>

fun save_all :: "(env \<times> string \<times> jsobj) list \<Rightarrow> world \<Rightarrow> world" where
  "save_all [] w = w"
| "save_all ((env, campaignId, metrics) # calls) w =
     save_all calls (saveMetrics env campaignId metrics w)"

definition call_key :: "env \<times> string \<times> jsobj \<Rightarrow> string \<times> string" where
  "call_key call = (fst (snd call), e_today (fst call))"

text \<open>A value that is a number, or a property that the object does not have.\<close>

fun number_or_absent :: "jsval \<Rightarrow> bool" where
  "number_or_absent Undefined = True"
| "number_or_absent (Number n) = True"
| "number_or_absent Null = False"
| "number_or_absent (Boolean b) = False"
| "number_or_absent (Str s) = False"

text \<open>The type and the severity of an alert.\<close>

definition alert_kind :: "alert \<Rightarrow> string \<times> string" where
  "alert_kind a = (a_type a, a_severity a)"

text \<open>
  The platform of campaign \<open>c\<close> answers: whenever it is asked, its metrics query returns
  the row \<open>pm\<close> and, on Google, the token request is answered.
\<close>

definition platform_ok :: "env \<Rightarrow> campaign \<Rightarrow> jsobj \<Rightarrow> bool" where
  "platform_ok env c pm =
     (c_platform c = ''meta''
        \<and> (\<forall>h. e_network env h (MetaInsights (c_campaign_id c)) = Replied pm)
      \<or> c_platform c = ''google''
        \<and> (\<forall>h. e_network env h (GoogleSearch (c_campaign_id c)) = Replied pm)
        \<and> (\<forall>h. \<exists>body. e_network env h GoogleToken = Replied body))"

text \<open>The tables that the dispatch of a descriptor never touches, and the printed lines.\<close>

definition kept ::
  "world \<Rightarrow> campaign list \<times> metrics_row list \<times> alert_row list \<times> (string \<times> (error + nat)) list" where
  "kept w = (campaigns w, performance_metrics w, alerts w, console w)"

text \<open>
  What a completed pipeline of campaign \<open>c\<close> on the reported row \<open>pm\<close> leaves in the
  state: the snapshot of the day, the rows of the alerts raised, and the line with the
  number of decisions.
\<close>

definition monitored :: "env \<Rightarrow> campaign \<Rightarrow> jsobj \<Rightarrow> world \<Rightarrow> bool" where
  "monitored env c pm w =
     ((\<exists>r \<in> set (performance_metrics w). m_key r = (c_id c, e_today env)
          \<and> m_values r = m_values (snapshot env (c_id c) (calculateMetrics (raw_counters pm))))
      \<and> (\<exists>found. alert_rules c (calculateMetrics (raw_counters pm)) = Inr found
          \<and> set (map (insert_alert env c) found) \<subseteq> set (alerts w))
      \<and> (\<exists>n. (c_name c, Inr n) \<in> set (console w)))"

section \<open>Sample states\<close>

definition net_ok :: "env \<Rightarrow> bool" where
  "net_ok env = (\<forall>h r. \<exists>body. e_network env h r = Replied body)"

definition meta_campaign :: campaign where
  "meta_campaign =
     \<lparr>c_id = ''c1'', c_platform = ''meta'', c_campaign_id = ''120001'', c_name = ''Forro'',
      c_status = ''active'', c_daily_budget = Number (Fin 100)\<rparr>"

definition google_campaign :: campaign where
  "google_campaign =
     \<lparr>c_id = ''c2'', c_platform = ''google'', c_campaign_id = ''987'', c_name = ''Gesso'',
      c_status = ''active'', c_daily_budget = Number (Fin 80)\<rparr>"

definition example_world :: world where
  "example_world =
     \<lparr>campaigns = [meta_campaign, google_campaign], performance_metrics = [],
      ai_decisions = [], alerts = [], sent = [], dispatched = [], console = []\<rparr>"

text \<open>A morning on which every request is answered, and one on which every request fails.\<close>

definition example_env :: env where
  "example_env =
     \<lparr>e_today = ''2025-01-15'', e_hour = 9, e_now = 1736931600000,
      e_network = (\<lambda>h r. Replied sample_counters)\<rparr>"

definition offline_env :: env where
  "offline_env =
     \<lparr>e_today = ''2025-01-15'', e_hour = 9, e_now = 1736931600000,
      e_network = (\<lambda>h r. Rejected)\<rparr>"

text \<open>A morning on which Meta's metrics query fails and everything else is answered.\<close>

definition flaky_env :: env where
  "flaky_env =
     \<lparr>e_today = ''2025-01-15'', e_hour = 9, e_now = 1736931600000,
      e_network = (\<lambda>h r. case r of MetaInsights n \<Rightarrow> Rejected | _ \<Rightarrow> Replied sample_counters)\<rparr>"

section \<open>Rounding to a double\<close>

lemma round_even_nonneg: "0 \<le> x \<Longrightarrow> 0 \<le> round_even x"
  by (auto simp: round_even_def Let_def)

lemma round64_nonneg: "0 \<le> q \<Longrightarrow> round64 q = PosInf \<or> (\<exists>r\<ge>0. round64 q = Fin r)"
  by (auto simp: round64_def Let_def round_even_nonneg)

lemma ilog2_bounds:
  assumes "0 < q"
  shows "2 powi ilog2 q \<le> q" and "q < 2 powi (ilog2 q + 1)"
proof -
  have "2 powi ilog2 q \<le> q \<and> q < 2 powi (ilog2 q + 1)"
  proof (cases "1 \<le> q")
    case True
    define n where "n = \<lfloor>q\<rfloor>"
    have n: "0 < n" using True by (simp add: n_def)
    have b: "1 \<le> bitlen n" using n by (simp add: bitlen_alt_def)
    have k: "ilog2 q = bitlen n - 1" using True by (simp add: ilog2_def n_def)
    from bitlen_bounds [OF n] have lo: "2 ^ nat (bitlen n - 1) \<le> n" and hi: "n < 2 ^ nat (bitlen n)"
      by simp_all
    have "(2::rat) powi (bitlen n - 1) = of_int (2 ^ nat (bitlen n - 1))"
      using b by (simp add: power_int_def)
    also have "\<dots> \<le> of_int n" using lo by (simp only: of_int_le_iff)
    also have "\<dots> \<le> q" by (simp add: n_def)
    finally have 1: "2 powi ilog2 q \<le> q" by (simp add: k)
    have "n + 1 \<le> 2 ^ nat (bitlen n)" using hi by simp
    then have "(of_int (n + 1) :: rat) \<le> of_int (2 ^ nat (bitlen n))"
      by (simp only: of_int_le_iff)
    moreover have "q < of_int (n + 1)" using floor_correct [of q] by (simp add: n_def)
    ultimately have "q < of_int (2 ^ nat (bitlen n))" by simp
    also have "\<dots> = 2 powi (ilog2 q + 1)" using b by (simp add: k power_int_def)
    finally show ?thesis using 1 by simp
  next
    case False
    define m where "m = \<lceil>1 / q\<rceil> - 1"
    have big: "1 < 1 / q" using False assms by simp
    have m: "0 < m" using big by (simp add: m_def less_ceiling_iff)
    have b: "1 \<le> bitlen m" using m by (simp add: bitlen_alt_def)
    have k: "ilog2 q = - bitlen m" using False by (simp add: ilog2_def m_def)
    from bitlen_bounds [OF m] have lo: "2 ^ nat (bitlen m - 1) \<le> m" and hi: "m < 2 ^ nat (bitlen m)"
      by simp_all
    have "1 / q \<le> of_int (m + 1)" by (simp add: m_def)
    also have "\<dots> \<le> of_int (2 ^ nat (bitlen m))" using hi by (simp only: of_int_le_iff)
    also have "\<dots> = 2 powi (bitlen m)" using b by (simp add: power_int_def)
    finally have "1 / q \<le> 2 powi (bitlen m)" .
    then have "1 \<le> 2 powi (bitlen m) * q" using assms by (simp add: field_simps)
    then have 1: "2 powi ilog2 q \<le> q"
      by (simp add: k power_int_minus field_simps)
    have less: "(of_int m :: rat) < 1 / q" using ceiling_correct [of "1 / q"] by (simp add: m_def)
    have "(of_int (2 ^ nat (bitlen m - 1)) :: rat) \<le> of_int m"
      using lo by (simp only: of_int_le_iff)
    then have "(2::rat) ^ nat (bitlen m - 1) \<le> of_int m" by simp
    then have "(2::rat) ^ nat (bitlen m - 1) < 1 / q" using less by (rule le_less_trans)
    then have "(2::rat) powi (bitlen m - 1) < 1 / q" using b by (simp add: power_int_def)
    then have "q * 2 powi (bitlen m - 1) < 1" using assms by (simp add: field_simps)
    moreover have "ilog2 q + 1 = - (bitlen m - 1)" by (simp add: k)
    ultimately have "q < 2 powi (ilog2 q + 1)"
      by (simp only: power_int_minus) (simp add: field_simps)
    with 1 show ?thesis by simp
  qed
  then show "2 powi ilog2 q \<le> q" and "q < 2 powi (ilog2 q + 1)" by simp_all
qed

lemma ilog2_eq:
  assumes "2 powi k \<le> q" and "q < 2 powi (k + 1)"
  shows "ilog2 q = k"
proof -
  have "(0::rat) < 2 powi k" by (rule zero_less_power_int) simp
  then have pos: "0 < q" using assms(1) by (rule less_le_trans)
  note b = ilog2_bounds [OF pos]
  have "\<not> ilog2 q < k"
  proof
    assume "ilog2 q < k"
    then have "(2::rat) powi (ilog2 q + 1) \<le> 2 powi k" by (intro power_int_increasing) simp_all
    with b(2) assms(1) show False by simp
  qed
  moreover have "\<not> k < ilog2 q"
  proof
    assume "k < ilog2 q"
    then have "(2::rat) powi (k + 1) \<le> 2 powi ilog2 q" by (intro power_int_increasing) simp_all
    with b(1) assms(2) show False by simp
  qed
  ultimately show ?thesis by simp
qed


lemma round_even_floor: "\<lfloor>x\<rfloor> \<le> round_even x"
  by (simp add: round_even_def Let_def)

lemma round64_normal:
  assumes "2 powi k \<le> q" and "q < 2 powi (k + 1)" and "- 1022 \<le> k"
  shows "round64 q =
     (let r = of_int (round_even (q / 2 powi (k - 52))) * 2 powi (k - 52)
      in if 2 ^ 1024 \<le> r then PosInf else Fin r)"
proof -
  have "(0::rat) < 2 powi k" by (rule zero_less_power_int) simp
  then have pos: "0 < q" using assms(1) by (rule less_le_trans)
  then have a: "\<bar>q\<bar> = q" by simp
  have k: "ilog2 q = k" using assms(1,2) by (rule ilog2_eq)
  have e: "max (k - 52) (- 1074) = k - 52" using assms(3) by simp
  show ?thesis
    using pos by (simp add: round64_def a k e Let_def)
qed

lemma round64_overflow:
  assumes "2 ^ 1024 \<le> q"
  shows "round64 q = PosInf"
proof -
  have "(0::rat) < 2 ^ 1024" by simp
  then have pos: "0 < q" using assms by (rule less_le_trans)
  define k where "k = ilog2 q"
  have lo: "2 powi k \<le> q" and hi: "q < 2 powi (k + 1)"
    using ilog2_bounds [OF pos] by (simp_all add: k_def)
  have "(2::rat) powi 1024 < 2 powi (k + 1)"
    using assms hi by simp
  have big: "1024 \<le> k"
  proof (rule ccontr)
    assume "\<not> 1024 \<le> k"
    then have "(2::rat) powi (k + 1) \<le> 2 powi 1024"
      by (intro power_int_increasing) simp_all
    with \<open>(2::rat) powi 1024 < 2 powi (k + 1)\<close> show False by simp
  qed
  have e: "max (k - 52) (- 1074) = k - 52" using big by simp
  define x where "x = q / 2 powi (k - 52)"
  have "(2::rat) powi (k - 52 + 52) = 2 powi (k - 52) * 2 powi 52"
    by (rule power_int_add) simp
  then have split: "(2::rat) powi k = 2 powi (k - 52) * 2 ^ 52" by simp
  then have "2 powi (k - 52) * 2 ^ 52 \<le> q" using lo by simp
  then have "2 ^ 52 \<le> x"
    by (simp add: x_def field_simps)
  then have "(2 ^ 52 :: int) \<le> \<lfloor>x\<rfloor>" by (simp add: le_floor_iff)
  then have "(2 ^ 52 :: int) \<le> round_even x" by (rule order_trans) (rule round_even_floor)
  then have "(of_int (2 ^ 52) :: rat) \<le> of_int (round_even x)" by (simp only: of_int_le_iff)
  then have step: "(of_int (2 ^ 52) :: rat) * 2 powi (k - 52) \<le> of_int (round_even x) * 2 powi (k - 52)"
    by (intro mult_right_mono) simp_all
  have "(2::rat) powi 1024 \<le> 2 powi k"
    using big by (intro power_int_increasing) simp_all
  also have "\<dots> = of_int (2 ^ 52) * 2 powi (k - 52)"
    using split by simp
  also note step
  finally have "(2::rat) ^ 1024 \<le> of_int (round_even x) * 2 powi (k - 52)" by simp
  then show ?thesis
    using pos by (simp add: round64_def Let_def e x_def flip: k_def)
qed

lemma floor_numeral_div: "\<lfloor>(numeral a :: rat) / numeral b\<rfloor> = numeral a div numeral b"
  using floor_divide_of_int_eq [of "numeral a" "numeral b", where ?'a = rat] by simp

lemmas eval_round64 = Let_def round_even_def floor_numeral_div

lemma round_even_le: "x \<le> of_int n \<Longrightarrow> round_even x \<le> n"
proof -
  assume a: "x \<le> of_int n"
  then have f: "\<lfloor>x\<rfloor> \<le> n" by (simp add: floor_le_iff)
  show ?thesis
  proof (cases "x = of_int \<lfloor>x\<rfloor>")
    case True
    then have "round_even x = \<lfloor>x\<rfloor>" by (simp add: round_even_def Let_def)
    with f show ?thesis by simp
  next
    case False
    then have "of_int \<lfloor>x\<rfloor> < x" using of_int_floor_le [of x] by linarith
    then have "of_int \<lfloor>x\<rfloor> < (of_int n :: rat)" using a by simp
    then have "\<lfloor>x\<rfloor> < n" by (simp only: of_int_less_iff)
    moreover have "round_even x \<le> \<lfloor>x\<rfloor> + 1" by (simp add: round_even_def Let_def)
    ultimately show ?thesis by simp
  qed
qed

lemma round64_le_pow2:
  assumes "0 \<le> q" and "q \<le> 2 powi j" and "- 1074 \<le> j" and "j \<le> 1023"
  shows "\<exists>r. round64 q = Fin r \<and> 0 \<le> r \<and> r \<le> 2 powi j"
proof (cases "q = 0")
  case True
  then show ?thesis by (simp add: round64_def)
next
  case False
  with assms(1) have pos: "0 < q" by simp
  define k where "k = ilog2 q"
  define e where "e = max (k - 52) (- 1074)"
  define m where "m = round_even (q / 2 powi e)"
  have lo: "2 powi k \<le> q"
    using ilog2_bounds(1) [OF pos] by (simp add: k_def)
  have kj: "k \<le> j"
  proof (rule ccontr)
    assume "\<not> k \<le> j"
    then have "(2::rat) powi j < 2 powi k" by (intro power_int_strict_increasing) simp_all
    with lo assms(2) show False by simp
  qed
  then have ej: "e \<le> j" using assms(3) by (simp add: e_def)
  have p: "(0::rat) < 2 powi e" by (rule zero_less_power_int) simp
  have "(2::rat) powi (e + (j - e)) = 2 powi e * 2 powi (j - e)"
    by (rule power_int_add) simp
  then have split: "(2::rat) powi j = 2 powi e * 2 powi (j - e)" by simp
  have "(2::rat) powi (j - e) = of_int (2 ^ nat (j - e))"
    using ej by (simp add: power_int_def)
  moreover have "q / 2 powi e \<le> 2 powi (j - e)"
    using assms(2) p by (simp add: split field_simps)
  ultimately have "q / 2 powi e \<le> of_int (2 ^ nat (j - e))" by simp
  then have "m \<le> 2 ^ nat (j - e)" unfolding m_def by (rule round_even_le)
  then have "(of_int m :: rat) \<le> of_int (2 ^ nat (j - e))" by (simp only: of_int_le_iff)
  then have "(of_int m :: rat) \<le> 2 powi (j - e)"
    using \<open>(2::rat) powi (j - e) = of_int (2 ^ nat (j - e))\<close> by simp
  then have "(of_int m :: rat) * 2 powi e \<le> 2 powi (j - e) * 2 powi e"
    using p by (intro mult_right_mono) simp_all
  then have le: "(of_int m :: rat) * 2 powi e \<le> 2 powi j" by (simp add: split mult.commute)
  have "(2::rat) powi j \<le> 2 powi 1023"
    using assms(4) by (intro power_int_increasing) simp_all
  also have "\<dots> < 2 ^ 1024" by simp
  finally have "(2::rat) powi j < 2 ^ 1024" .
  with le have "(of_int m :: rat) * 2 powi e < 2 ^ 1024" by (rule le_less_trans)
  then have no: "\<not> (2::rat) ^ 1024 \<le> of_int m * 2 powi e" by simp
  have "0 \<le> m" unfolding m_def using pos p by (intro round_even_nonneg) simp
  then have nn: "(0::rat) \<le> of_int m * 2 powi e" using p by simp
  have "round64 q = Fin (of_int m * 2 powi e)"
    using pos no by (simp add: round64_def Let_def m_def e_def k_def)
  with le nn show ?thesis by simp
qed

lemma literals:
  "round64 (8 / 10) = Fin (3602879701896397 / 4503599627370496)"
  "round64 (4 / 5) = Fin (3602879701896397 / 4503599627370496)"
  "round64 (9 / 10) = Fin (8106479329266893 / 9007199254740992)"
  by (simp_all add: round64_normal [of "- 1"] eval_round64)

lemma thresholds:
  "num_mul (Fin 100) (round64 (8 / 10)) = Fin 80"
  "num_mul (Fin 100) (round64 (4 / 5)) = Fin 80"
  "num_mul (Fin 100) (round64 (9 / 10)) = Fin 90"
  by (simp_all add: literals round64_normal [of 6] eval_round64)

lemma round64_zero: "round64 0 = Fin 0"
  by (simp add: round64_def)

section \<open>Properties of the metrics normalizer\<close>

lemma calculateMetrics_dom: "dom (calculateMetrics data) = set kpi_names"
  by (auto simp: calculateMetrics_def kpi_names_def Let_def split: if_splits)

lemma nonneg_round64: "0 \<le> q \<Longrightarrow> nonneg_num (round64 q)"
  using round64_nonneg [of q] by auto

lemma quotient_range: "0 \<le> x \<Longrightarrow> 0 < y \<Longrightarrow> nonneg_num (num_div (Fin x) (Fin y))"
  by (simp add: nonneg_round64)

lemma percent_range: "nonneg_num n \<Longrightarrow> nonneg_num (num_mul n (Fin 100))"
  by (cases n) (simp_all add: nonneg_round64 signed_inf_def)

lemma quotient_finite:
  assumes "0 \<le> x" and "0 < y" and "x / y \<le> 2 powi j" and "- 1074 \<le> j" and "j \<le> 1023"
  shows "\<exists>q. num_div (Fin x) (Fin y) = Fin q \<and> 0 \<le> q \<and> q \<le> 2 powi j"
proof -
  have "0 \<le> x / y" using assms(1,2) by simp
  from round64_le_pow2 [OF this assms(3-5)] assms(2) show ?thesis by simp
qed

lemma percent_finite:
  assumes "0 \<le> x" and "0 < y" and "x / y * 100 \<le> 2 ^ 1022"
  shows "\<exists>q. num_mul (num_div (Fin x) (Fin y)) (Fin 100) = Fin q"
proof -
  define P :: rat where "P = 2 ^ 1016"
  define t where "t = x / y"
  have Pn: "0 \<le> P" by (simp add: P_def)
  have Pe: "2 ^ 1022 = P * 64" "2 powi 1016 = P" "2 powi 1023 = P * 128"
    by (simp_all add: P_def)
  have "t * 100 \<le> P * 64" using assms(3) by (simp only: Pe t_def)
  then have "t \<le> P" using Pn by linarith
  then have "x / y \<le> 2 powi 1016" by (simp only: Pe t_def)
  from quotient_finite [OF assms(1,2) this] obtain q where
    q: "num_div (Fin x) (Fin y) = Fin q" "0 \<le> q" "q \<le> 2 powi 1016"
    by auto
  have "q \<le> P" using q(3) by (simp only: Pe)
  then have "q * 100 \<le> P * 128" using Pn by linarith
  then have "q * 100 \<le> 2 powi 1023" by (simp only: Pe)
  moreover have "0 \<le> q * 100" using q(2) by simp
  ultimately obtain r where "round64 (q * 100) = Fin r"
    using round64_le_pow2 [of "q * 100" 1023] by auto
  then show ?thesis unfolding q(1) by simp
qed

text \<open>The six KPIs on counters that are finite numbers.\<close>

lemma kpi_values:
  assumes "get data ''impressions'' = Number (Fin i)" and "get data ''clicks'' = Number (Fin c)"
    and "get data ''spend'' = Number (Fin s)" and "get data ''conversions'' = Number (Fin v)"
    and "get data ''revenue'' = Number (Fin r)"
  shows "calculateMetrics data ''ctr''
       = Some (Number (if 0 < i then num_mul (num_div (Fin c) (Fin i)) (Fin 100) else Fin 0))"
    and "calculateMetrics data ''cpc'' = Some (Number (if 0 < c then num_div (Fin s) (Fin c) else Fin 0))"
    and "calculateMetrics data ''cpl'' = Some (Number (if 0 < v then num_div (Fin s) (Fin v) else Fin 0))"
    and "calculateMetrics data ''cpa'' = Some (Number (if 0 < v then num_div (Fin s) (Fin v) else Fin 0))"
    and "calculateMetrics data ''roas'' = Some (Number (if 0 < s then num_div (Fin r) (Fin s) else Fin 0))"
    and "calculateMetrics data ''conversionRate''
       = Some (Number (if 0 < c then num_mul (num_div (Fin v) (Fin c)) (Fin 100) else Fin 0))"
  using assms by (simp_all add: calculateMetrics_def js_gt_def Let_def del: num_div.simps num_mul.simps)

lemma quotient_kpi:
  assumes "0 \<le> x" and "0 \<le> y"
  shows "nonneg_num (if 0 < y then num_div (Fin x) (Fin y) else Fin 0)"
    and "x / y \<le> 2 ^ 1022 \<Longrightarrow> \<exists>q. (if 0 < y then num_div (Fin x) (Fin y) else Fin 0) = Fin q"
    and "y = 0 \<Longrightarrow> (if 0 < y then num_div (Fin x) (Fin y) else Fin 0) = Fin 0"
proof -
  show "nonneg_num (if 0 < y then num_div (Fin x) (Fin y) else Fin 0)"
    using assms quotient_range [of x y] by (simp del: num_div.simps)
  show "\<exists>q. (if 0 < y then num_div (Fin x) (Fin y) else Fin 0) = Fin q" if "x / y \<le> 2 ^ 1022"
  proof (cases "0 < y")
    case True
    have "x / y \<le> 2 powi 1022" using that by simp
    from quotient_finite [OF assms(1) True this] True show ?thesis by (auto simp del: num_div.simps)
  next
    case False
    then show ?thesis by simp
  qed
  show "(if 0 < y then num_div (Fin x) (Fin y) else Fin 0) = Fin 0" if "y = 0"
    using that by simp
qed

lemma percent_kpi:
  assumes "0 \<le> x" and "0 \<le> y"
  shows "nonneg_num (if 0 < y then num_mul (num_div (Fin x) (Fin y)) (Fin 100) else Fin 0)"
    and "x / y * 100 \<le> 2 ^ 1022
         \<Longrightarrow> \<exists>q. (if 0 < y then num_mul (num_div (Fin x) (Fin y)) (Fin 100) else Fin 0) = Fin q"
    and "y = 0 \<Longrightarrow> (if 0 < y then num_mul (num_div (Fin x) (Fin y)) (Fin 100) else Fin 0) = Fin 0"
proof -
  show "nonneg_num (if 0 < y then num_mul (num_div (Fin x) (Fin y)) (Fin 100) else Fin 0)"
    using assms quotient_range [of x y] percent_range [of "num_div (Fin x) (Fin y)"]
    by (simp del: num_div.simps num_mul.simps)
  show "\<exists>q. (if 0 < y then num_mul (num_div (Fin x) (Fin y)) (Fin 100) else Fin 0) = Fin q"
    if "x / y * 100 \<le> 2 ^ 1022"
  proof (cases "0 < y")
    case True
    from percent_finite [OF assms(1) True that] True show ?thesis
      by (auto simp del: num_div.simps num_mul.simps)
  next
    case False
    then show ?thesis by simp
  qed
  show "(if 0 < y then num_mul (num_div (Fin x) (Fin y)) (Fin 100) else Fin 0) = Fin 0" if "y = 0"
    using that by simp
qed

text \<open>
  C2 (amended). On non-negative finite counters the normalizer returns an object with the
  six KPIs (it has no failing branch and reads nothing but its argument). Every KPI is a
  number that is not negative and not \<open>NaN\<close>: a finite one, or the positive infinity when
  a quotient leaves the range of the doubles. A KPI is finite whenever its exact value is
  at most \<open>2^1022\<close>, and it is exactly 0 when its denominator is 0.
\<close>

theorem calculateMetrics_range:
  assumes "get data ''impressions'' = Number (Fin i)" and "0 \<le> i"
    and "get data ''clicks'' = Number (Fin c)" and "0 \<le> c"
    and "get data ''spend'' = Number (Fin s)" and "0 \<le> s"
    and "get data ''conversions'' = Number (Fin v)" and "0 \<le> v"
    and "get data ''revenue'' = Number (Fin r)" and "0 \<le> r"
  shows "dom (calculateMetrics data) = set kpi_names
    \<and> (\<forall>k \<in> set kpi_names. \<exists>n. calculateMetrics data k = Some (Number n) \<and> nonneg_num n)
    \<and> (c / i * 100 \<le> 2 ^ 1022 \<longrightarrow> (\<exists>q. get (calculateMetrics data) ''ctr'' = Number (Fin q)))
    \<and> (s / c \<le> 2 ^ 1022 \<longrightarrow> (\<exists>q. get (calculateMetrics data) ''cpc'' = Number (Fin q)))
    \<and> (s / v \<le> 2 ^ 1022 \<longrightarrow> (\<exists>q. get (calculateMetrics data) ''cpl'' = Number (Fin q)))
    \<and> (s / v \<le> 2 ^ 1022 \<longrightarrow> (\<exists>q. get (calculateMetrics data) ''cpa'' = Number (Fin q)))
    \<and> (r / s \<le> 2 ^ 1022 \<longrightarrow> (\<exists>q. get (calculateMetrics data) ''roas'' = Number (Fin q)))
    \<and> (v / c * 100 \<le> 2 ^ 1022
         \<longrightarrow> (\<exists>q. get (calculateMetrics data) ''conversionRate'' = Number (Fin q)))
    \<and> (i = 0 \<longrightarrow> get (calculateMetrics data) ''ctr'' = Number (Fin 0))
    \<and> (c = 0 \<longrightarrow> get (calculateMetrics data) ''cpc'' = Number (Fin 0))
    \<and> (v = 0 \<longrightarrow> get (calculateMetrics data) ''cpl'' = Number (Fin 0))
    \<and> (v = 0 \<longrightarrow> get (calculateMetrics data) ''cpa'' = Number (Fin 0))
    \<and> (s = 0 \<longrightarrow> get (calculateMetrics data) ''roas'' = Number (Fin 0))
    \<and> (c = 0 \<longrightarrow> get (calculateMetrics data) ''conversionRate'' = Number (Fin 0))"
proof -
  note k = kpi_values [OF assms(1,3,5,7,9)]
  note ctr = percent_kpi [OF assms(4,2)]
  note cpc = quotient_kpi [OF assms(6,4)]
  note cpl = quotient_kpi [OF assms(6,8)]
  note roas = quotient_kpi [OF assms(10,6)]
  note rate = percent_kpi [OF assms(8,4)]
  have range: "\<forall>k \<in> set kpi_names. \<exists>n. calculateMetrics data k = Some (Number n) \<and> nonneg_num n"
    using ctr(1) cpc(1) cpl(1) roas(1) rate(1) by (simp add: kpi_names_def k)
  have f1: "c / i * 100 \<le> 2 ^ 1022 \<longrightarrow> (\<exists>q. get (calculateMetrics data) ''ctr'' = Number (Fin q))"
    using ctr(2) by (auto simp: get_def k)
  have f2: "s / c \<le> 2 ^ 1022 \<longrightarrow> (\<exists>q. get (calculateMetrics data) ''cpc'' = Number (Fin q))"
    using cpc(2) by (auto simp: get_def k)
  have f3: "s / v \<le> 2 ^ 1022 \<longrightarrow> (\<exists>q. get (calculateMetrics data) ''cpl'' = Number (Fin q))"
    using cpl(2) by (auto simp: get_def k)
  have f4: "s / v \<le> 2 ^ 1022 \<longrightarrow> (\<exists>q. get (calculateMetrics data) ''cpa'' = Number (Fin q))"
    using cpl(2) by (auto simp: get_def k)
  have f5: "r / s \<le> 2 ^ 1022 \<longrightarrow> (\<exists>q. get (calculateMetrics data) ''roas'' = Number (Fin q))"
    using roas(2) by (auto simp: get_def k)
  have f6: "v / c * 100 \<le> 2 ^ 1022
         \<longrightarrow> (\<exists>q. get (calculateMetrics data) ''conversionRate'' = Number (Fin q))"
    using rate(2) by (auto simp: get_def k)
  have z1: "i = 0 \<longrightarrow> get (calculateMetrics data) ''ctr'' = Number (Fin 0)"
    by (simp add: get_def k)
  have z2: "c = 0 \<longrightarrow> get (calculateMetrics data) ''cpc'' = Number (Fin 0)"
    by (simp add: get_def k)
  have z3: "v = 0 \<longrightarrow> get (calculateMetrics data) ''cpl'' = Number (Fin 0)"
    by (simp add: get_def k)
  have z4: "v = 0 \<longrightarrow> get (calculateMetrics data) ''cpa'' = Number (Fin 0)"
    by (simp add: get_def k)
  have z5: "s = 0 \<longrightarrow> get (calculateMetrics data) ''roas'' = Number (Fin 0)"
    by (simp add: get_def k)
  have z6: "c = 0 \<longrightarrow> get (calculateMetrics data) ''conversionRate'' = Number (Fin 0)"
    by (simp add: get_def k)
  show ?thesis
    by (intro conjI) (fact calculateMetrics_dom range f1 f2 f3 f4 f5 f6 z1 z2 z3 z4 z5 z6)+
qed


lemma sample_counters_fields:
  "get sample_counters ''impressions'' = Number (Fin 1000)"
  "get sample_counters ''clicks'' = Number (Fin 50)"
  "get sample_counters ''spend'' = Number (Fin 600)"
  "get sample_counters ''conversions'' = Number (Fin 5)"
  "get sample_counters ''revenue'' = Number (Fin 0)"
  "get (sample_counters(''clicks'' \<mapsto> Number (Fin 0))) ''impressions'' = Number (Fin 1000)"
  "get (sample_counters(''clicks'' \<mapsto> Number (Fin 0))) ''clicks'' = Number (Fin 0)"
  "get (sample_counters(''clicks'' \<mapsto> Number (Fin 0))) ''spend'' = Number (Fin 600)"
  "get (sample_counters(''clicks'' \<mapsto> Number (Fin 0))) ''conversions'' = Number (Fin 5)"
  "get (sample_counters(''clicks'' \<mapsto> Number (Fin 0))) ''revenue'' = Number (Fin 0)"
  by (simp_all add: sample_counters_def get_def)

lemma sample_kpis:
  "get (calculateMetrics sample_counters) ''ctr'' = Number (Fin 5)"
  "get (calculateMetrics sample_counters) ''cpc'' = Number (Fin 12)"
  "get (calculateMetrics sample_counters) ''cpl'' = Number (Fin 120)"
  "get (calculateMetrics sample_counters) ''roas'' = Number (Fin 0)"
  "get (calculateMetrics sample_counters) ''conversionRate'' = Number (Fin 10)"
  by (simp_all add: get_def kpi_values [OF sample_counters_fields(1-5)] round64_zero
        round64_normal [of "- 5"] round64_normal [of "- 4"] round64_normal [of 2]
        round64_normal [of 3] round64_normal [of 6] eval_round64)

theorem calculateMetrics_range_witness:
  "(\<exists>n. calculateMetrics sample_counters ''ctr'' = Some (Number n) \<and> nonneg_num n)
   \<and> (\<exists>q. get (calculateMetrics sample_counters) ''ctr'' = Number (Fin q))
   \<and> get (calculateMetrics sample_counters) ''ctr'' = Number (Fin 5)
   \<and> get (calculateMetrics sample_counters) ''cpl'' = Number (Fin 120)
   \<and> get (calculateMetrics (sample_counters(''clicks'' \<mapsto> Number (Fin 0)))) ''cpc''
        = Number (Fin 0)"
proof -
  note t = calculateMetrics_range [OF sample_counters_fields(1) _ sample_counters_fields(2) _
      sample_counters_fields(3) _ sample_counters_fields(4) _ sample_counters_fields(5)]
  have t1: "dom (calculateMetrics sample_counters) = set kpi_names
    \<and> (\<forall>k \<in> set kpi_names. \<exists>n. calculateMetrics sample_counters k = Some (Number n) \<and> nonneg_num n)
    \<and> (50 / 1000 * 100 \<le> (2::rat) ^ 1022
         \<longrightarrow> (\<exists>q. get (calculateMetrics sample_counters) ''ctr'' = Number (Fin q)))"
    using t by simp
  have a: "\<exists>n. calculateMetrics sample_counters ''ctr'' = Some (Number n) \<and> nonneg_num n"
    using t1 [THEN conjunct2, THEN conjunct1] by (simp add: kpi_names_def)
  have small: "50 / 1000 * 100 \<le> (2::rat) ^ 1022" by simp
  have b: "\<exists>q. get (calculateMetrics sample_counters) ''ctr'' = Number (Fin q)"
    using t1 [THEN conjunct2, THEN conjunct2] small by (rule mp)
  note u = calculateMetrics_range [OF sample_counters_fields(6) _ sample_counters_fields(7) _
      sample_counters_fields(8) _ sample_counters_fields(9) _ sample_counters_fields(10)]
  have c: "get (calculateMetrics (sample_counters(''clicks'' \<mapsto> Number (Fin 0)))) ''cpc''
        = Number (Fin 0)"
    using u by simp
  show ?thesis
    by (intro conjI) (fact a b sample_kpis(1) sample_kpis(3) c)+
qed

lemma big_counters_fields:
  "get big_counters ''impressions'' = Number (Fin 1)"
  "get big_counters ''clicks'' = Number (Fin (2 ^ 1023))"
  "get big_counters ''spend'' = Number (Fin 0)"
  "get big_counters ''conversions'' = Number (Fin 0)"
  "get big_counters ''revenue'' = Number (Fin 0)"
  by (simp_all add: big_counters_def get_def)

text \<open>
  C2 (as stated). The counters 1, \<open>2^1023\<close>, 0, 0, 0 are finite and not negative, and
  \<open>2^1023\<close> is a double; the click-through rate that the normalizer returns for them is
  the positive infinity, which is not a finite number: the quotient \<open>2^1023\<close> times 100 is
  outside the range of the doubles.
\<close>

theorem ctr_overflows:
  "get (calculateMetrics big_counters) ''ctr'' = Number PosInf
   \<and> map (get big_counters) counter_names
       = [Number (Fin 1), Number (Fin (2 ^ 1023)), Number (Fin 0), Number (Fin 0), Number (Fin 0)]
   \<and> round64 (2 ^ 1023) = Fin (2 ^ 1023)"
proof -
  have d: "round64 (2 ^ 1023) = Fin (2 ^ 1023)"
    by (simp add: round64_normal [of 1023] eval_round64)
  have q: "num_div (Fin (2 ^ 1023)) (Fin 1) = Fin (2 ^ 1023)"
    using d by simp
  have "(2::rat) ^ 1024 \<le> 2 ^ 1023 * 100" by simp
  then have "round64 (2 ^ 1023 * 100) = PosInf" by (rule round64_overflow)
  then have p: "num_mul (Fin (2 ^ 1023)) (Fin 100) = PosInf" by simp
  have a: "get (calculateMetrics big_counters) ''ctr'' = Number PosInf"
    unfolding get_def kpi_values(1) [OF big_counters_fields] by (simp only: q p) simp
  have b: "map (get big_counters) counter_names
       = [Number (Fin 1), Number (Fin (2 ^ 1023)), Number (Fin 0), Number (Fin 0), Number (Fin 0)]"
    by (simp add: counter_names_def big_counters_fields)
  show ?thesis
    by (intro conjI) (fact a b d)+
qed

text \<open>
  C3. The object that the normalizer returns has the six KPIs and nothing else: on the
  sample counters none of the five counters it received can be read back from it.
\<close>

theorem calculateMetrics_drops_counters:
  "map (get (calculateMetrics sample_counters)) counter_names
     = [Undefined, Undefined, Undefined, Undefined, Undefined]
   \<and> map (get sample_counters) counter_names
     = [Number (Fin 1000), Number (Fin 50), Number (Fin 600), Number (Fin 5), Number (Fin 0)]"
  by (simp add: counter_names_def sample_counters_def get_def calculateMetrics_def Let_def)

section \<open>Evaluating the formatting functions\<close>

lemma digits_numeral:
  "digits (numeral k) = (if (numeral k :: nat) < 10 then [''0123456789'' ! numeral k]
      else digits (numeral k div 10) @ [''0123456789'' ! (numeral k mod 10)])"
  by (rule digits.simps)

lemma digits_small: "digits 0 = ''0''" "digits 1 = ''1''" "digits (Suc 0) = ''1''"
  by (simp_all add: digits.simps [of 0] digits.simps [of 1] digits.simps [of "Suc 0"])

lemmas eval_fixed2 = fixed2_def Let_def floor_numeral_div digits_numeral digits_small

lemma example_rules: "hr < 12 \<Longrightarrow> decision_rules hr example_kpis = Inr example_decisions"
  by (simp add: decision_rules_def rule_cpl_def rule_roas_def rule_ctr_def rule_pacing_def
      and_then_def example_kpis_def example_decisions_def get_def js_gt_def js_lt_def eval_fixed2
      thresholds del: num_mul.simps)

section \<open>What the adapters and the engine leave unchanged\<close>

lemma fetch_tables [simp]: "tables (snd (fetch env req w)) = tables w"
  by (simp add: fetch_def tables_def)

lemma entered_tables [simp]: "tables (entered p n d w) = tables w"
  by (simp add: entered_def tables_def)

lemma getAccessToken_tables [simp]: "tables (snd (getAccessToken env w)) = tables w"
  by (simp add: getAccessToken_def tables_def fetch_def split: response.splits)

lemma meta_getCampaignMetrics_tables [simp]:
  "tables (snd (meta_getCampaignMetrics env n w)) = tables w"
  by (simp add: meta_getCampaignMetrics_def tables_def fetch_def split: response.splits)

lemma google_getCampaignMetrics_tables [simp]:
  "tables (snd (google_getCampaignMetrics env n w)) = tables w"
  by (simp add: google_getCampaignMetrics_def getAccessToken_def tables_def fetch_def split: response.splits)

lemma meta_executeDecision_tables [simp]:
  "tables (snd (meta_executeDecision env n d w)) = tables w"
  by (simp add: meta_executeDecision_def Let_def entered_def tables_def fetch_def split: response.splits)

lemma google_executeDecision_tables [simp]:
  "tables (snd (google_executeDecision env n d w)) = tables w"
  by (simp add: google_executeDecision_def getAccessToken_def Let_def entered_def tables_def fetch_def split: response.splits)

lemma meta_executeDecision_dispatched [simp]:
  "dispatched (snd (meta_executeDecision env n d w)) = dispatched w @ [(''meta'', n, d)]"
  by (simp add: meta_executeDecision_def Let_def entered_def fetch_def split: response.splits)

lemma google_executeDecision_dispatched [simp]:
  "dispatched (snd (google_executeDecision env n d w)) = dispatched w @ [(''google'', n, d)]"
  by (simp add: google_executeDecision_def getAccessToken_def Let_def entered_def fetch_def split: response.splits)

lemma tablesD:
  "tables w' = tables w \<Longrightarrow> campaigns w' = campaigns w \<and> performance_metrics w' = performance_metrics w
     \<and> ai_decisions w' = ai_decisions w \<and> alerts w' = alerts w \<and> console w' = console w"
  by (simp add: tables_def)

lemma logDecision_fields [simp]:
  "campaigns (logDecision env cid t r a w) = campaigns w"
  "performance_metrics (logDecision env cid t r a w) = performance_metrics w"
  "alerts (logDecision env cid t r a w) = alerts w"
  "console (logDecision env cid t r a w) = console w"
  "dispatched (logDecision env cid t r a w) = dispatched w"
  "sent (logDecision env cid t r a w) = sent w"
  "ai_decisions (logDecision env cid t r a w) = ai_decisions w @ [ledger_row env cid t r a]"
  by (simp_all add: logDecision_def)

text \<open>The dispatch of one descriptor, by the platform of the campaign found.\<close>

lemma executeDecision_not_found:
  "find (\<lambda>c. c_id c = cid) (campaigns w) = None
     \<Longrightarrow> executeDecision env cid d w = (Inl (Error ''Campaign not found''), w)"
  by (simp add: executeDecision_def)

lemma executeDecision_meta:
  assumes "find (\<lambda>c. c_id c = cid) (campaigns w) = Some c" and "c_platform c = ''meta''"
  shows "executeDecision env cid d w =
     (case meta_executeDecision env (c_campaign_id c) d w of
        (Inl e, w') \<Rightarrow> (Inl e, w')
      | (Inr r, w') \<Rightarrow> (Inr (Some r), logDecision env cid (d_type d) (d_reason d) (d, Some r) w'))"
  using assms
  by (cases "meta_executeDecision env (c_campaign_id c) d w")
     (auto simp: executeDecision_def split: sum.splits)

lemma executeDecision_google:
  assumes "find (\<lambda>c. c_id c = cid) (campaigns w) = Some c" and "c_platform c = ''google''"
  shows "executeDecision env cid d w =
     (case google_executeDecision env (c_campaign_id c) d w of
        (Inl e, w') \<Rightarrow> (Inl e, w')
      | (Inr r, w') \<Rightarrow> (Inr (Some r), logDecision env cid (d_type d) (d_reason d) (d, Some r) w'))"
  using assms
  by (cases "google_executeDecision env (c_campaign_id c) d w")
     (auto simp: executeDecision_def split: sum.splits)

lemma executeDecision_other:
  assumes "find (\<lambda>c. c_id c = cid) (campaigns w) = Some c"
    and "c_platform c \<noteq> ''meta''" and "c_platform c \<noteq> ''google''"
  shows "executeDecision env cid d w
     = (Inr None, logDecision env cid (d_type d) (d_reason d) (d, None) w)"
  using assms by (simp add: executeDecision_def)

lemma executeDecision_cases:
  obtains (not_found) "find (\<lambda>c. c_id c = cid) (campaigns w) = None"
      "executeDecision env cid d w = (Inl (Error ''Campaign not found''), w)"
  | (thrown) c e w' where "find (\<lambda>c. c_id c = cid) (campaigns w) = Some c"
      "executeDecision env cid d w = (Inl e, w')" "tables w' = tables w"
      "c_platform c = ''meta'' \<and> meta_executeDecision env (c_campaign_id c) d w = (Inl e, w')
       \<or> c_platform c = ''google'' \<and> google_executeDecision env (c_campaign_id c) d w = (Inl e, w')"
  | (logged) c r w' where "find (\<lambda>c. c_id c = cid) (campaigns w) = Some c"
      "executeDecision env cid d w = (Inr r, logDecision env cid (d_type d) (d_reason d) (d, r) w')"
      "tables w' = tables w"
      "c_platform c = ''meta'' \<and> (\<exists>x. r = Some x \<and> meta_executeDecision env (c_campaign_id c) d w = (Inr x, w'))
       \<or> c_platform c = ''google'' \<and> (\<exists>x. r = Some x \<and> google_executeDecision env (c_campaign_id c) d w = (Inr x, w'))
       \<or> c_platform c \<noteq> ''meta'' \<and> c_platform c \<noteq> ''google'' \<and> r = None \<and> w' = w"
proof (cases "find (\<lambda>c. c_id c = cid) (campaigns w)")
  case None
  then show ?thesis using not_found executeDecision_not_found by blast
next
  case (Some c)
  consider (m) "c_platform c = ''meta''" | (g) "c_platform c = ''google''"
    | (o) "c_platform c \<noteq> ''meta''" "c_platform c \<noteq> ''google''" by blast
  then show ?thesis
  proof cases
    case m
    obtain res w' where a: "meta_executeDecision env (c_campaign_id c) d w = (res, w')"
      by (cases "meta_executeDecision env (c_campaign_id c) d w")
    then have t: "tables w' = tables w"
      using meta_executeDecision_tables [of env "c_campaign_id c" d w] by simp
    show ?thesis
    proof (cases res)
      case (Inl e)
      then show ?thesis using thrown [of c e w'] Some m a t
        by (simp add: executeDecision_meta)
    next
      case (Inr x)
      then show ?thesis using logged [of c "Some x" w'] Some m a t
        by (simp add: executeDecision_meta)
    qed
  next
    case g
    obtain res w' where a: "google_executeDecision env (c_campaign_id c) d w = (res, w')"
      by (cases "google_executeDecision env (c_campaign_id c) d w")
    then have t: "tables w' = tables w"
      using google_executeDecision_tables [of env "c_campaign_id c" d w] by simp
    show ?thesis
    proof (cases res)
      case (Inl e)
      then show ?thesis using thrown [of c e w'] Some g a t
        by (simp add: executeDecision_google)
    next
      case (Inr x)
      then show ?thesis using logged [of c "Some x" w'] Some g a t
        by (simp add: executeDecision_google)
    qed
  next
    case o
    then show ?thesis using logged [of c None w] Some
      by (simp add: executeDecision_other)
  qed
qed

section \<open>The dispatch loop\<close>

lemma executeDecision_tables_thrown:
  "fst (executeDecision env cid d w) = Inl e \<Longrightarrow> tables (snd (executeDecision env cid d w)) = tables w"
  by (cases rule: executeDecision_cases [of cid w env d]) auto

lemma executeDecision_campaigns [simp]:
  "campaigns (snd (executeDecision env cid d w)) = campaigns w"
  by (cases rule: executeDecision_cases [of cid w env d]) (auto dest: tablesD)

lemma executeDecision_logged:
  assumes "executeDecision env cid d w = (Inr r, w')"
  shows "ai_decisions w' = ai_decisions w @ [dispatch_row env cid d r]
    \<and> campaigns w' = campaigns w \<and> performance_metrics w' = performance_metrics w
    \<and> alerts w' = alerts w \<and> console w' = console w"
  using assms
  by (cases rule: executeDecision_cases [of cid w env d]) (auto dest: tablesD simp: dispatch_row_def)

lemma executeDecision_dispatched:
  assumes "find (\<lambda>c. c_id c = cid) (campaigns w) = Some c"
    and "c_platform c = ''meta'' \<or> c_platform c = ''google''"
  shows "dispatched (snd (executeDecision env cid d w))
     = dispatched w @ [(c_platform c, c_campaign_id c, d)]"
proof -
  from assms(2) show ?thesis
  proof
    assume m: "c_platform c = ''meta''"
    show ?thesis
      using meta_executeDecision_dispatched [of env "c_campaign_id c" d w]
      by (cases "meta_executeDecision env (c_campaign_id c) d w")
         (auto simp: executeDecision_meta [OF assms(1) m] m split: sum.splits)
  next
    assume g: "c_platform c = ''google''"
    show ?thesis
      using google_executeDecision_dispatched [of env "c_campaign_id c" d w]
      by (cases "google_executeDecision env (c_campaign_id c) d w")
         (auto simp: executeDecision_google [OF assms(1) g] g split: sum.splits)
  qed
qed

lemma execute_each_campaigns [simp]:
  "campaigns (snd (execute_each env cid ds w)) = campaigns w"
proof (induction ds arbitrary: w)
  case Nil
  then show ?case by simp
next
  case (Cons d ds)
  show ?case
  proof (cases "executeDecision env cid d w")
    case (Pair res w')
    then have "campaigns w' = campaigns w"
      using executeDecision_campaigns [of env cid d w] by simp
    with Pair Cons.IH [of w'] show ?thesis by (cases res) auto
  qed
qed

lemma execute_each_append:
  "execute_each env cid (xs @ ys) w =
     (case execute_each env cid xs w of
        (Inl e, w') \<Rightarrow> (Inl e, w')
      | (Inr u, w') \<Rightarrow> execute_each env cid ys w')"
  by (induction xs arbitrary: w) (auto split: prod.splits sum.splits)

lemma execute_each_thrown:
  assumes "execute_each env cid pre w = (Inr u, w1)"
    and "fst (executeDecision env cid d w1) = Inl e"
  shows "execute_each env cid (pre @ d # rest) w = (Inl e, snd (executeDecision env cid d w1))"
  using assms
  by (cases "executeDecision env cid d w1") (simp add: execute_each_append)

section \<open>The adapters and the network\<close>

subsection \<open>Adapters, case by case\<close>

lemma meta_bid:
  "d_type d = ''bid_adjustment'' \<Longrightarrow> \<exists>r. meta_executeDecision env n d w = (Inr r, entered ''meta'' n d w) \<and> r_success r"
  by (simp add: meta_executeDecision_def Let_def exec_ok_def)

lemma meta_unknown:
  "d_type d \<notin> known_types \<Longrightarrow> meta_executeDecision env n d w = (Inr not_implemented, entered ''meta'' n d w)"
  by (simp add: meta_executeDecision_def Let_def known_types_def)

lemma meta_budget:
  assumes "d_type d = ''budget_reallocation''"
  shows "fst (meta_executeDecision env n d w) =
     (if e_network env (sent w) (MetaSetBudget n (math_round (num_mul (to_number (new_budget d)) (Fin 100)))) = Rejected
      then Inl NetworkError else Inr (exec_ok Undefined (new_budget d) Undefined))"
  using assms
  by (simp add: meta_executeDecision_def Let_def fetch_def entered_def split: response.splits)

lemma meta_pause:
  assumes "d_type d = ''pause_campaign''"
  shows "fst (meta_executeDecision env n d w) =
     (if e_network env (sent w) (MetaPause n) = Rejected
      then Inl NetworkError else Inr (exec_ok Undefined Undefined (Str ''PAUSED'')))"
  using assms
  by (simp add: meta_executeDecision_def Let_def fetch_def entered_def split: response.splits)

lemma google_no_token:
  "e_network env (sent w) GoogleToken = Rejected \<Longrightarrow> fst (google_executeDecision env n d w) = Inl NetworkError"
  "e_network env (sent w) GoogleToken = Malformed \<Longrightarrow> fst (google_executeDecision env n d w) = Inl SyntaxError"
  by (simp_all add: google_executeDecision_def getAccessToken_def fetch_def entered_def)

lemma google_token:
  assumes "e_network env (sent w) GoogleToken = Replied body"
  shows "d_type d = ''bid_adjustment'' \<Longrightarrow>
           fst (google_executeDecision env n d w) = Inr (exec_ok (Str ''Bid adjustment applied'') Undefined Undefined)"
    and "d_type d = ''budget_reallocation'' \<Longrightarrow>
           fst (google_executeDecision env n d w) = Inr (exec_ok Undefined (new_budget d) Undefined)"
    and "d_type d = ''pause_campaign'' \<Longrightarrow>
           fst (google_executeDecision env n d w) =
             (if e_network env (sent w @ [GoogleToken]) (GoogleMutatePause n) = Rejected
              then Inl NetworkError else Inr (exec_ok Undefined Undefined (Str ''PAUSED'')))"
    and "d_type d \<notin> known_types \<Longrightarrow> fst (google_executeDecision env n d w) = Inr not_implemented"
  using assms
  by (simp_all add: google_executeDecision_def getAccessToken_def fetch_def entered_def known_types_def
        split: response.splits)

lemma adapter_unknown:
  assumes "d_type d \<notin> known_types"
  shows "meta_executeDecision env n d w = (Inr r, w') \<Longrightarrow> r = not_implemented"
    and "google_executeDecision env n d w = (Inr r, w') \<Longrightarrow> r = not_implemented"
  using assms
  by (auto simp: meta_executeDecision_def google_executeDecision_def getAccessToken_def Let_def
        known_types_def fetch_def split: response.splits)

lemma adapters_net_ok:
  assumes "net_ok env"
  shows "\<exists>r. fst (meta_executeDecision env n d w) = Inr r"
    and "\<exists>r. fst (google_executeDecision env n d w) = Inr r"
proof -
  have ok: "\<exists>body. e_network env h r = Replied body" for h r
    using assms by (simp add: net_ok_def)
  obtain b1 where b1: "e_network env (sent (entered ''meta'' n d w)) (MetaSetBudget n
                     (math_round (num_mul (to_number (new_budget d)) (Fin 100)))) = Replied b1"
    using ok by blast
  obtain b2 where b2: "e_network env (sent (entered ''meta'' n d w)) (MetaPause n) = Replied b2"
    using ok by blast
  show "\<exists>r. fst (meta_executeDecision env n d w) = Inr r"
    by (simp add: meta_executeDecision_def Let_def fetch_def b1 b2)
  obtain b3 where b3: "e_network env (sent (entered ''google'' n d w)) GoogleToken = Replied b3"
    using ok by blast
  obtain b4 where b4: "e_network env (sent (entered ''google'' n d w) @ [GoogleToken]) (GoogleMutatePause n) = Replied b4"
    using ok by blast
  show "\<exists>r. fst (google_executeDecision env n d w) = Inr r"
    by (simp add: google_executeDecision_def getAccessToken_def Let_def fetch_def b3 b4)
qed

lemma executeDecision_net_ok:
  assumes "net_ok env" and "find (\<lambda>c. c_id c = cid) (campaigns w) \<noteq> None"
  shows "\<exists>r. fst (executeDecision env cid d w) = Inr r"
proof (cases rule: executeDecision_cases [of cid w env d])
  case not_found
  then show ?thesis using assms by simp
next
  case (thrown c e w')
  then show ?thesis
    using adapters_net_ok [OF assms(1), of "c_campaign_id c" d w] by auto
next
  case (logged c r w')
  then show ?thesis by simp
qed

lemma execute_each_net_ok:
  assumes "net_ok env" and "find (\<lambda>c. c_id c = cid) (campaigns w) \<noteq> None"
  shows "fst (execute_each env cid ds w) = Inr ()"
  using assms(2)
proof (induction ds arbitrary: w)
  case Nil
  then show ?case by simp
next
  case (Cons d ds)
  obtain r where r: "fst (executeDecision env cid d w) = Inr r"
    using executeDecision_net_ok [OF assms(1) Cons.prems] by blast
  obtain w1 where step: "executeDecision env cid d w = (Inr r, w1)"
    using r by (cases "executeDecision env cid d w") auto
  have "campaigns w1 = campaigns w"
    using executeDecision_campaigns [of env cid d w] step by simp
  with Cons.IH [of w1] Cons.prems step show ?case by simp
qed

lemma makeOptimizationDecision_net_ok:
  assumes "net_ok env" and "find (\<lambda>c. c_id c = cid) (campaigns w) \<noteq> None"
    and "decision_rules (e_hour env) metrics = Inr ds"
  shows "fst (makeOptimizationDecision env cid metrics w) = Inr ds"
  using execute_each_net_ok [OF assms(1,2), of ds] assms(3)
  by (cases "execute_each env cid ds w") (auto simp: makeOptimizationDecision_def)

lemma makeOptimizationDecision_returns:
  assumes "makeOptimizationDecision env cid metrics w = (Inr ds, w')"
  shows "decision_rules (e_hour env) metrics = Inr ds \<and> execute_each env cid ds w = (Inr (), w')"
  using assms
  by (auto simp: makeOptimizationDecision_def split: sum.splits prod.splits)

lemma example_env_facts:
  "net_ok example_env" "e_hour example_env = 9" "e_hour offline_env = 9"
  "find (\<lambda>c. c_id c = ''c1'') (campaigns example_world) = Some meta_campaign"
  "find (\<lambda>c. c_id c = ''c2'') (campaigns example_world) = Some google_campaign"
  "find (\<lambda>c. c_id c = ''c9'') (campaigns example_world) = None"
  by (simp_all add: net_ok_def example_env_def offline_env_def example_world_def meta_campaign_def
        google_campaign_def)

section \<open>The worked example of the decision rules\<close>

text \<open>
  C1 (amended). Before noon the four rules fire on the example KPIs, in the order bid_adjustment,
  budget_reallocation, creative_refresh, pacing_adjustment. The first three reasons hold
  the KPI with two decimals; the reason of pacing_adjustment is a fixed sentence.
  \<^verbatim>\<open>makeOptimizationDecision\<close> returns these four descriptors whenever it returns; it
  returns when the campaign exists and every request to the platform is answered, and it
  throws \<^verbatim>\<open>Campaign not found\<close> when the store has no campaign with the given id.
\<close>

theorem example_decisions_returned:
  assumes "e_hour env < 12"
  shows "decision_rules (e_hour env) example_kpis = Inr example_decisions
    \<and> map d_type example_decisions
        = [''bid_adjustment'', ''budget_reallocation'', ''creative_refresh'', ''pacing_adjustment'']
    \<and> map d_reason example_decisions
        = [''CPL de R$ '' @ fixed2 60 @ '' est'' @ a_acute @ '' acima do target de R$ 50'',
           ''ROAS de '' @ fixed2 (15 / 10) @ ''x est'' @ a_acute @ '' abaixo do target de 2x'',
           ''CTR de '' @ fixed2 (5 / 10) @ ''% est'' @ a_acute @ '' muito baixo'',
           ''Gastando or'' @ c_cedilla @ ''amento muito r'' @ a_acute @ ''pido'']
    \<and> (\<forall>ds. fst (makeOptimizationDecision env cid example_kpis w) = Inr ds
           \<longrightarrow> ds = example_decisions)
    \<and> (net_ok env \<and> find (\<lambda>c. c_id c = cid) (campaigns w) \<noteq> None
           \<longrightarrow> fst (makeOptimizationDecision env cid example_kpis w) = Inr example_decisions)
    \<and> (find (\<lambda>c. c_id c = cid) (campaigns w) = None
           \<longrightarrow> fst (makeOptimizationDecision env cid example_kpis w)
                 = Inl (Error ''Campaign not found''))"
proof -
  have rules: "decision_rules (e_hour env) example_kpis = Inr example_decisions"
    using assms by (rule example_rules)
  have types: "map d_type example_decisions
        = [''bid_adjustment'', ''budget_reallocation'', ''creative_refresh'', ''pacing_adjustment'']"
    by (simp add: example_decisions_def descriptor_def)
  have reasons: "map d_reason example_decisions
        = [''CPL de R$ '' @ fixed2 60 @ '' est'' @ a_acute @ '' acima do target de R$ 50'',
           ''ROAS de '' @ fixed2 (15 / 10) @ ''x est'' @ a_acute @ '' abaixo do target de 2x'',
           ''CTR de '' @ fixed2 (5 / 10) @ ''% est'' @ a_acute @ '' muito baixo'',
           ''Gastando or'' @ c_cedilla @ ''amento muito r'' @ a_acute @ ''pido'']"
    by (simp add: example_decisions_def descriptor_def eval_fixed2)
  have only: "\<forall>ds. fst (makeOptimizationDecision env cid example_kpis w) = Inr ds
           \<longrightarrow> ds = example_decisions"
  proof (intro allI impI)
    fix ds
    assume "fst (makeOptimizationDecision env cid example_kpis w) = Inr ds"
    then obtain w' where "makeOptimizationDecision env cid example_kpis w = (Inr ds, w')"
      by (cases "makeOptimizationDecision env cid example_kpis w") simp
    from makeOptimizationDecision_returns [OF this] rules show "ds = example_decisions"
      by simp
  qed
  have returns: "net_ok env \<and> find (\<lambda>c. c_id c = cid) (campaigns w) \<noteq> None
           \<longrightarrow> fst (makeOptimizationDecision env cid example_kpis w) = Inr example_decisions"
  proof
    assume "net_ok env \<and> find (\<lambda>c. c_id c = cid) (campaigns w) \<noteq> None"
    then show "fst (makeOptimizationDecision env cid example_kpis w) = Inr example_decisions"
      using makeOptimizationDecision_net_ok [of env cid w example_kpis example_decisions] rules
      by simp
  qed
  have missing: "find (\<lambda>c. c_id c = cid) (campaigns w) = None
           \<longrightarrow> fst (makeOptimizationDecision env cid example_kpis w)
                 = Inl (Error ''Campaign not found'')"
  proof
    assume none: "find (\<lambda>c. c_id c = cid) (campaigns w) = None"
    show "fst (makeOptimizationDecision env cid example_kpis w) = Inl (Error ''Campaign not found'')"
      using rules
      by (simp add: makeOptimizationDecision_def example_decisions_def
            executeDecision_not_found [OF none])
  qed
  show ?thesis
    by (intro conjI) (fact rules types reasons only returns missing)+
qed

theorem example_decisions_returned_witness:
  "fst (makeOptimizationDecision example_env ''c1'' example_kpis example_world)
     = Inr example_decisions
   \<and> decision_rules (e_hour example_env) example_kpis = Inr example_decisions
   \<and> e_hour example_env < 12
   \<and> fst (makeOptimizationDecision example_env ''c0'' example_kpis example_world)
       = Inl (Error ''Campaign not found'')"
proof -
  have h: "e_hour example_env < 12"
    by (simp add: example_env_facts)
  have ok: "net_ok example_env \<and> find (\<lambda>c. c_id c = ''c1'') (campaigns example_world) \<noteq> None"
    by (simp add: example_env_facts)
  note t = example_decisions_returned [OF h, of "''c1''" example_world]
  have r1: "decision_rules (e_hour example_env) example_kpis = Inr example_decisions"
    using t by (rule conjunct1)
  have r2: "fst (makeOptimizationDecision example_env ''c1'' example_kpis example_world)
     = Inr example_decisions"
    using t [THEN conjunct2, THEN conjunct2, THEN conjunct2, THEN conjunct2, THEN conjunct1] ok
    by (rule mp)
  have none: "find (\<lambda>c. c_id c = ''c0'') (campaigns example_world) = None"
    by (simp add: example_world_def meta_campaign_def google_campaign_def)
  note u = example_decisions_returned [OF h, of "''c0''" example_world]
  have r3: "fst (makeOptimizationDecision example_env ''c0'' example_kpis example_world)
       = Inl (Error ''Campaign not found'')"
    using u [THEN conjunct2, THEN conjunct2, THEN conjunct2, THEN conjunct2, THEN conjunct2] none
    by (rule mp)
  show ?thesis
    by (intro conjI) (fact r1 r2 h r3)+
qed

text \<open>
  C1 (as stated). On a morning with every request answered the four descriptors of the
  example are returned, and the reason of the fourth, pacing_adjustment, is a sentence
  without a digit: it holds no KPI value. For a campaign id that the store does not have,
  the same call throws instead of returning the descriptors.
\<close>

theorem pacing_reason_is_fixed:
  "fst (makeOptimizationDecision example_env ''c1'' example_kpis example_world)
     = Inr example_decisions
   \<and> d_type (example_decisions ! 3) = ''pacing_adjustment''
   \<and> d_reason (example_decisions ! 3)
       = ''Gastando or'' @ c_cedilla @ ''amento muito r'' @ a_acute @ ''pido''
   \<and> set (d_reason (example_decisions ! 3)) \<inter> set ''0123456789'' = {}
   \<and> fst (makeOptimizationDecision example_env ''c9'' example_kpis example_world)
       = Inl (Error ''Campaign not found'')"
proof -
  have rules: "decision_rules (e_hour example_env) example_kpis = Inr example_decisions"
    by (simp add: example_rules example_env_facts)
  have a: "fst (makeOptimizationDecision example_env ''c1'' example_kpis example_world)
     = Inr example_decisions"
    using makeOptimizationDecision_net_ok [OF example_env_facts(1) _ rules, of "''c1''" example_world]
    by (simp add: example_env_facts)
  have b1: "d_type (example_decisions ! 3) = ''pacing_adjustment''"
    by (simp add: example_decisions_def descriptor_def)
  have b2: "d_reason (example_decisions ! 3)
       = ''Gastando or'' @ c_cedilla @ ''amento muito r'' @ a_acute @ ''pido''"
    by (simp add: example_decisions_def descriptor_def)
  have c: "set (d_reason (example_decisions ! 3)) \<inter> set ''0123456789'' = {}"
    by (simp add: example_decisions_def descriptor_def a_acute_def c_cedilla_def)
  have d: "fst (makeOptimizationDecision example_env ''c9'' example_kpis example_world)
       = Inl (Error ''Campaign not found'')"
    using rules
    by (simp add: makeOptimizationDecision_def example_decisions_def
          executeDecision_not_found [OF example_env_facts(6)])
  show ?thesis
    by (intro conjI) (fact a b1 b2 c d)+
qed

section \<open>The adapters' contract\<close>

lemma offline_budget_step:
  "fst (meta_executeDecision offline_env n (example_decisions ! 1) w) = Inl NetworkError"
  using meta_budget [of "example_decisions ! 1" offline_env n w]
  by (simp add: example_decisions_def descriptor_def offline_env_def)

lemma example_types:
  "d_type (example_decisions ! 0) = ''bid_adjustment''"
  "d_type (example_decisions ! 1) = ''budget_reallocation''"
  "d_type (example_decisions ! 2) = ''creative_refresh''"
  "d_type (example_decisions ! 3) = ''pacing_adjustment''"
  by (simp_all add: example_decisions_def descriptor_def)

text \<open>
  C8 (as stated). With the network down, Meta's adapter throws on a budget_reallocation, a
  known type, and Google's adapter throws on a creative_refresh, a type that it does not
  handle.
\<close>

theorem adapters_throw_offline:
  "fst (meta_executeDecision offline_env ''120001'' (example_decisions ! 1) example_world)
     = Inl NetworkError
   \<and> d_type (example_decisions ! 1) = ''budget_reallocation''
   \<and> fst (google_executeDecision offline_env ''987'' (example_decisions ! 2) example_world)
     = Inl NetworkError
   \<and> d_type (example_decisions ! 2) = ''creative_refresh''"
proof -
  have g: "fst (google_executeDecision offline_env ''987'' (example_decisions ! 2) example_world)
     = Inl NetworkError"
    by (rule google_no_token(1)) (simp add: offline_env_def)
  show ?thesis
    by (intro conjI) (fact offline_budget_step example_types g)+
qed

text \<open>
  C8 (amended). Meta's adapter never throws on a bid_adjustment or on a type that it does
  not handle, and answers the latter with success=false; on a budget_reallocation and on a
  pause_campaign it throws exactly when its request is rejected. Google's adapter asks for
  an access token first and throws, whatever the type, when that fails; with a token it
  returns success=true on a bid_adjustment and on a budget_reallocation, success=false on
  a type that it does not handle, and on a pause_campaign it throws exactly when its
  request is rejected.
\<close>

theorem adapters_executeDecision:
  "(d_type d = ''bid_adjustment'' \<longrightarrow>
      (\<exists>r. fst (meta_executeDecision env n d w) = Inr r \<and> r_success r))
   \<and> (d_type d \<notin> known_types \<longrightarrow>
      fst (meta_executeDecision env n d w) = Inr not_implemented \<and> \<not> r_success not_implemented)
   \<and> (d_type d = ''budget_reallocation'' \<longrightarrow>
      fst (meta_executeDecision env n d w) =
        (if e_network env (sent w)
              (MetaSetBudget n (math_round (num_mul (to_number (new_budget d)) (Fin 100)))) = Rejected
         then Inl NetworkError else Inr (exec_ok Undefined (new_budget d) Undefined)))
   \<and> (d_type d = ''pause_campaign'' \<longrightarrow>
      fst (meta_executeDecision env n d w) =
        (if e_network env (sent w) (MetaPause n) = Rejected
         then Inl NetworkError else Inr (exec_ok Undefined Undefined (Str ''PAUSED''))))
   \<and> (e_network env (sent w) GoogleToken = Rejected \<longrightarrow>
      fst (google_executeDecision env n d w) = Inl NetworkError)
   \<and> (e_network env (sent w) GoogleToken = Malformed \<longrightarrow>
      fst (google_executeDecision env n d w) = Inl SyntaxError)
   \<and> ((\<exists>body. e_network env (sent w) GoogleToken = Replied body) \<longrightarrow>
      (d_type d = ''bid_adjustment'' \<longrightarrow>
         fst (google_executeDecision env n d w)
           = Inr (exec_ok (Str ''Bid adjustment applied'') Undefined Undefined))
      \<and> (d_type d = ''budget_reallocation'' \<longrightarrow>
         fst (google_executeDecision env n d w) = Inr (exec_ok Undefined (new_budget d) Undefined))
      \<and> (d_type d = ''pause_campaign'' \<longrightarrow>
         fst (google_executeDecision env n d w) =
           (if e_network env (sent w @ [GoogleToken]) (GoogleMutatePause n) = Rejected
            then Inl NetworkError else Inr (exec_ok Undefined Undefined (Str ''PAUSED''))))
      \<and> (d_type d \<notin> known_types \<longrightarrow>
         fst (google_executeDecision env n d w) = Inr not_implemented))
   \<and> r_success (exec_ok msg nb st)"
proof -
  have m1: "d_type d = ''bid_adjustment'' \<longrightarrow>
      (\<exists>r. fst (meta_executeDecision env n d w) = Inr r \<and> r_success r)"
    using meta_bid [of d env n w] by auto
  have m2: "d_type d \<notin> known_types \<longrightarrow>
      fst (meta_executeDecision env n d w) = Inr not_implemented \<and> \<not> r_success not_implemented"
    by (simp add: meta_unknown not_implemented_def)
  have g: "(\<exists>body. e_network env (sent w) GoogleToken = Replied body) \<longrightarrow>
      (d_type d = ''bid_adjustment'' \<longrightarrow>
         fst (google_executeDecision env n d w)
           = Inr (exec_ok (Str ''Bid adjustment applied'') Undefined Undefined))
      \<and> (d_type d = ''budget_reallocation'' \<longrightarrow>
         fst (google_executeDecision env n d w) = Inr (exec_ok Undefined (new_budget d) Undefined))
      \<and> (d_type d = ''pause_campaign'' \<longrightarrow>
         fst (google_executeDecision env n d w) =
           (if e_network env (sent w @ [GoogleToken]) (GoogleMutatePause n) = Rejected
            then Inl NetworkError else Inr (exec_ok Undefined Undefined (Str ''PAUSED''))))
      \<and> (d_type d \<notin> known_types \<longrightarrow>
         fst (google_executeDecision env n d w) = Inr not_implemented)"
    using google_token [of env w _ d n] by blast
  have s: "r_success (exec_ok msg nb st)"
    by (simp add: exec_ok_def)
  have m3: "d_type d = ''budget_reallocation'' \<longrightarrow>
      fst (meta_executeDecision env n d w) =
        (if e_network env (sent w)
              (MetaSetBudget n (math_round (num_mul (to_number (new_budget d)) (Fin 100)))) = Rejected
         then Inl NetworkError else Inr (exec_ok Undefined (new_budget d) Undefined))"
    using meta_budget [of d env n w] by (rule impI)
  have m4: "d_type d = ''pause_campaign'' \<longrightarrow>
      fst (meta_executeDecision env n d w) =
        (if e_network env (sent w) (MetaPause n) = Rejected
         then Inl NetworkError else Inr (exec_ok Undefined Undefined (Str ''PAUSED'')))"
    using meta_pause [of d env n w] by (rule impI)
  have g1: "e_network env (sent w) GoogleToken = Rejected \<longrightarrow>
      fst (google_executeDecision env n d w) = Inl NetworkError"
    using google_no_token(1) [of env w n d] by (rule impI)
  have g2: "e_network env (sent w) GoogleToken = Malformed \<longrightarrow>
      fst (google_executeDecision env n d w) = Inl SyntaxError"
    using google_no_token(2) [of env w n d] by (rule impI)
  show ?thesis
    by (intro conjI) (fact m1 m2 m3 m4 g1 g2 g s)+
qed

theorem adapters_executeDecision_witness:
  "(\<exists>r. fst (meta_executeDecision example_env ''120001'' (example_decisions ! 0) example_world) = Inr r
        \<and> r_success r)
   \<and> fst (meta_executeDecision example_env ''120001'' (example_decisions ! 3) example_world)
       = Inr not_implemented
   \<and> fst (google_executeDecision offline_env ''987'' (example_decisions ! 0) example_world)
       = Inl NetworkError
   \<and> fst (google_executeDecision example_env ''987'' (example_decisions ! 2) example_world)
       = Inr not_implemented"
proof -
  have k: "d_type (example_decisions ! 3) \<notin> known_types" "d_type (example_decisions ! 2) \<notin> known_types"
    by (simp_all add: example_types known_types_def)
  have off: "e_network offline_env (sent example_world) GoogleToken = Rejected"
    by (simp add: offline_env_def)
  have on: "\<exists>body. e_network example_env (sent example_world) GoogleToken = Replied body"
    by (simp add: example_env_def)
  note m = adapters_executeDecision [of _ example_env "''120001''" example_world]
  note g = adapters_executeDecision [of "example_decisions ! 2" example_env "''987''" example_world]
  note o = adapters_executeDecision [of "example_decisions ! 0" offline_env "''987''" example_world]
  have a: "\<exists>r. fst (meta_executeDecision example_env ''120001'' (example_decisions ! 0) example_world) = Inr r
        \<and> r_success r"
    using m [of "example_decisions ! 0", THEN conjunct1] example_types(1) by (rule mp)
  have b: "fst (meta_executeDecision example_env ''120001'' (example_decisions ! 3) example_world)
       = Inr not_implemented"
    using m [of "example_decisions ! 3", THEN conjunct2, THEN conjunct1] k(1) by blast
  have c: "fst (google_executeDecision offline_env ''987'' (example_decisions ! 0) example_world)
       = Inl NetworkError"
    using o off by blast
  have d: "fst (google_executeDecision example_env ''987'' (example_decisions ! 2) example_world)
       = Inr not_implemented"
    using g on k(2) by blast
  show ?thesis
    by (intro conjI) (fact a b c d)+
qed

section \<open>Every dispatched descriptor leaves a trace\<close>

lemma executeDecision_unknown:
  assumes "executeDecision env cid d w = (Inr r, w')"
    and "find (\<lambda>c. c_id c = cid) (campaigns w) = Some c"
    and "c_platform c = ''meta'' \<or> c_platform c = ''google''"
    and "d_type d \<notin> known_types"
  shows "r = Some not_implemented"
proof (cases rule: executeDecision_cases [of cid w env d])
  case not_found
  then show ?thesis using assms by simp
next
  case (thrown c' e w'')
  then show ?thesis using assms by simp
next
  case (logged c' r' w'')
  then have "c' = c" "r' = r" using assms by simp_all
  with logged(4) assms(3,4) show ?thesis
    using adapter_unknown [of d env "c_campaign_id c"] by blast
qed

lemma execute_each_done:
  assumes "execute_each env cid ds w = (Inr u, w')"
    and "find (\<lambda>c. c_id c = cid) (campaigns w) = Some c"
    and "c_platform c = ''meta'' \<or> c_platform c = ''google''"
  shows "dispatched w' = dispatched w @ map (\<lambda>d. (c_platform c, c_campaign_id c, d)) ds
    \<and> (\<exists>rs. length rs = length ds
          \<and> ai_decisions w' = ai_decisions w @ map2 (dispatch_row env cid) ds rs
          \<and> (\<forall>i<length ds. d_type (ds ! i) \<notin> known_types \<longrightarrow> rs ! i = Some not_implemented))
    \<and> campaigns w' = campaigns w \<and> performance_metrics w' = performance_metrics w
    \<and> alerts w' = alerts w \<and> console w' = console w"
  using assms
proof (induction ds arbitrary: w)
  case Nil
  then show ?case by simp
next
  case (Cons d ds)
  obtain res w1 where step: "executeDecision env cid d w = (res, w1)"
    by (cases "executeDecision env cid d w")
  with Cons.prems(1) obtain r where res: "res = Inr r" and rest: "execute_each env cid ds w1 = (Inr u, w')"
    by (cases res) auto
  have log: "ai_decisions w1 = ai_decisions w @ [dispatch_row env cid d r]
    \<and> campaigns w1 = campaigns w \<and> performance_metrics w1 = performance_metrics w
    \<and> alerts w1 = alerts w \<and> console w1 = console w"
    using executeDecision_logged step res by blast
  have disp: "dispatched w1 = dispatched w @ [(c_platform c, c_campaign_id c, d)]"
    using executeDecision_dispatched [OF Cons.prems(2,3), of env d] step by simp
  have unk: "d_type d \<notin> known_types \<longrightarrow> r = Some not_implemented"
    using executeDecision_unknown [OF _ Cons.prems(2,3)] step res by blast
  have found: "find (\<lambda>c. c_id c = cid) (campaigns w1) = Some c"
    using log Cons.prems(2) by simp
  from Cons.IH [OF rest found Cons.prems(3)] obtain rs where
    ih: "dispatched w' = dispatched w1 @ map (\<lambda>d. (c_platform c, c_campaign_id c, d)) ds"
      "length rs = length ds"
      "ai_decisions w' = ai_decisions w1 @ map2 (dispatch_row env cid) ds rs"
      "\<forall>i<length ds. d_type (ds ! i) \<notin> known_types \<longrightarrow> rs ! i = Some not_implemented"
      "campaigns w' = campaigns w1" "performance_metrics w' = performance_metrics w1"
      "alerts w' = alerts w1" "console w' = console w1"
    by blast
  have nth: "\<forall>i<length (d # ds). d_type ((d # ds) ! i) \<notin> known_types
       \<longrightarrow> (r # rs) ! i = Some not_implemented"
  proof (intro allI impI)
    fix i
    assume "i < length (d # ds)" and "d_type ((d # ds) ! i) \<notin> known_types"
    then show "(r # rs) ! i = Some not_implemented"
      using unk ih(4) by (cases i) auto
  qed
  have "length (r # rs) = length (d # ds)
     \<and> ai_decisions w' = ai_decisions w @ map2 (dispatch_row env cid) (d # ds) (r # rs)
     \<and> (\<forall>i<length (d # ds). d_type ((d # ds) ! i) \<notin> known_types
           \<longrightarrow> (r # rs) ! i = Some not_implemented)"
    using ih log nth by simp
  then have "\<exists>rs. length rs = length (d # ds)
     \<and> ai_decisions w' = ai_decisions w @ map2 (dispatch_row env cid) (d # ds) rs
     \<and> (\<forall>i<length (d # ds). d_type ((d # ds) ! i) \<notin> known_types
           \<longrightarrow> rs ! i = Some not_implemented)"
    by (rule exI)
  with ih log disp show ?case by simp
qed

section \<open>Errors while dispatching\<close>

lemma meta_campaign_facts:
  "c_platform meta_campaign = ''meta''" "c_campaign_id meta_campaign = ''120001''"
  "c_id meta_campaign = ''c1''"
  by (simp_all add: meta_campaign_def)

text \<open>The example with the network down: the first descriptor is logged, the second one throws.\<close>

lemma offline_run:
  obtains w1 where
    "execute_each offline_env ''c1'' [example_decisions ! 0] example_world = (Inr (), w1)"
    "find (\<lambda>c. c_id c = ''c1'') (campaigns w1) = Some meta_campaign"
    "fst (meta_executeDecision offline_env ''120001'' (example_decisions ! 1) w1) = Inl NetworkError"
    "\<exists>r. ai_decisions w1 = [dispatch_row offline_env ''c1'' (example_decisions ! 0) r]"
    "dispatched w1 = [(''meta'', ''120001'', example_decisions ! 0)]"
proof -
  obtain r0 where m0: "meta_executeDecision offline_env ''120001'' (example_decisions ! 0) example_world
      = (Inr r0, entered ''meta'' ''120001'' (example_decisions ! 0) example_world)"
    using meta_bid [OF example_types(1)] by blast
  define w1 where "w1 = logDecision offline_env ''c1'' (d_type (example_decisions ! 0))
      (d_reason (example_decisions ! 0)) (example_decisions ! 0, Some r0)
      (entered ''meta'' ''120001'' (example_decisions ! 0) example_world)"
  have s1: "executeDecision offline_env ''c1'' (example_decisions ! 0) example_world = (Inr (Some r0), w1)"
    by (simp add: executeDecision_meta [OF example_env_facts(4) meta_campaign_facts(1)]
          meta_campaign_facts m0 w1_def)
  have a: "execute_each offline_env ''c1'' [example_decisions ! 0] example_world = (Inr (), w1)"
    using s1 by simp
  have c: "campaigns w1 = campaigns example_world"
    by (simp add: w1_def entered_def)
  have b: "find (\<lambda>c. c_id c = ''c1'') (campaigns w1) = Some meta_campaign"
    by (simp add: c example_env_facts)
  have d: "\<exists>r. ai_decisions w1 = [dispatch_row offline_env ''c1'' (example_decisions ! 0) r]"
    by (rule exI [of _ "Some r0"]) (simp add: w1_def entered_def dispatch_row_def example_world_def)
  have e: "dispatched w1 = [(''meta'', ''120001'', example_decisions ! 0)]"
    by (simp add: w1_def entered_def example_world_def)
  show ?thesis
    using that [OF a b offline_budget_step d e] .
qed

lemma example_decisions_append:
  "[example_decisions ! 0] @ example_decisions ! 1 # [example_decisions ! 2, example_decisions ! 3]
     = example_decisions"
  by (simp add: example_decisions_def)

lemma makeOptimizationDecision_thrown:
  assumes "decision_rules (e_hour env) metrics = Inr ds"
    and "execute_each env cid ds w = (Inl e, w')"
  shows "makeOptimizationDecision env cid metrics w = (Inl e, w')"
  using assms by (simp add: makeOptimizationDecision_def)

lemma dispatch_row_fields:
  "dr_decision_type (dispatch_row env cid d r) = d_type d"
  "dr_success (dispatch_row env cid d r) = None"
  "dr_action_taken (dispatch_row env cid d r) = (d, r)"
  "dr_campaign_id (dispatch_row env cid d r) = cid"
  by (simp_all add: dispatch_row_def ledger_row_def)

text \<open>
  C4 (as stated). With the network down, the dispatch of the example's second descriptor
  throws out of \<^verbatim>\<open>makeOptimizationDecision\<close>: the ledger holds the row of the first
  descriptor only, whose \<^verbatim>\<open>success\<close> is \<^verbatim>\<open>NULL\<close>, and the last two descriptors never
  reach the adapter.
\<close>

theorem adapter_error_not_logged:
  "fst (makeOptimizationDecision offline_env ''c1'' example_kpis example_world) = Inl NetworkError
   \<and> map dr_decision_type
        (ai_decisions (snd (makeOptimizationDecision offline_env ''c1'' example_kpis example_world)))
       = [''bid_adjustment'']
   \<and> map dr_success
        (ai_decisions (snd (makeOptimizationDecision offline_env ''c1'' example_kpis example_world)))
       = [None]
   \<and> map (d_type \<circ> snd \<circ> snd)
        (dispatched (snd (makeOptimizationDecision offline_env ''c1'' example_kpis example_world)))
       = [''bid_adjustment'', ''budget_reallocation'']"
proof -
  obtain w1 where w1:
    "execute_each offline_env ''c1'' [example_decisions ! 0] example_world = (Inr (), w1)"
    "find (\<lambda>c. c_id c = ''c1'') (campaigns w1) = Some meta_campaign"
    "fst (meta_executeDecision offline_env ''120001'' (example_decisions ! 1) w1) = Inl NetworkError"
    "\<exists>r. ai_decisions w1 = [dispatch_row offline_env ''c1'' (example_decisions ! 0) r]"
    "dispatched w1 = [(''meta'', ''120001'', example_decisions ! 0)]"
    by (rule offline_run)
  define w2 where "w2 = snd (executeDecision offline_env ''c1'' (example_decisions ! 1) w1)"
  have thrown: "fst (executeDecision offline_env ''c1'' (example_decisions ! 1) w1) = Inl NetworkError"
    using w1(3)
    by (cases "meta_executeDecision offline_env ''120001'' (example_decisions ! 1) w1")
       (simp add: executeDecision_meta [OF w1(2) meta_campaign_facts(1)] meta_campaign_facts)
  have loop: "execute_each offline_env ''c1'' example_decisions example_world = (Inl NetworkError, w2)"
    using execute_each_thrown [OF w1(1) thrown, of "[example_decisions ! 2, example_decisions ! 3]"]
    by (simp only: example_decisions_append w2_def)
  have run: "makeOptimizationDecision offline_env ''c1'' example_kpis example_world
      = (Inl NetworkError, w2)"
    by (rule makeOptimizationDecision_thrown [OF _ loop]) (simp add: example_rules example_env_facts)
  have led: "ai_decisions w2 = ai_decisions w1"
    using executeDecision_tables_thrown [OF thrown] by (simp add: w2_def tables_def)
  have dis: "dispatched w2 = dispatched w1 @ [(''meta'', ''120001'', example_decisions ! 1)]"
    using executeDecision_dispatched [OF w1(2), of offline_env "example_decisions ! 1"]
    by (simp add: w2_def meta_campaign_facts)
  have a: "fst (makeOptimizationDecision offline_env ''c1'' example_kpis example_world) = Inl NetworkError"
    by (simp add: run)
  have b: "map dr_decision_type
        (ai_decisions (snd (makeOptimizationDecision offline_env ''c1'' example_kpis example_world)))
       = [''bid_adjustment'']"
    using w1(4) by (auto simp: run led dispatch_row_fields example_types)
  have c: "map dr_success
        (ai_decisions (snd (makeOptimizationDecision offline_env ''c1'' example_kpis example_world)))
       = [None]"
    using w1(4) by (auto simp: run led dispatch_row_fields)
  have d: "map (d_type \<circ> snd \<circ> snd)
        (dispatched (snd (makeOptimizationDecision offline_env ''c1'' example_kpis example_world)))
       = [''bid_adjustment'', ''budget_reallocation'']"
    by (simp add: run dis w1(5) example_types del: One_nat_def)
  show ?thesis
    by (intro conjI) (fact a b c d)+
qed

text \<open>
  C4 (amended). When the adapter throws while a descriptor is dispatched, nothing catches
  the error at the level of the decision: \<^verbatim>\<open>executeDecision\<close> of the engine throws it
  on, no ledger row is written for that descriptor and no table changes, the loop stops
  so that the remaining descriptors are not dispatched, and \<^verbatim>\<open>makeOptimizationDecision\<close>
  throws the same error to its caller. A ledger row that a dispatch does write leaves
  \<^verbatim>\<open>success\<close> unset.
\<close>

theorem dispatch_error_propagates:
  assumes "execute_each env cid pre w = (Inr (), w1)"
    and "find (\<lambda>c. c_id c = cid) (campaigns w1) = Some c"
    and "c_platform c = ''meta''
           \<and> fst (meta_executeDecision env (c_campaign_id c) d w1) = Inl e
         \<or> c_platform c = ''google''
           \<and> fst (google_executeDecision env (c_campaign_id c) d w1) = Inl e"
  shows "fst (executeDecision env cid d w1) = Inl e
    \<and> ai_decisions (snd (executeDecision env cid d w1)) = ai_decisions w1
    \<and> tables (snd (executeDecision env cid d w1)) = tables w1
    \<and> dispatched (snd (executeDecision env cid d w1))
        = dispatched w1 @ [(c_platform c, c_campaign_id c, d)]
    \<and> execute_each env cid (pre @ d # rest) w = (Inl e, snd (executeDecision env cid d w1))
    \<and> (decision_rules (e_hour env) metrics = Inr (pre @ d # rest)
         \<longrightarrow> makeOptimizationDecision env cid metrics w
              = (Inl e, snd (executeDecision env cid d w1)))
    \<and> dr_success (dispatch_row env cid d r) = None"
proof -
  have thrown: "fst (executeDecision env cid d w1) = Inl e"
    using assms(3)
  proof
    assume m: "c_platform c = ''meta''
           \<and> fst (meta_executeDecision env (c_campaign_id c) d w1) = Inl e"
    then show ?thesis
      by (cases "meta_executeDecision env (c_campaign_id c) d w1")
         (simp add: executeDecision_meta [OF assms(2)])
  next
    assume g: "c_platform c = ''google''
           \<and> fst (google_executeDecision env (c_campaign_id c) d w1) = Inl e"
    then show ?thesis
      by (cases "google_executeDecision env (c_campaign_id c) d w1")
         (simp add: executeDecision_google [OF assms(2)])
  qed
  have tabs: "tables (snd (executeDecision env cid d w1)) = tables w1"
    using thrown by (rule executeDecision_tables_thrown)
  have led: "ai_decisions (snd (executeDecision env cid d w1)) = ai_decisions w1"
    using tabs by (simp add: tables_def)
  have dis: "dispatched (snd (executeDecision env cid d w1))
        = dispatched w1 @ [(c_platform c, c_campaign_id c, d)]"
    using assms(3) by (intro executeDecision_dispatched [OF assms(2)]) blast
  have loop: "execute_each env cid (pre @ d # rest) w = (Inl e, snd (executeDecision env cid d w1))"
    using assms(1) thrown by (rule execute_each_thrown)
  have whole: "decision_rules (e_hour env) metrics = Inr (pre @ d # rest)
         \<longrightarrow> makeOptimizationDecision env cid metrics w
              = (Inl e, snd (executeDecision env cid d w1))"
    using loop by (simp add: makeOptimizationDecision_thrown)
  have unset: "dr_success (dispatch_row env cid d r) = None"
    by (rule dispatch_row_fields)
  show ?thesis
    by (intro conjI) (fact thrown led tabs dis loop whole unset)+
qed

theorem dispatch_error_propagates_witness:
  "makeOptimizationDecision offline_env ''c1'' example_kpis example_world
     = (Inl NetworkError,
        snd (makeOptimizationDecision offline_env ''c1'' example_kpis example_world))
   \<and> length (ai_decisions
        (snd (makeOptimizationDecision offline_env ''c1'' example_kpis example_world))) = 1"
proof -
  obtain w1 where w1:
    "execute_each offline_env ''c1'' [example_decisions ! 0] example_world = (Inr (), w1)"
    "find (\<lambda>c. c_id c = ''c1'') (campaigns w1) = Some meta_campaign"
    "fst (meta_executeDecision offline_env ''120001'' (example_decisions ! 1) w1) = Inl NetworkError"
    "\<exists>r. ai_decisions w1 = [dispatch_row offline_env ''c1'' (example_decisions ! 0) r]"
    "dispatched w1 = [(''meta'', ''120001'', example_decisions ! 0)]"
    by (rule offline_run)
  have adapter: "c_platform meta_campaign = ''meta''
           \<and> fst (meta_executeDecision offline_env (c_campaign_id meta_campaign)
                 (example_decisions ! 1) w1) = Inl NetworkError
         \<or> c_platform meta_campaign = ''google''
           \<and> fst (google_executeDecision offline_env (c_campaign_id meta_campaign)
                 (example_decisions ! 1) w1) = Inl NetworkError"
    using w1(3) by (simp add: meta_campaign_facts)
  have rules: "decision_rules (e_hour offline_env) example_kpis
      = Inr ([example_decisions ! 0] @ example_decisions ! 1
               # [example_decisions ! 2, example_decisions ! 3])"
    by (simp only: example_decisions_append) (simp add: example_rules example_env_facts)
  note t = dispatch_error_propagates [OF w1(1) w1(2) adapter,
      of "[example_decisions ! 2, example_decisions ! 3]" example_kpis]
  have run: "makeOptimizationDecision offline_env ''c1'' example_kpis example_world
      = (Inl NetworkError, snd (executeDecision offline_env ''c1'' (example_decisions ! 1) w1))"
    using t rules by blast
  have led: "ai_decisions (snd (executeDecision offline_env ''c1'' (example_decisions ! 1) w1))
      = ai_decisions w1"
    using t by blast
  have a: "makeOptimizationDecision offline_env ''c1'' example_kpis example_world
     = (Inl NetworkError,
        snd (makeOptimizationDecision offline_env ''c1'' example_kpis example_world))"
    by (simp add: run)
  have b: "length (ai_decisions
        (snd (makeOptimizationDecision offline_env ''c1'' example_kpis example_world))) = 1"
    using w1(4) by (auto simp: run led simp del: One_nat_def)
  show ?thesis
    by (intro conjI) (fact a b)+
qed

section \<open>What is dispatched\<close>

lemma ledger_types:
  "length rs = length ds
     \<Longrightarrow> map dr_decision_type (map2 (dispatch_row env cid) ds rs) = map d_type ds"
  by (induction ds rs rule: list_induct2') (simp_all add: dispatch_row_fields)

lemma meta_executeDecision_sent:
  "sent (snd (meta_executeDecision env n d w)) = sent w @ adapter_requests ''meta'' n d"
  by (simp add: meta_executeDecision_def adapter_requests_def Let_def entered_def fetch_def
        split: response.splits)

lemma google_executeDecision_sent:
  "fst (google_executeDecision env n d w) = Inr r
     \<Longrightarrow> sent (snd (google_executeDecision env n d w)) = sent w @ adapter_requests ''google'' n d"
  by (auto simp: google_executeDecision_def getAccessToken_def adapter_requests_def Let_def
        entered_def fetch_def split: response.splits if_splits)

lemma executeDecision_sent:
  assumes "executeDecision env cid d w = (Inr r, w')"
    and "find (\<lambda>c. c_id c = cid) (campaigns w) = Some c"
    and "c_platform c = ''meta'' \<or> c_platform c = ''google''"
  shows "sent w' = sent w @ adapter_requests (c_platform c) (c_campaign_id c) d"
  using assms(3)
proof
  assume m: "c_platform c = ''meta''"
  show ?thesis
    using assms(1) meta_executeDecision_sent [of env "c_campaign_id c" d w]
    by (cases "meta_executeDecision env (c_campaign_id c) d w")
       (auto simp: executeDecision_meta [OF assms(2) m] m split: sum.splits)
next
  assume g: "c_platform c = ''google''"
  show ?thesis
    using assms(1) google_executeDecision_sent [of env "c_campaign_id c" d w]
    by (cases "google_executeDecision env (c_campaign_id c) d w")
       (auto simp: executeDecision_google [OF assms(2) g] g split: sum.splits)
qed

lemma execute_each_sent:
  assumes "execute_each env cid ds w = (Inr u, w')"
    and "find (\<lambda>c. c_id c = cid) (campaigns w) = Some c"
    and "c_platform c = ''meta'' \<or> c_platform c = ''google''"
  shows "sent w' = sent w @ concat (map (adapter_requests (c_platform c) (c_campaign_id c)) ds)"
  using assms
proof (induction ds arbitrary: w)
  case Nil
  then show ?case by simp
next
  case (Cons d ds)
  obtain res w1 where step: "executeDecision env cid d w = (res, w1)"
    by (cases "executeDecision env cid d w")
  with Cons.prems(1) obtain r where res: "res = Inr r" and rest: "execute_each env cid ds w1 = (Inr u, w')"
    by (cases res) auto
  have one: "sent w1 = sent w @ adapter_requests (c_platform c) (c_campaign_id c) d"
    using executeDecision_sent [OF _ Cons.prems(2,3)] step res by blast
  have "campaigns w1 = campaigns w"
    using executeDecision_campaigns [of env cid d w] step by simp
  then have found: "find (\<lambda>c. c_id c = cid) (campaigns w1) = Some c"
    using Cons.prems(2) by simp
  from Cons.IH [OF rest found Cons.prems(3)] one show ?case by simp
qed

lemma unhandled_requests:
  "d_type d \<notin> known_types \<Longrightarrow> adapter_requests ''meta'' n d = []"
  "d_type d \<notin> known_types \<Longrightarrow> adapter_requests ''google'' n d = [GoogleToken]"
  by (simp_all add: adapter_requests_def known_types_def)

lemma example_requests:
  "concat (map (adapter_requests ''meta'' ''120001'') example_decisions)
     = [MetaSetBudget ''120001'' NaN]"
  by (simp add: example_decisions_def descriptor_def adapter_requests_def new_budget_def js_or_def)

lemma unhandled_sent:
  assumes "d_type d \<notin> known_types"
  shows "sent (snd (meta_executeDecision env n d w)) = sent w"
    and "sent (snd (google_executeDecision env n d w)) = sent w @ [GoogleToken]"
  using assms
  by (simp_all add: meta_executeDecision_def google_executeDecision_def getAccessToken_def Let_def
        entered_def fetch_def known_types_def split: response.splits)

text \<open>The example with every request answered.\<close>

lemma online_run:
  obtains w' rs where
    "makeOptimizationDecision example_env ''c1'' example_kpis example_world
       = (Inr example_decisions, w')"
    "dispatched w' = map (\<lambda>d. (''meta'', ''120001'', d)) example_decisions"
    "length rs = 4"
    "ai_decisions w' = map2 (dispatch_row example_env ''c1'') example_decisions rs"
    "rs ! 2 = Some not_implemented" "rs ! 3 = Some not_implemented"
    "sent w' = [MetaSetBudget ''120001'' NaN]"
proof -
  have rules: "decision_rules (e_hour example_env) example_kpis = Inr example_decisions"
    by (simp add: example_rules example_env_facts)
  have "fst (makeOptimizationDecision example_env ''c1'' example_kpis example_world)
      = Inr example_decisions"
    using makeOptimizationDecision_net_ok [OF example_env_facts(1) _ rules, of "''c1''" example_world]
    by (simp add: example_env_facts)
  then obtain w' where run: "makeOptimizationDecision example_env ''c1'' example_kpis example_world
       = (Inr example_decisions, w')"
    by (cases "makeOptimizationDecision example_env ''c1'' example_kpis example_world") simp
  then have loop: "execute_each example_env ''c1'' example_decisions example_world = (Inr (), w')"
    using makeOptimizationDecision_returns by blast
  have plat: "c_platform meta_campaign = ''meta'' \<or> c_platform meta_campaign = ''google''"
    by (simp add: meta_campaign_facts)
  from execute_each_done [OF loop example_env_facts(4) plat] obtain rs where
    d: "dispatched w' = dispatched example_world
          @ map (\<lambda>d. (c_platform meta_campaign, c_campaign_id meta_campaign, d)) example_decisions"
    and l: "length rs = length example_decisions"
    and a: "ai_decisions w' = ai_decisions example_world
          @ map2 (dispatch_row example_env ''c1'') example_decisions rs"
    and u: "\<forall>i<length example_decisions. d_type (example_decisions ! i) \<notin> known_types
          \<longrightarrow> rs ! i = Some not_implemented"
    by blast
  have len: "length example_decisions = 4"
    by (simp add: example_decisions_def)
  have d': "dispatched w' = map (\<lambda>d. (''meta'', ''120001'', d)) example_decisions"
    using d by (simp add: meta_campaign_facts example_world_def)
  have a': "ai_decisions w' = map2 (dispatch_row example_env ''c1'') example_decisions rs"
    using a by (simp add: example_world_def)
  have u2: "rs ! 2 = Some not_implemented"
    using u [rule_format, of 2] by (simp add: len example_types known_types_def)
  have u3: "rs ! 3 = Some not_implemented"
    using u [rule_format, of 3] by (simp add: len example_types known_types_def)
  have s: "sent w' = [MetaSetBudget ''120001'' NaN]"
    using execute_each_sent [OF loop example_env_facts(4) plat]
    by (simp add: meta_campaign_facts example_requests example_world_def)
  show ?thesis
    using that [OF run d' _ a' u2 u3 s] l len by simp
qed

lemma example_type_list:
  "map d_type example_decisions
     = [''bid_adjustment'', ''budget_reallocation'', ''creative_refresh'', ''pacing_adjustment'']"
  by (simp add: example_decisions_def descriptor_def)

text \<open>
  C5 (as stated). In the example the two advisory descriptors reach the adapter's
  \<^verbatim>\<open>executeDecision\<close> like the other two, from inside \<^verbatim>\<open>makeOptimizationDecision\<close>, and
  the ledger holds the adapter's answer to each of them. The call that evaluates the rules
  has written these four rows and has sent a request to the platform.
\<close>

theorem advisory_descriptors_dispatched:
  "map (d_type \<circ> snd \<circ> snd)
      (dispatched (snd (makeOptimizationDecision example_env ''c1'' example_kpis example_world)))
     = [''bid_adjustment'', ''budget_reallocation'', ''creative_refresh'', ''pacing_adjustment'']
   \<and> map dr_decision_type
      (ai_decisions (snd (makeOptimizationDecision example_env ''c1'' example_kpis example_world)))
     = [''bid_adjustment'', ''budget_reallocation'', ''creative_refresh'', ''pacing_adjustment'']
   \<and> snd (dr_action_taken
      (ai_decisions (snd (makeOptimizationDecision example_env ''c1'' example_kpis example_world)) ! 2))
     = Some not_implemented
   \<and> snd (dr_action_taken
      (ai_decisions (snd (makeOptimizationDecision example_env ''c1'' example_kpis example_world)) ! 3))
     = Some not_implemented
   \<and> sent (snd (makeOptimizationDecision example_env ''c1'' example_kpis example_world))
     = [MetaSetBudget ''120001'' NaN]
   \<and> sent example_world = []"
proof -
  obtain w' rs where r:
    "makeOptimizationDecision example_env ''c1'' example_kpis example_world
       = (Inr example_decisions, w')"
    "dispatched w' = map (\<lambda>d. (''meta'', ''120001'', d)) example_decisions"
    "length rs = 4"
    "ai_decisions w' = map2 (dispatch_row example_env ''c1'') example_decisions rs"
    "rs ! 2 = Some not_implemented" "rs ! 3 = Some not_implemented"
    "sent w' = [MetaSetBudget ''120001'' NaN]"
    by (rule online_run)
  have len: "length example_decisions = 4"
    by (simp add: example_decisions_def)
  have a: "map (d_type \<circ> snd \<circ> snd)
      (dispatched (snd (makeOptimizationDecision example_env ''c1'' example_kpis example_world)))
     = [''bid_adjustment'', ''budget_reallocation'', ''creative_refresh'', ''pacing_adjustment'']"
    by (simp add: r(1,2) comp_def example_type_list)
  have b: "map dr_decision_type
      (ai_decisions (snd (makeOptimizationDecision example_env ''c1'' example_kpis example_world)))
     = [''bid_adjustment'', ''budget_reallocation'', ''creative_refresh'', ''pacing_adjustment'']"
    using ledger_types [of rs example_decisions example_env "''c1''"]
    by (simp add: r(1,3,4) len example_type_list)
  have c: "snd (dr_action_taken
      (ai_decisions (snd (makeOptimizationDecision example_env ''c1'' example_kpis example_world)) ! 2))
     = Some not_implemented"
    by (simp add: r len dispatch_row_fields)
  have d: "snd (dr_action_taken
      (ai_decisions (snd (makeOptimizationDecision example_env ''c1'' example_kpis example_world)) ! 3))
     = Some not_implemented"
    by (simp add: r len dispatch_row_fields)
  have e: "sent (snd (makeOptimizationDecision example_env ''c1'' example_kpis example_world))
     = [MetaSetBudget ''120001'' NaN]"
    by (simp add: r(1,7))
  have f: "sent example_world = []"
    by (simp add: example_world_def)
  show ?thesis
    by (intro conjI) (fact a b c d e f)+
qed

text \<open>
  C5 (amended). \<^verbatim>\<open>makeOptimizationDecision\<close> itself dispatches every descriptor that its
  rules produce, whatever the type: when it returns, the adapter of the campaign's platform
  has been called once per descriptor, in order, and the ledger has one new row per
  descriptor. A descriptor of a type that the adapters do not handle (the advisory types
  are such types) is answered with success=false, and that answer is in its ledger row.
  The requests sent during the call are those of the adapter for each descriptor in turn;
  for a descriptor of a type that it does not handle, Meta's adapter sends no request and
  Google's adapter sends its request for an access token and nothing else.
\<close>

theorem every_descriptor_dispatched:
  assumes "makeOptimizationDecision env cid metrics w = (Inr ds, w')"
    and "find (\<lambda>c. c_id c = cid) (campaigns w) = Some c"
    and "c_platform c = ''meta'' \<or> c_platform c = ''google''"
  shows "decision_rules (e_hour env) metrics = Inr ds
    \<and> dispatched w' = dispatched w @ map (\<lambda>d. (c_platform c, c_campaign_id c, d)) ds
    \<and> map dr_decision_type (ai_decisions w')
        = map dr_decision_type (ai_decisions w) @ map d_type ds
    \<and> (\<exists>rs. length rs = length ds
          \<and> ai_decisions w' = ai_decisions w @ map2 (dispatch_row env cid) ds rs
          \<and> (\<forall>i<length ds. d_type (ds ! i) \<notin> known_types \<longrightarrow> rs ! i = Some not_implemented))
    \<and> advisory_types \<inter> known_types = {}
    \<and> \<not> r_success not_implemented
    \<and> sent w' = sent w @ concat (map (adapter_requests (c_platform c) (c_campaign_id c)) ds)
    \<and> (d_type d \<notin> known_types
         \<longrightarrow> adapter_requests ''meta'' n d = [] \<and> adapter_requests ''google'' n d = [GoogleToken])
    \<and> (d_type d \<notin> known_types
         \<longrightarrow> sent (snd (meta_executeDecision env n d v)) = sent v
             \<and> sent (snd (google_executeDecision env n d v)) = sent v @ [GoogleToken])"
proof -
  have rules: "decision_rules (e_hour env) metrics = Inr ds"
    and loop: "execute_each env cid ds w = (Inr (), w')"
    using makeOptimizationDecision_returns [OF assms(1)] by simp_all
  note each = execute_each_done [OF loop assms(2,3)]
  have dis: "dispatched w' = dispatched w @ map (\<lambda>d. (c_platform c, c_campaign_id c, d)) ds"
    using each by (rule conjunct1)
  have rows: "\<exists>rs. length rs = length ds
          \<and> ai_decisions w' = ai_decisions w @ map2 (dispatch_row env cid) ds rs
          \<and> (\<forall>i<length ds. d_type (ds ! i) \<notin> known_types \<longrightarrow> rs ! i = Some not_implemented)"
    using each [THEN conjunct2] by (rule conjunct1)
  have types: "map dr_decision_type (ai_decisions w')
        = map dr_decision_type (ai_decisions w) @ map d_type ds"
    using rows ledger_types by fastforce
  have adv: "advisory_types \<inter> known_types = {}"
    by (simp add: advisory_types_def known_types_def)
  have ns: "\<not> r_success not_implemented"
    by (simp add: not_implemented_def)
  have reqs: "sent w' = sent w @ concat (map (adapter_requests (c_platform c) (c_campaign_id c)) ds)"
    using loop assms(2,3) by (rule execute_each_sent)
  have none: "d_type d \<notin> known_types
         \<longrightarrow> adapter_requests ''meta'' n d = [] \<and> adapter_requests ''google'' n d = [GoogleToken]"
    by (simp add: unhandled_requests)
  have calls: "d_type d \<notin> known_types
         \<longrightarrow> sent (snd (meta_executeDecision env n d v)) = sent v
             \<and> sent (snd (google_executeDecision env n d v)) = sent v @ [GoogleToken]"
    by (simp add: unhandled_sent)
  show ?thesis
    by (intro conjI) (fact rules dis types rows adv ns reqs none calls)+
qed

theorem every_descriptor_dispatched_witness:
  "dispatched (snd (makeOptimizationDecision example_env ''c1'' example_kpis example_world))
     = map (\<lambda>d. (''meta'', ''120001'', d)) example_decisions
   \<and> length (ai_decisions
       (snd (makeOptimizationDecision example_env ''c1'' example_kpis example_world))) = 4
   \<and> sent (snd (makeOptimizationDecision example_env ''c1'' example_kpis example_world))
       = [MetaSetBudget ''120001'' NaN]
   \<and> sent (snd (meta_executeDecision example_env ''120001'' (example_decisions ! 3) example_world))
       = []
   \<and> sent (snd (google_executeDecision example_env ''987'' (example_decisions ! 3) example_world))
       = [GoogleToken]"
proof -
  obtain w' rs where r:
    "makeOptimizationDecision example_env ''c1'' example_kpis example_world
       = (Inr example_decisions, w')"
    "dispatched w' = map (\<lambda>d. (''meta'', ''120001'', d)) example_decisions"
    "length rs = 4"
    "ai_decisions w' = map2 (dispatch_row example_env ''c1'') example_decisions rs"
    "rs ! 2 = Some not_implemented" "rs ! 3 = Some not_implemented"
    "sent w' = [MetaSetBudget ''120001'' NaN]"
    by (rule online_run)
  have plat: "c_platform meta_campaign = ''meta'' \<or> c_platform meta_campaign = ''google''"
    by (simp add: meta_campaign_facts)
  note t = every_descriptor_dispatched [OF r(1) example_env_facts(4) plat]
  have d: "dispatched w' = dispatched example_world
      @ map (\<lambda>d. (c_platform meta_campaign, c_campaign_id meta_campaign, d)) example_decisions"
    using t [THEN conjunct2] by (rule conjunct1)
  have l: "map dr_decision_type (ai_decisions w')
      = map dr_decision_type (ai_decisions example_world) @ map d_type example_decisions"
    using t [THEN conjunct2, THEN conjunct2] by (rule conjunct1)
  have a: "dispatched (snd (makeOptimizationDecision example_env ''c1'' example_kpis example_world))
     = map (\<lambda>d. (''meta'', ''120001'', d)) example_decisions"
  proof -
    have "dispatched w' = map (\<lambda>d. (''meta'', ''120001'', d)) example_decisions"
      using d by (simp add: meta_campaign_facts example_world_def)
    then show ?thesis by (simp add: r(1))
  qed
  have "length (map dr_decision_type (ai_decisions w')) = 4"
    by (simp only: l) (simp add: example_world_def example_type_list)
  then have b: "length (ai_decisions
       (snd (makeOptimizationDecision example_env ''c1'' example_kpis example_world))) = 4"
    by (simp add: r(1))
  note rest = t [THEN conjunct2, THEN conjunct2, THEN conjunct2, THEN conjunct2, THEN conjunct2,
      THEN conjunct2]
  have "sent w' = sent example_world
      @ concat (map (adapter_requests (c_platform meta_campaign) (c_campaign_id meta_campaign))
          example_decisions)"
    using rest by (rule conjunct1)
  then have "sent w' = [MetaSetBudget ''120001'' NaN]"
    by (simp add: meta_campaign_facts example_requests example_world_def)
  then have c: "sent (snd (makeOptimizationDecision example_env ''c1'' example_kpis example_world))
       = [MetaSetBudget ''120001'' NaN]"
    by (simp add: r(1))
  have k: "d_type (example_decisions ! 3) \<notin> known_types"
    by (simp add: example_types known_types_def)
  have both: "sent (snd (meta_executeDecision example_env ''120001'' (example_decisions ! 3)
        example_world)) = sent example_world
      \<and> sent (snd (google_executeDecision example_env ''987'' (example_decisions ! 3)
        example_world)) = sent example_world @ [GoogleToken]"
  proof -
    note m = every_descriptor_dispatched [OF r(1) example_env_facts(4) plat,
        of "example_decisions ! 3" "''120001''" example_world,
        THEN conjunct2, THEN conjunct2, THEN conjunct2, THEN conjunct2, THEN conjunct2,
        THEN conjunct2, THEN conjunct2, THEN conjunct2, THEN mp, OF k]
    note g = every_descriptor_dispatched [OF r(1) example_env_facts(4) plat,
        of "example_decisions ! 3" "''987''" example_world,
        THEN conjunct2, THEN conjunct2, THEN conjunct2, THEN conjunct2, THEN conjunct2,
        THEN conjunct2, THEN conjunct2, THEN conjunct2, THEN mp, OF k]
    from m g show ?thesis by simp
  qed
  have d: "sent (snd (meta_executeDecision example_env ''120001'' (example_decisions ! 3)
        example_world)) = []"
    using both by (simp add: example_world_def)
  have e: "sent (snd (google_executeDecision example_env ''987'' (example_decisions ! 3)
        example_world)) = [GoogleToken]"
    using both by (simp add: example_world_def)
  show ?thesis
    by (intro conjI) (fact a b c d e)+
qed

section \<open>The alert thresholds\<close>

lemma toFixed2_guarded:
  "js_gt v n \<Longrightarrow> number_or_absent v \<Longrightarrow> \<exists>s. toFixed2 v = Inr s"
  "js_lt v n \<Longrightarrow> number_or_absent v \<Longrightarrow> \<exists>s. toFixed2 v = Inr s"
  by (cases v; cases "to_number v"; cases n; simp add: js_gt_def js_lt_def)+

lemma alert_cpl_kind:
  assumes "number_or_absent (get metrics ''cpl'')"
  shows "map_sum id (map alert_kind) (alert_cpl metrics)
     = Inr (if js_gt (get metrics ''cpl'') (Fin 50) then [(''high_cpl'', ''warning'')] else [])"
proof (cases "js_gt (get metrics ''cpl'') (Fin 50)")
  case True
  then obtain s where "toFixed2 (get metrics ''cpl'') = Inr s"
    using toFixed2_guarded(1) assms by blast
  with True show ?thesis by (simp add: alert_cpl_def alert_kind_def)
next
  case False
  then show ?thesis by (simp add: alert_cpl_def)
qed

lemma alert_roas_kind:
  assumes "number_or_absent (get metrics ''roas'')"
  shows "map_sum id (map alert_kind) (alert_roas metrics)
     = Inr (if js_lt (get metrics ''roas'') (Fin 2) \<and> js_gt (get metrics ''conversions'') (Fin 10)
            then [(''low_roas'', ''critical'')] else [])"
proof (cases "js_lt (get metrics ''roas'') (Fin 2) \<and> js_gt (get metrics ''conversions'') (Fin 10)")
  case True
  then obtain s where "toFixed2 (get metrics ''roas'') = Inr s"
    using toFixed2_guarded(2) assms by blast
  with True show ?thesis by (simp add: alert_roas_def alert_kind_def)
next
  case False
  then show ?thesis by (auto simp: alert_roas_def)
qed

lemma alert_budget_kind:
  assumes "number_or_absent (get metrics ''spend'')"
  shows "map_sum id (map alert_kind) (alert_budget c metrics)
     = Inr (if js_gt (get metrics ''spend'') (num_mul (to_number (c_daily_budget c)) (round64 (9 / 10)))
            then [(''budget_exceeded'', ''info'')] else [])"
proof (cases "js_gt (get metrics ''spend'') (num_mul (to_number (c_daily_budget c)) (round64 (9 / 10)))")
  case True
  then obtain s where "toFixed2 (get metrics ''spend'') = Inr s"
    using toFixed2_guarded(1) assms by blast
  with True show ?thesis by (simp add: alert_budget_def alert_kind_def)
next
  case False
  then show ?thesis by (simp add: alert_budget_def)
qed

lemma and_then_kinds:
  "map_sum id (map f) a = Inr xs \<Longrightarrow> map_sum id (map f) b = Inr ys
     \<Longrightarrow> map_sum id (map f) (and_then a b) = Inr (xs @ ys)"
  by (cases a; cases b; simp add: and_then_def)

lemma alert_rules_kinds:
  assumes "number_or_absent (get metrics ''cpl'')" and "number_or_absent (get metrics ''roas'')"
    and "number_or_absent (get metrics ''spend'')"
  shows "map_sum id (map alert_kind) (alert_rules c metrics)
     = Inr ((if js_gt (get metrics ''cpl'') (Fin 50) then [(''high_cpl'', ''warning'')] else [])
          @ (if js_lt (get metrics ''roas'') (Fin 2) \<and> js_gt (get metrics ''conversions'') (Fin 10)
             then [(''low_roas'', ''critical'')] else [])
          @ (if js_gt (get metrics ''spend'') (num_mul (to_number (c_daily_budget c)) (round64 (9 / 10)))
             then [(''budget_exceeded'', ''info'')] else []))"
  unfolding alert_rules_def
  by (intro and_then_kinds alert_cpl_kind alert_roas_kind alert_budget_kind assms)

text \<open>The conditions of the decision rules.\<close>

lemma rule_cpl_types:
  assumes "number_or_absent (get metrics ''cpl'')"
  shows "map_sum id (map d_type) (rule_cpl metrics)
     = Inr (if js_gt (get metrics ''cpl'') (Fin 50) then [''bid_adjustment''] else [])"
proof (cases "js_gt (get metrics ''cpl'') (Fin 50)")
  case True
  then obtain s where "toFixed2 (get metrics ''cpl'') = Inr s"
    using toFixed2_guarded(1) assms by blast
  with True show ?thesis by (simp add: rule_cpl_def descriptor_def)
next
  case False
  then show ?thesis by (simp add: rule_cpl_def)
qed

lemma rule_roas_types:
  assumes "number_or_absent (get metrics ''roas'')"
  shows "map_sum id (map d_type) (rule_roas metrics)
     = Inr (if js_lt (get metrics ''roas'') (Fin 2) \<and> js_gt (get metrics ''conversions'') (Fin 10)
            then [''budget_reallocation''] else [])"
proof (cases "js_lt (get metrics ''roas'') (Fin 2) \<and> js_gt (get metrics ''conversions'') (Fin 10)")
  case True
  then obtain s where "toFixed2 (get metrics ''roas'') = Inr s"
    using toFixed2_guarded(2) assms by blast
  with True show ?thesis by (simp add: rule_roas_def descriptor_def)
next
  case False
  then show ?thesis by (auto simp: rule_roas_def)
qed

lemma rule_pacing_types:
  "map_sum id (map d_type) (rule_pacing hour metrics)
     = Inr (if js_gt (get metrics ''spend'')
                 (num_mul (to_number (get metrics ''dailyBudget'')) (round64 (8 / 10)))
               \<and> hour < 12
            then [''pacing_adjustment''] else [])"
  by (simp add: rule_pacing_def descriptor_def)

lemma example_kpis_fields:
  "get example_kpis ''cpl'' = Number (Fin 60)" "get example_kpis ''roas'' = Number (Fin (15 / 10))"
  "get example_kpis ''conversions'' = Number (Fin 15)" "get example_kpis ''spend'' = Number (Fin 85)"
  "c_daily_budget meta_campaign = Number (Fin 100)"
  by (simp_all add: example_kpis_def get_def meta_campaign_def)

lemma example_alert_kinds:
  "map_sum id (map alert_kind) (alert_rules meta_campaign example_kpis)
     = Inr [(''high_cpl'', ''warning''), (''low_roas'', ''critical'')]"
  using alert_rules_kinds [of example_kpis meta_campaign]
  by (simp add: example_kpis_fields js_gt_def js_lt_def thresholds del: num_mul.simps)

text \<open>The example with an empty string as its ROAS.\<close>

lemma blank_roas_fields:
  "get (example_kpis(''roas'' \<mapsto> Str [])) ''cpl'' = Number (Fin 60)"
  "get (example_kpis(''roas'' \<mapsto> Str [])) ''roas'' = Str []"
  "get (example_kpis(''roas'' \<mapsto> Str [])) ''conversions'' = Number (Fin 15)"
  by (simp_all add: example_kpis_def get_def)

lemma blank_is_zero: "string_to_number [] = Fin 0" "to_number (Str []) = Fin 0"
  by (simp_all add: string_to_number_def trim_def trim_start_def)

lemma blank_roas_throws:
  "alert_rules meta_campaign (example_kpis(''roas'' \<mapsto> Str [])) = Inl TypeError"
proof -
  obtain xs where "alert_cpl (example_kpis(''roas'' \<mapsto> Str [])) = Inr xs"
    by (simp add: alert_cpl_def blank_roas_fields js_gt_def)
  moreover have "alert_roas (example_kpis(''roas'' \<mapsto> Str [])) = Inl TypeError"
    by (simp add: alert_roas_def blank_roas_fields js_gt_def js_lt_def blank_is_zero)
  ultimately show ?thesis
    by (simp add: alert_rules_def and_then_def)
qed

text \<open>
  C9 (as stated). In the example the spend of 85 is above the daily budget of 100 times
  0.8, and the alert rules raise the high-CPL and the low-ROAS alert but no budget alert.
  With an empty string as ROAS, which is below 2 as a number, the evaluation throws a
  TypeError: although the CPL of 60 is above 50, no alert is raised and no row is written.
\<close>

theorem budget_alert_not_at_eighty_percent:
  "js_gt (get example_kpis ''spend'')
      (num_mul (to_number (c_daily_budget meta_campaign)) (round64 (8 / 10)))
   \<and> map_sum id (map alert_kind) (alert_rules meta_campaign example_kpis)
       = Inr [(''high_cpl'', ''warning''), (''low_roas'', ''critical'')]
   \<and> js_gt (get (example_kpis(''roas'' \<mapsto> Str [])) ''cpl'') (Fin 50)
   \<and> js_lt (get (example_kpis(''roas'' \<mapsto> Str [])) ''roas'') (Fin 2)
   \<and> alert_rules meta_campaign (example_kpis(''roas'' \<mapsto> Str [])) = Inl TypeError
   \<and> checkAndCreateAlerts example_env meta_campaign (example_kpis(''roas'' \<mapsto> Str []))
        example_world = (Inl TypeError, example_world)"
proof -
  have a: "js_gt (get example_kpis ''spend'')
      (num_mul (to_number (c_daily_budget meta_campaign)) (round64 (8 / 10)))"
    by (simp add: example_kpis_fields js_gt_def thresholds del: num_mul.simps)
  have b: "js_gt (get (example_kpis(''roas'' \<mapsto> Str [])) ''cpl'') (Fin 50)"
    by (simp add: blank_roas_fields js_gt_def)
  have c: "js_lt (get (example_kpis(''roas'' \<mapsto> Str [])) ''roas'') (Fin 2)"
    by (simp add: blank_roas_fields js_lt_def blank_is_zero)
  have d: "checkAndCreateAlerts example_env meta_campaign (example_kpis(''roas'' \<mapsto> Str []))
        example_world = (Inl TypeError, example_world)"
    by (simp add: checkAndCreateAlerts_def blank_roas_throws)
  show ?thesis
    by (intro conjI) (fact a example_alert_kinds b c blank_roas_throws d)+
qed

text \<open>
  C9 (amended). On metrics whose \<open>cpl\<close>, \<open>roas\<close> and \<open>spend\<close> are numbers or absent, the
  alert rules raise, in this order, a high_cpl alert of severity warning exactly when
  \<open>cpl > 50\<close>, a low_roas alert of severity critical exactly when \<open>roas < 2\<close> and
  \<open>conversions > 10\<close>, and a budget_exceeded alert of severity info exactly when the spend
  is above the campaign's daily budget times 0.9, a product of doubles;
  \<^verbatim>\<open>checkAndCreateAlerts\<close> appends one row per alert raised. The first two conditions are
  the ones on which the decision rules produce a bid_adjustment and a budget_reallocation;
  the pacing rule has a condition of its own, on the \<open>dailyBudget\<close> of the metrics times
  0.8 and on the hour.
\<close>

theorem alert_rules_thresholds:
  assumes "number_or_absent (get metrics ''cpl'')" and "number_or_absent (get metrics ''roas'')"
    and "number_or_absent (get metrics ''spend'')"
  shows "map_sum id (map alert_kind) (alert_rules c metrics)
     = Inr ((if js_gt (get metrics ''cpl'') (Fin 50) then [(''high_cpl'', ''warning'')] else [])
          @ (if js_lt (get metrics ''roas'') (Fin 2) \<and> js_gt (get metrics ''conversions'') (Fin 10)
             then [(''low_roas'', ''critical'')] else [])
          @ (if js_gt (get metrics ''spend'') (num_mul (to_number (c_daily_budget c)) (round64 (9 / 10)))
             then [(''budget_exceeded'', ''info'')] else []))
    \<and> (\<exists>found. alert_rules c metrics = Inr found
          \<and> checkAndCreateAlerts env c metrics w
              = (Inr (), w\<lparr>alerts := alerts w @ map (insert_alert env c) found\<rparr>))
    \<and> map_sum id (map d_type) (rule_cpl metrics)
        = Inr (if js_gt (get metrics ''cpl'') (Fin 50) then [''bid_adjustment''] else [])
    \<and> map_sum id (map d_type) (rule_roas metrics)
        = Inr (if js_lt (get metrics ''roas'') (Fin 2) \<and> js_gt (get metrics ''conversions'') (Fin 10)
               then [''budget_reallocation''] else [])
    \<and> map_sum id (map d_type) (rule_pacing hour metrics)
        = Inr (if js_gt (get metrics ''spend'')
                    (num_mul (to_number (get metrics ''dailyBudget'')) (round64 (8 / 10)))
                  \<and> hour < 12
               then [''pacing_adjustment''] else [])"
proof -
  note kinds = alert_rules_kinds [OF assms, of c]
  then obtain found where found: "alert_rules c metrics = Inr found"
    by (cases "alert_rules c metrics") simp_all
  then have "checkAndCreateAlerts env c metrics w
              = (Inr (), w\<lparr>alerts := alerts w @ map (insert_alert env c) found\<rparr>)"
    by (simp add: checkAndCreateAlerts_def)
  with found have rows: "\<exists>found. alert_rules c metrics = Inr found
          \<and> checkAndCreateAlerts env c metrics w
              = (Inr (), w\<lparr>alerts := alerts w @ map (insert_alert env c) found\<rparr>)"
    by blast
  note bid = rule_cpl_types [OF assms(1)]
  note budget = rule_roas_types [OF assms(2)]
  show ?thesis
    by (intro conjI) (fact kinds rows bid budget rule_pacing_types)+
qed

theorem alert_rules_thresholds_witness:
  "map_sum id (map alert_kind) (alert_rules meta_campaign example_kpis)
     = Inr [(''high_cpl'', ''warning''), (''low_roas'', ''critical'')]
   \<and> map_sum id (map alert_kind)
       (alert_rules meta_campaign (example_kpis(''spend'' \<mapsto> Number (Fin 95))))
     = Inr [(''high_cpl'', ''warning''), (''low_roas'', ''critical''), (''budget_exceeded'', ''info'')]
   \<and> map_sum id (map d_type) (rule_cpl example_kpis) = Inr [''bid_adjustment'']"
proof -
  have n1: "number_or_absent (get example_kpis ''cpl'')"
    "number_or_absent (get example_kpis ''roas'')" "number_or_absent (get example_kpis ''spend'')"
    by (simp_all add: example_kpis_fields)
  have f2: "get (example_kpis(''spend'' \<mapsto> Number (Fin 95))) ''cpl'' = Number (Fin 60)"
    "get (example_kpis(''spend'' \<mapsto> Number (Fin 95))) ''roas'' = Number (Fin (15 / 10))"
    "get (example_kpis(''spend'' \<mapsto> Number (Fin 95))) ''conversions'' = Number (Fin 15)"
    "get (example_kpis(''spend'' \<mapsto> Number (Fin 95))) ''spend'' = Number (Fin 95)"
    by (simp_all add: example_kpis_def get_def)
  have n2: "number_or_absent (get (example_kpis(''spend'' \<mapsto> Number (Fin 95))) ''cpl'')"
    "number_or_absent (get (example_kpis(''spend'' \<mapsto> Number (Fin 95))) ''roas'')"
    "number_or_absent (get (example_kpis(''spend'' \<mapsto> Number (Fin 95))) ''spend'')"
    by (simp_all add: f2)
  have a: "map_sum id (map alert_kind) (alert_rules meta_campaign example_kpis)
     = Inr [(''high_cpl'', ''warning''), (''low_roas'', ''critical'')]"
    using alert_rules_thresholds [OF n1, of meta_campaign, THEN conjunct1]
    by (simp add: example_kpis_fields js_gt_def js_lt_def thresholds del: num_mul.simps)
  have b: "map_sum id (map alert_kind)
       (alert_rules meta_campaign (example_kpis(''spend'' \<mapsto> Number (Fin 95))))
     = Inr [(''high_cpl'', ''warning''), (''low_roas'', ''critical''), (''budget_exceeded'', ''info'')]"
    using alert_rules_thresholds [OF n2, of meta_campaign, THEN conjunct1]
    by (simp add: f2 example_kpis_fields(5) js_gt_def js_lt_def thresholds del: num_mul.simps)
  have c: "map_sum id (map d_type) (rule_cpl example_kpis) = Inr [''bid_adjustment'']"
    using alert_rules_thresholds [OF n1, THEN conjunct2, THEN conjunct2, THEN conjunct1]
    by (simp add: example_kpis_fields js_gt_def)
  show ?thesis
    by (intro conjI) (fact a b c)+
qed

section \<open>The metrics store\<close>

lemma m_key_update [simp]:
  "m_key (old\<lparr>m_impressions := a, m_clicks := b, m_conversions := c, m_spend := d,
       m_revenue := e, m_ctr := f, m_cpc := g, m_cpl := h, m_cpa := i, m_roas := j\<rparr>) = m_key old"
  by (simp add: m_key_def)

lemma m_values_update [simp]:
  "m_values (old\<lparr>m_impressions := m_impressions new, m_clicks := m_clicks new,
       m_conversions := m_conversions new, m_spend := m_spend new, m_revenue := m_revenue new,
       m_ctr := m_ctr new, m_cpc := m_cpc new, m_cpl := m_cpl new, m_cpa := m_cpa new,
       m_roas := m_roas new\<rparr>) = m_values new"
  by (simp add: m_values_def)

lemma upsert_keys: "set (map m_key (upsert new rows)) = insert (m_key new) (set (map m_key rows))"
  by (induction rows) auto

lemma upsert_map_key:
  "map m_key (upsert new rows)
     = (if m_key new \<in> set (map m_key rows) then map m_key rows else map m_key rows @ [m_key new])"
  by (induction rows) auto

lemma upsert_distinct:
  "distinct (map m_key rows) \<Longrightarrow> distinct (map m_key (upsert new rows))"
  by (simp add: upsert_map_key)

lemma upsert_length:
  "length (upsert new rows)
     = (if m_key new \<in> set (map m_key rows) then length rows else Suc (length rows))"
  by (induction rows) auto

lemma upsert_written:
  "\<exists>r \<in> set (upsert new rows). m_key r = m_key new \<and> m_values r = m_values new"
  by (induction rows) auto

lemma upsert_values:
  "distinct (map m_key rows) \<Longrightarrow> r \<in> set (upsert new rows) \<Longrightarrow> m_key r = m_key new
     \<Longrightarrow> m_values r = m_values new"
proof (induction rows)
  case Nil
  then show ?case by simp
next
  case (Cons old rows)
  show ?case
  proof (cases "m_key old = m_key new")
    case True
    with Cons.prems have "m_key new \<notin> m_key ` set rows" by simp
    then have "r \<notin> set rows" using Cons.prems(3) by (metis imageI)
    with Cons.prems True show ?thesis by auto
  next
    case False
    with Cons show ?thesis by auto
  qed
qed

lemma upsert_others:
  "m_key r \<noteq> m_key new \<Longrightarrow> r \<in> set (upsert new rows) \<longleftrightarrow> r \<in> set rows"
  by (induction rows) auto

lemma upsert_new_rows:
  "r \<in> set (upsert new rows) \<Longrightarrow> r \<in> set rows \<or> m_values r = m_values new"
  by (induction rows) (auto split: if_splits)

lemma distinct_key_unique:
  "distinct (map m_key rows) \<Longrightarrow> r \<in> set rows \<Longrightarrow> r' \<in> set rows \<Longrightarrow> m_key r = m_key r'
     \<Longrightarrow> r = r'"
  by (meson distinct_map inj_onD)

lemma snapshot_key [simp]: "m_key (snapshot env cid metrics) = (cid, e_today env)"
  by (simp add: m_key_def snapshot_def)

lemma saveMetrics_fields [simp]:
  "performance_metrics (saveMetrics env cid metrics w)
     = upsert (snapshot env cid metrics) (performance_metrics w)"
  "campaigns (saveMetrics env cid metrics w) = campaigns w"
  "ai_decisions (saveMetrics env cid metrics w) = ai_decisions w"
  "alerts (saveMetrics env cid metrics w) = alerts w"
  "console (saveMetrics env cid metrics w) = console w"
  "sent (saveMetrics env cid metrics w) = sent w"
  "dispatched (saveMetrics env cid metrics w) = dispatched w"
  by (simp_all add: saveMetrics_def)

lemma save_all_append:
  "save_all (xs @ ys) w = save_all ys (save_all xs w)"
  by (induction xs arbitrary: w) auto

lemma save_all_distinct:
  "distinct (map m_key (performance_metrics w))
     \<Longrightarrow> distinct (map m_key (performance_metrics (save_all calls w)))"
  by (induction calls arbitrary: w) (auto simp: upsert_distinct)

lemma save_all_keeps:
  assumes "k \<notin> call_key ` set calls"
  shows "{r \<in> set (performance_metrics (save_all calls w)). m_key r = k}
       = {r \<in> set (performance_metrics w). m_key r = k}"
  using assms
proof (induction calls arbitrary: w)
  case Nil
  then show ?case by simp
next
  case (Cons call calls)
  obtain env cid metrics where call: "call = (env, cid, metrics)"
    by (cases call)
  with Cons.prems have k: "k \<noteq> (cid, e_today env)" and rest: "k \<notin> call_key ` set calls"
    by (auto simp: call_key_def)
  have "{r \<in> set (performance_metrics (saveMetrics env cid metrics w)). m_key r = k}
       = {r \<in> set (performance_metrics w). m_key r = k}"
    using k upsert_others [of _ "snapshot env cid metrics" "performance_metrics w"] by auto
  with Cons.IH [OF rest, of "saveMetrics env cid metrics w"] call show ?case by simp
qed

lemma saveMetrics_latest:
  assumes "distinct (map m_key (performance_metrics w))"
  shows "\<exists>r. {r' \<in> set (performance_metrics (saveMetrics env cid metrics w)).
                 m_key r' = (cid, e_today env)} = {r}
             \<and> m_values r = m_values (snapshot env cid metrics)"
proof -
  let ?new = "snapshot env cid metrics"
  let ?rows = "upsert ?new (performance_metrics w)"
  obtain r where r: "r \<in> set ?rows" "m_key r = m_key ?new" "m_values r = m_values ?new"
    using upsert_written [of ?new "performance_metrics w"] by blast
  have d: "distinct (map m_key ?rows)"
    using assms by (rule upsert_distinct)
  have "{r' \<in> set ?rows. m_key r' = (cid, e_today env)} = {r}"
    using r distinct_key_unique [OF d] by auto
  with r(3) show ?thesis by auto
qed

text \<open>
  C7. On a store with at most one row per (campaign, date), a write for a key that has a
  row overwrites that row without adding one, and leaves the rows of the other keys as
  they are. After any sequence of writes the store still has at most one row per key,
  and the row of a key holds the values of the last write for that key.
\<close>

theorem saveMetrics_upserts:
  assumes "distinct (map m_key (performance_metrics w))"
  shows "distinct (map m_key (performance_metrics (save_all calls w)))
    \<and> (calls = pre @ (env, cid, metrics) # post \<and> (cid, e_today env) \<notin> call_key ` set post
         \<longrightarrow> (\<exists>r. {r' \<in> set (performance_metrics (save_all calls w)).
                      m_key r' = (cid, e_today env)} = {r}
                  \<and> m_values r = m_values (snapshot env cid metrics)))
    \<and> length (performance_metrics (saveMetrics env cid m2 (saveMetrics env cid m1 w)))
        = length (performance_metrics (saveMetrics env cid m1 w))
    \<and> (\<forall>k. k \<noteq> (cid, e_today env)
         \<longrightarrow> {r \<in> set (performance_metrics (saveMetrics env cid m1 w)). m_key r = k}
             = {r \<in> set (performance_metrics w). m_key r = k})"
proof -
  have unique: "distinct (map m_key (performance_metrics (save_all calls w)))"
    using assms by (rule save_all_distinct)
  have latest: "calls = pre @ (env, cid, metrics) # post \<and> (cid, e_today env) \<notin> call_key ` set post
         \<longrightarrow> (\<exists>r. {r' \<in> set (performance_metrics (save_all calls w)).
                      m_key r' = (cid, e_today env)} = {r}
                  \<and> m_values r = m_values (snapshot env cid metrics))"
  proof
    assume a: "calls = pre @ (env, cid, metrics) # post \<and> (cid, e_today env) \<notin> call_key ` set post"
    have d: "distinct (map m_key (performance_metrics (save_all pre w)))"
      using assms by (rule save_all_distinct)
    have split: "save_all calls w = save_all post (saveMetrics env cid metrics (save_all pre w))"
      using a by (simp add: save_all_append)
    from a have nk: "(cid, e_today env) \<notin> call_key ` set post" ..
    have keep: "{r' \<in> set (performance_metrics (save_all calls w)). m_key r' = (cid, e_today env)}
        = {r' \<in> set (performance_metrics (saveMetrics env cid metrics (save_all pre w))).
             m_key r' = (cid, e_today env)}"
      unfolding split by (rule save_all_keeps [OF nk])
    show "\<exists>r. {r' \<in> set (performance_metrics (save_all calls w)).
                      m_key r' = (cid, e_today env)} = {r}
                  \<and> m_values r = m_values (snapshot env cid metrics)"
      unfolding keep by (rule saveMetrics_latest [OF d])
  qed
  have twice: "length (performance_metrics (saveMetrics env cid m2 (saveMetrics env cid m1 w)))
        = length (performance_metrics (saveMetrics env cid m1 w))"
    using upsert_keys [of "snapshot env cid m1" "performance_metrics w"]
    by (simp add: upsert_length)
  have others: "\<forall>k. k \<noteq> (cid, e_today env)
         \<longrightarrow> {r \<in> set (performance_metrics (saveMetrics env cid m1 w)). m_key r = k}
             = {r \<in> set (performance_metrics w). m_key r = k}"
    using upsert_others [of _ "snapshot env cid m1" "performance_metrics w"] by auto
  show ?thesis
    by (intro conjI) (fact unique latest twice others)+
qed

theorem saveMetrics_upserts_witness:
  "distinct (map m_key (performance_metrics
      (save_all [(example_env, ''c1'', example_kpis),
                 (example_env, ''c1'', calculateMetrics sample_counters)] example_world)))
   \<and> (\<exists>r. {r' \<in> set (performance_metrics
              (save_all [(example_env, ''c1'', example_kpis),
                         (example_env, ''c1'', calculateMetrics sample_counters)] example_world)).
            m_key r' = (''c1'', ''2025-01-15'')} = {r}
          \<and> m_values r = m_values (snapshot example_env ''c1'' (calculateMetrics sample_counters)))
   \<and> length (performance_metrics
        (saveMetrics example_env ''c1'' (calculateMetrics sample_counters)
           (saveMetrics example_env ''c1'' example_kpis example_world))) = 1"
proof -
  have d: "distinct (map m_key (performance_metrics example_world))"
    by (simp add: example_world_def)
  have today: "e_today example_env = ''2025-01-15''"
    by (simp add: example_env_def)
  have pre: "[(example_env, ''c1'', example_kpis),
              (example_env, ''c1'', calculateMetrics sample_counters)]
      = [(example_env, ''c1'', example_kpis)]
          @ (example_env, ''c1'', calculateMetrics sample_counters) # []
     \<and> (''c1'', e_today example_env) \<notin> call_key ` set []"
    by simp
  note t = saveMetrics_upserts [OF d,
      of "[(example_env, ''c1'', example_kpis),
           (example_env, ''c1'', calculateMetrics sample_counters)]"
         "[(example_env, ''c1'', example_kpis)]" example_env "''c1''"
         "calculateMetrics sample_counters" "[]" "calculateMetrics sample_counters" example_kpis]
  have a: "distinct (map m_key (performance_metrics
      (save_all [(example_env, ''c1'', example_kpis),
                 (example_env, ''c1'', calculateMetrics sample_counters)] example_world)))"
    using t by (rule conjunct1)
  have b: "\<exists>r. {r' \<in> set (performance_metrics
              (save_all [(example_env, ''c1'', example_kpis),
                         (example_env, ''c1'', calculateMetrics sample_counters)] example_world)).
            m_key r' = (''c1'', ''2025-01-15'')} = {r}
          \<and> m_values r = m_values (snapshot example_env ''c1'' (calculateMetrics sample_counters))"
    using t [THEN conjunct2, THEN conjunct1, THEN mp, OF pre] by (simp only: today)
  have "length (performance_metrics
        (saveMetrics example_env ''c1'' (calculateMetrics sample_counters)
           (saveMetrics example_env ''c1'' example_kpis example_world)))
      = length (performance_metrics (saveMetrics example_env ''c1'' example_kpis example_world))"
    using t [THEN conjunct2, THEN conjunct2] by (rule conjunct1)
  also have "\<dots> = 1"
    by (simp add: example_world_def)
  finally have c: "length (performance_metrics
        (saveMetrics example_env ''c1'' (calculateMetrics sample_counters)
           (saveMetrics example_env ''c1'' example_kpis example_world))) = 1" .
  show ?thesis
    by (intro conjI) (fact a b c)+
qed

section \<open>What the monitoring pass leaves unchanged\<close>

lemma keptD:
  "kept w' = kept w \<Longrightarrow> campaigns w' = campaigns w \<and> performance_metrics w' = performance_metrics w
     \<and> alerts w' = alerts w \<and> console w' = console w"
  by (simp add: kept_def)

lemma executeDecision_kept [simp]: "kept (snd (executeDecision env cid d w)) = kept w"
  by (cases rule: executeDecision_cases [of cid w env d])
     (auto dest!: tablesD simp: kept_def)

lemma execute_each_kept [simp]: "kept (snd (execute_each env cid ds w)) = kept w"
proof (induction ds arbitrary: w)
  case Nil
  then show ?case by simp
next
  case (Cons d ds)
  show ?case
  proof (cases "executeDecision env cid d w")
    case (Pair res w')
    then have "kept w' = kept w"
      using executeDecision_kept [of env cid d w] by simp
    with Pair Cons.IH [of w'] show ?thesis by (cases res) auto
  qed
qed

lemma makeOptimizationDecision_kept [simp]:
  "kept (snd (makeOptimizationDecision env cid metrics w)) = kept w"
proof (cases "decision_rules (e_hour env) metrics")
  case (Inl e)
  then show ?thesis by (simp add: makeOptimizationDecision_def)
next
  case (Inr ds)
  then show ?thesis
    using execute_each_kept [of env cid ds w]
    by (cases "execute_each env cid ds w") (auto simp: makeOptimizationDecision_def split: sum.splits)
qed

lemma checkAndCreateAlerts_fields:
  "campaigns (snd (checkAndCreateAlerts env c metrics w)) = campaigns w"
  "performance_metrics (snd (checkAndCreateAlerts env c metrics w)) = performance_metrics w"
  "console (snd (checkAndCreateAlerts env c metrics w)) = console w"
  "\<exists>rows. alerts (snd (checkAndCreateAlerts env c metrics w)) = alerts w @ rows"
  by (simp_all add: checkAndCreateAlerts_def split: sum.splits)

text \<open>The object that the normalizer returns, as the rules read it.\<close>

lemma normalized_fields:
  "get (calculateMetrics data) ''impressions'' = Undefined"
  "get (calculateMetrics data) ''clicks'' = Undefined"
  "get (calculateMetrics data) ''conversions'' = Undefined"
  "get (calculateMetrics data) ''spend'' = Undefined"
  "get (calculateMetrics data) ''revenue'' = Undefined"
  "get (calculateMetrics data) ''dailyBudget'' = Undefined"
  "\<exists>n. get (calculateMetrics data) ''cpl'' = Number n"
  "\<exists>n. get (calculateMetrics data) ''roas'' = Number n"
  by (simp_all add: calculateMetrics_def get_def Let_def)

lemma toFixed2_number: "\<exists>s. toFixed2 (Number n) = Inr s"
  by (cases n) simp_all

lemma normalized_rules:
  "decision_rules hr (calculateMetrics data) = rule_cpl (calculateMetrics data)"
  "\<exists>ds. rule_cpl (calculateMetrics data) = Inr ds \<and> (\<forall>d \<in> set ds. d_type d = ''bid_adjustment'')"
proof -
  obtain n where n: "get (calculateMetrics data) ''cpl'' = Number n"
    using normalized_fields(7) by blast
  obtain s where s: "toFixed2 (Number n) = Inr s"
    using toFixed2_number by blast
  show b: "\<exists>ds. rule_cpl (calculateMetrics data) = Inr ds \<and> (\<forall>d \<in> set ds. d_type d = ''bid_adjustment'')"
    by (simp add: rule_cpl_def n s descriptor_def)
  then obtain ds where "rule_cpl (calculateMetrics data) = Inr ds" by blast
  then show "decision_rules hr (calculateMetrics data) = rule_cpl (calculateMetrics data)"
    by (simp add: decision_rules_def rule_roas_def rule_ctr_def rule_pacing_def and_then_def
          normalized_fields js_gt_def js_lt_def)
qed

lemma normalized_alerts: "\<exists>found. alert_rules c (calculateMetrics data) = Inr found"
proof -
  obtain n m where "get (calculateMetrics data) ''cpl'' = Number n"
    "get (calculateMetrics data) ''roas'' = Number m"
    using normalized_fields(7,8) by blast
  then have "number_or_absent (get (calculateMetrics data) ''cpl'')"
    "number_or_absent (get (calculateMetrics data) ''roas'')"
    "number_or_absent (get (calculateMetrics data) ''spend'')"
    by (simp_all add: normalized_fields)
  from alert_rules_kinds [OF this, of c] show ?thesis
    by (cases "alert_rules c (calculateMetrics data)") simp_all
qed

section \<open>The pipeline of one campaign\<close>

lemma platform_metrics_ok:
  assumes "platform_ok env c pm"
  shows "\<exists>w1. (if c_platform c = ''meta''
            then map_prod (map_sum id Some) id (meta_getCampaignMetrics env (c_campaign_id c) w)
            else if c_platform c = ''google''
            then map_prod (map_sum id Some) id (google_getCampaignMetrics env (c_campaign_id c) w)
            else (Inr None, w)) = (Inr (Some pm), w1) \<and> tables w1 = tables w"
proof -
  from assms consider
    (m) "c_platform c = ''meta''" "\<forall>h. e_network env h (MetaInsights (c_campaign_id c)) = Replied pm"
  | (g) "c_platform c = ''google''" "\<forall>h. e_network env h (GoogleSearch (c_campaign_id c)) = Replied pm"
        "\<forall>h. \<exists>body. e_network env h GoogleToken = Replied body"
    by (auto simp: platform_ok_def)
  then show ?thesis
  proof cases
    case m
    then show ?thesis
      by (simp add: meta_getCampaignMetrics_def fetch_def tables_def)
  next
    case g
    obtain body where "e_network env (sent w) GoogleToken = Replied body"
      using g(3) by blast
    with g show ?thesis
      by (simp add: google_getCampaignMetrics_def getAccessToken_def fetch_def tables_def)
  qed
qed

lemma bid_dispatch_ok:
  assumes "platform_ok env c pm" and "find (\<lambda>x. c_id x = cid) (campaigns w) = Some c"
    and "d_type d = ''bid_adjustment''"
  shows "\<exists>r. fst (executeDecision env cid d w) = Inr r"
proof -
  from assms(1) consider
    (m) "c_platform c = ''meta''"
  | (g) "c_platform c = ''google''" "\<forall>h. \<exists>body. e_network env h GoogleToken = Replied body"
    by (auto simp: platform_ok_def)
  then show ?thesis
  proof cases
    case m
    obtain r where "meta_executeDecision env (c_campaign_id c) d w
        = (Inr r, entered ''meta'' (c_campaign_id c) d w)"
      using meta_bid [OF assms(3)] by blast
    then show ?thesis
      by (simp add: executeDecision_meta [OF assms(2) m])
  next
    case g
    obtain body where "e_network env (sent w) GoogleToken = Replied body"
      using g(2) by blast
    from google_token(1) [OF this assms(3), of "c_campaign_id c"] show ?thesis
      by (cases "google_executeDecision env (c_campaign_id c) d w")
         (simp add: executeDecision_google [OF assms(2) g(1)])
  qed
qed

lemma bid_loop_ok:
  assumes "platform_ok env c pm" and "find (\<lambda>x. c_id x = cid) (campaigns w) = Some c"
    and "\<forall>d \<in> set ds. d_type d = ''bid_adjustment''"
  shows "fst (execute_each env cid ds w) = Inr ()"
  using assms(2,3)
proof (induction ds arbitrary: w)
  case Nil
  then show ?case by simp
next
  case (Cons d ds)
  obtain r where "fst (executeDecision env cid d w) = Inr r"
    using bid_dispatch_ok [OF assms(1) Cons.prems(1), of d] Cons.prems(2) by auto
  then obtain w1 where step: "executeDecision env cid d w = (Inr r, w1)"
    by (cases "executeDecision env cid d w") auto
  have "campaigns w1 = campaigns w"
    using executeDecision_campaigns [of env cid d w] step by simp
  with Cons.IH [of w1] Cons.prems step show ?case by simp
qed

lemma pipeline_completes:
  assumes "platform_ok env c pm" and "find (\<lambda>x. c_id x = c_id c) (campaigns w) = Some c"
  shows "\<exists>n w'. monitor_pipeline env c w = (Inr n, w')
    \<and> campaigns w' = campaigns w \<and> console w' = console w
    \<and> performance_metrics w'
        = upsert (snapshot env (c_id c) (calculateMetrics (raw_counters pm))) (performance_metrics w)
    \<and> (\<exists>found. alert_rules c (calculateMetrics (raw_counters pm)) = Inr found
          \<and> alerts w' = alerts w @ map (insert_alert env c) found)"
proof -
  let ?M = "calculateMetrics (raw_counters pm)"
  obtain w1 where fetched: "(if c_platform c = ''meta''
            then map_prod (map_sum id Some) id (meta_getCampaignMetrics env (c_campaign_id c) w)
            else if c_platform c = ''google''
            then map_prod (map_sum id Some) id (google_getCampaignMetrics env (c_campaign_id c) w)
            else (Inr None, w)) = (Inr (Some pm), w1)"
    and t1: "tables w1 = tables w"
    using platform_metrics_ok [OF assms(1), of w] by blast
  define w2 where "w2 = saveMetrics env (c_id c) ?M w1"
  have k2: "campaigns w2 = campaigns w" "console w2 = console w" "alerts w2 = alerts w"
    "performance_metrics w2 = upsert (snapshot env (c_id c) ?M) (performance_metrics w)"
    using t1 by (simp_all add: w2_def tables_def)
  obtain ds where rules: "decision_rules (e_hour env) ?M = Inr ds"
    and bids: "\<forall>d \<in> set ds. d_type d = ''bid_adjustment''"
    using normalized_rules(1) [of "e_hour env" "raw_counters pm"]
      normalized_rules(2) [of "raw_counters pm"] by auto
  have found2: "find (\<lambda>x. c_id x = c_id c) (campaigns w2) = Some c"
    using assms(2) k2 by simp
  have "fst (execute_each env (c_id c) ds w2) = Inr ()"
    using bid_loop_ok [OF assms(1) found2 bids] .
  then obtain w3 where loop: "execute_each env (c_id c) ds w2 = (Inr (), w3)"
    by (cases "execute_each env (c_id c) ds w2") auto
  have k3: "kept w3 = kept w2"
    using execute_each_kept [of env "c_id c" ds w2] loop by simp
  have made: "makeOptimizationDecision env (c_id c) ?M w2 = (Inr ds, w3)"
    by (simp add: makeOptimizationDecision_def rules loop)
  obtain found where found: "alert_rules c ?M = Inr found"
    using normalized_alerts by blast
  have checked: "checkAndCreateAlerts env c ?M w3
      = (Inr (), w3\<lparr>alerts := alerts w3 @ map (insert_alert env c) found\<rparr>)"
    by (simp add: checkAndCreateAlerts_def found)
  have run: "monitor_pipeline env c w
      = (Inr (length ds), w3\<lparr>alerts := alerts w3 @ map (insert_alert env c) found\<rparr>)"
    unfolding monitor_pipeline_def fetched
    using made checked by (simp add: Let_def w2_def)
  show ?thesis
    unfolding run using keptD [OF k3] k2 found by simp
qed

lemma pipeline_frame:
  "campaigns (snd (monitor_pipeline env c w)) = campaigns w
   \<and> console (snd (monitor_pipeline env c w)) = console w
   \<and> (\<exists>rows. alerts (snd (monitor_pipeline env c w)) = alerts w @ rows)
   \<and> (performance_metrics (snd (monitor_pipeline env c w)) = performance_metrics w
      \<or> (\<exists>data. performance_metrics (snd (monitor_pipeline env c w))
            = upsert (snapshot env (c_id c) (calculateMetrics data)) (performance_metrics w)))"
proof -
  obtain res w1 where fetched: "(if c_platform c = ''meta''
            then map_prod (map_sum id Some) id (meta_getCampaignMetrics env (c_campaign_id c) w)
            else if c_platform c = ''google''
            then map_prod (map_sum id Some) id (google_getCampaignMetrics env (c_campaign_id c) w)
            else (Inr None, w)) = (res, w1)"
    by (cases "(if c_platform c = ''meta''
            then map_prod (map_sum id Some) id (meta_getCampaignMetrics env (c_campaign_id c) w)
            else if c_platform c = ''google''
            then map_prod (map_sum id Some) id (google_getCampaignMetrics env (c_campaign_id c) w)
            else (Inr None, w))")
  have "w1 = snd (if c_platform c = ''meta''
            then map_prod (map_sum id Some) id (meta_getCampaignMetrics env (c_campaign_id c) w)
            else if c_platform c = ''google''
            then map_prod (map_sum id Some) id (google_getCampaignMetrics env (c_campaign_id c) w)
            else (Inr None, w))"
    unfolding fetched by simp
  then have t1: "tables w1 = tables w"
    by (simp split: if_splits)
  then have k1: "campaigns w1 = campaigns w" "console w1 = console w" "alerts w1 = alerts w"
    "performance_metrics w1 = performance_metrics w"
    by (simp_all add: tables_def)
  show ?thesis
  proof (cases res)
    case (Inl e)
    then show ?thesis
      unfolding monitor_pipeline_def fetched using k1 by simp
  next
    case (Inr found)
    show ?thesis
    proof (cases found)
      case None
      with Inr show ?thesis
        unfolding monitor_pipeline_def fetched using k1 by simp
    next
      case (Some pm)
      let ?M = "calculateMetrics (raw_counters pm)"
      define w2 where "w2 = saveMetrics env (c_id c) ?M w1"
      have k2: "campaigns w2 = campaigns w" "console w2 = console w" "alerts w2 = alerts w"
        "performance_metrics w2 = upsert (snapshot env (c_id c) ?M) (performance_metrics w)"
        using k1 by (simp_all add: w2_def)
      obtain res3 w3 where made: "makeOptimizationDecision env (c_id c) ?M w2 = (res3, w3)"
        by (cases "makeOptimizationDecision env (c_id c) ?M w2")
      have k3: "kept w3 = kept w2"
        using makeOptimizationDecision_kept [of env "c_id c" ?M w2] made by simp
      have run: "monitor_pipeline env c w =
          (case res3 of Inl e \<Rightarrow> (Inl e, w3)
           | Inr decisions \<Rightarrow>
               (case checkAndCreateAlerts env c ?M w3 of
                  (Inl e, w4) \<Rightarrow> (Inl e, w4)
                | (Inr u, w4) \<Rightarrow> (Inr (length decisions), w4)))"
        unfolding monitor_pipeline_def fetched using Inr Some made
        by (simp add: Let_def w2_def)
      have after: "campaigns w3 = campaigns w" "console w3 = console w" "alerts w3 = alerts w"
        "performance_metrics w3 = upsert (snapshot env (c_id c) ?M) (performance_metrics w)"
        using keptD [OF k3] k2 by simp_all
      show ?thesis
      proof (cases res3)
        case (Inl e)
        then show ?thesis
          unfolding run using after by auto
      next
        case (Inr decisions)
        obtain res4 w4 where checked: "checkAndCreateAlerts env c ?M w3 = (res4, w4)"
          by (cases "checkAndCreateAlerts env c ?M w3")
        have k4: "campaigns w4 = campaigns w3" "performance_metrics w4 = performance_metrics w3"
          "console w4 = console w3" "\<exists>rows. alerts w4 = alerts w3 @ rows"
          using checkAndCreateAlerts_fields [of env c ?M w3] checked by simp_all
        have "snd (monitor_pipeline env c w) = w4"
          unfolding run using Inr checked by (cases res4) simp_all
        then show ?thesis
          using k4 after by auto
      qed
    qed
  qed
qed

section \<open>The pass over the active campaigns\<close>

lemma monitorCampaign_ok: "fst (monitorCampaign env c w) = Inr ()"
  by (simp add: monitorCampaign_def split: prod.splits)

lemma monitorCampaign_state:
  "snd (monitorCampaign env c w)
     = (snd (monitor_pipeline env c w))
         \<lparr>console := console (snd (monitor_pipeline env c w))
            @ [(c_name c, fst (monitor_pipeline env c w))]\<rparr>"
  by (simp add: monitorCampaign_def split: prod.splits)

lemma monitorCampaign_frame:
  "campaigns (snd (monitorCampaign env c w)) = campaigns w"
  "console (snd (monitorCampaign env c w)) = console w @ [(c_name c, fst (monitor_pipeline env c w))]"
  "\<exists>rows. alerts (snd (monitorCampaign env c w)) = alerts w @ rows"
  "performance_metrics (snd (monitorCampaign env c w)) = performance_metrics w
   \<or> (\<exists>data. performance_metrics (snd (monitorCampaign env c w))
         = upsert (snapshot env (c_id c) (calculateMetrics data)) (performance_metrics w))"
  using pipeline_frame [of env c w] by (simp_all add: monitorCampaign_state)

lemma monitor_each_step:
  "monitor_each env (c # cs) w = monitor_each env cs (snd (monitorCampaign env c w))"
  using monitorCampaign_ok [of env c w]
  by (cases "monitorCampaign env c w") simp

lemma monitor_each_ok: "fst (monitor_each env cs w) = Inr ()"
  by (induction cs arbitrary: w) (simp_all add: monitor_each_step del: monitor_each.simps(2))

lemma monitor_each_campaigns: "campaigns (snd (monitor_each env cs w)) = campaigns w"
  by (induction cs arbitrary: w)
     (simp_all add: monitor_each_step monitorCampaign_frame del: monitor_each.simps(2))

lemma monitor_each_console:
  "length (console (snd (monitor_each env cs w))) = length (console w) + length cs"
  by (induction cs arbitrary: w)
     (simp_all add: monitor_each_step monitorCampaign_frame del: monitor_each.simps(2))

lemma monitorAll_state:
  "snd (monitorAll env w)
     = snd (monitor_each env (filter (\<lambda>c. c_status c = ''active'') (campaigns w)) w)"
  by (simp add: monitorAll_def split: prod.splits)

lemma monitorAll_ok: "fst (monitorAll env w) = Inr ()"
  by (simp add: monitorAll_def split: prod.splits)

text \<open>Once a campaign has been monitored, the other campaigns of the pass leave its traces.\<close>

lemma monitored_kept:
  assumes "monitored env c pm w" and "c_id c' \<noteq> c_id c"
  shows "monitored env c pm (snd (monitorCampaign env c' w))"
proof -
  let ?w' = "snd (monitorCampaign env c' w)"
  let ?M = "calculateMetrics (raw_counters pm)"
  from assms(1) obtain r found n where
    r: "r \<in> set (performance_metrics w)" "m_key r = (c_id c, e_today env)"
       "m_values r = m_values (snapshot env (c_id c) ?M)"
    and f: "alert_rules c ?M = Inr found" "set (map (insert_alert env c) found) \<subseteq> set (alerts w)"
    and n: "(c_name c, Inr n) \<in> set (console w)"
    unfolding monitored_def by blast
  have "r \<in> set (performance_metrics ?w')"
    using monitorCampaign_frame(4) [of env c' w]
  proof
    assume "performance_metrics ?w' = performance_metrics w"
    with r(1) show ?thesis by simp
  next
    assume "\<exists>data. performance_metrics ?w'
         = upsert (snapshot env (c_id c') (calculateMetrics data)) (performance_metrics w)"
    then obtain data where u: "performance_metrics ?w'
         = upsert (snapshot env (c_id c') (calculateMetrics data)) (performance_metrics w)"
      by blast
    have "m_key r \<noteq> m_key (snapshot env (c_id c') (calculateMetrics data))"
      using r(2) assms(2) by simp
    from upsert_others [OF this, of "performance_metrics w"] r(1) show ?thesis
      unfolding u by blast
  qed
  moreover have "set (map (insert_alert env c) found) \<subseteq> set (alerts ?w')"
    using monitorCampaign_frame(3) [of env c' w] f(2) by auto
  moreover have "(c_name c, Inr n) \<in> set (console ?w')"
    using n by (simp add: monitorCampaign_frame(2))
  ultimately show ?thesis
    unfolding monitored_def using r(2,3) f(1) by blast
qed

lemma monitored_reached:
  assumes "platform_ok env c pm" and "find (\<lambda>x. c_id x = c_id c) (campaigns w) = Some c"
  shows "monitored env c pm (snd (monitorCampaign env c w))"
proof -
  let ?M = "calculateMetrics (raw_counters pm)"
  from pipeline_completes [OF assms] obtain n w' found where
    run: "monitor_pipeline env c w = (Inr n, w')"
    and p: "performance_metrics w' = upsert (snapshot env (c_id c) ?M) (performance_metrics w)"
    and f: "alert_rules c ?M = Inr found" "alerts w' = alerts w @ map (insert_alert env c) found"
    by blast
  obtain r where r: "r \<in> set (performance_metrics w')"
      "m_key r = m_key (snapshot env (c_id c) ?M)" "m_values r = m_values (snapshot env (c_id c) ?M)"
    using upsert_written [of "snapshot env (c_id c) ?M" "performance_metrics w"] p by auto
  have s: "snd (monitorCampaign env c w) = w'\<lparr>console := console w' @ [(c_name c, Inr n)]\<rparr>"
    by (simp add: monitorCampaign_state run)
  show ?thesis
    unfolding monitored_def s using r f by auto
qed

lemma monitor_each_kept:
  assumes "monitored env c pm w" and "c_id c \<notin> c_id ` set cs"
  shows "monitored env c pm (snd (monitor_each env cs w))"
  using assms
proof (induction cs arbitrary: w)
  case Nil
  then show ?case by simp
next
  case (Cons c' cs)
  then have "monitored env c pm (snd (monitorCampaign env c' w))"
    using monitored_kept [of env c pm w c'] by auto
  with Cons show ?case
    by (simp add: monitor_each_step del: monitor_each.simps(2))
qed

lemma monitor_each_reaches:
  assumes "platform_ok env c pm" and "c \<in> set cs" and "distinct (map c_id cs)"
    and "find (\<lambda>x. c_id x = c_id c) (campaigns w) = Some c"
  shows "monitored env c pm (snd (monitor_each env cs w))"
  using assms(2-)
proof (induction cs arbitrary: w)
  case Nil
  then show ?case by simp
next
  case (Cons c' cs)
  show ?case
  proof (cases "c' = c")
    case True
    have later: "c_id c \<notin> c_id ` set cs"
      using Cons.prems(2) True by simp
    have "monitored env c pm (snd (monitorCampaign env c w))"
      using monitored_reached [OF assms(1) Cons.prems(3)] .
    from monitor_each_kept [OF this later] True show ?thesis
      by (simp add: monitor_each_step del: monitor_each.simps(2))
  next
    case False
    with Cons.prems have "c \<in> set cs" "distinct (map c_id cs)" by simp_all
    moreover have "find (\<lambda>x. c_id x = c_id c) (campaigns (snd (monitorCampaign env c' w))) = Some c"
      using Cons.prems(3) by (simp add: monitorCampaign_frame)
    ultimately show ?thesis
      using Cons.IH by (simp add: monitor_each_step del: monitor_each.simps(2))
  qed
qed

lemma find_by_id:
  "distinct (map c_id cs) \<Longrightarrow> c \<in> set cs \<Longrightarrow> find (\<lambda>x. c_id x = c_id c) cs = Some c"
  by (induction cs) auto

lemma monitorAll_reaches:
  assumes "distinct (map c_id (campaigns w))" and "c \<in> set (campaigns w)"
    and "c_status c = ''active''" and "platform_ok env c pm"
  shows "monitored env c pm (snd (monitorAll env w))"
proof -
  have "c \<in> set (filter (\<lambda>c. c_status c = ''active'') (campaigns w))"
    using assms(2,3) by simp
  moreover have "distinct (map c_id (filter (\<lambda>c. c_status c = ''active'') (campaigns w)))"
    using assms(1) by (rule distinct_map_filter)
  moreover have "find (\<lambda>x. c_id x = c_id c) (campaigns w) = Some c"
    using assms(1,2) by (rule find_by_id)
  ultimately show ?thesis
    unfolding monitorAll_state by (rule monitor_each_reaches [OF assms(4)])
qed

section \<open>Failures stay within their campaign\<close>

lemma google_campaign_facts:
  "c_platform google_campaign = ''google''" "c_campaign_id google_campaign = ''987''"
  "c_id google_campaign = ''c2''" "c_name google_campaign = ''Gesso''"
  "c_status google_campaign = ''active''"
  by (simp_all add: google_campaign_def)

lemma example_world_facts:
  "distinct (map c_id (campaigns example_world))"
  "meta_campaign \<in> set (campaigns example_world)"
  "google_campaign \<in> set (campaigns example_world)"
  "performance_metrics example_world = []"
  by (simp_all add: example_world_def meta_campaign_def google_campaign_def)

lemma flaky_env_facts:
  "platform_ok flaky_env google_campaign sample_counters"
  "e_today flaky_env = ''2025-01-15''"
  "fst (monitor_pipeline flaky_env meta_campaign example_world) = Inl NetworkError"
  by (simp_all add: platform_ok_def flaky_env_def google_campaign_def monitor_pipeline_def
        meta_campaign_def meta_getCampaignMetrics_def fetch_def)

lemma example_env_reports:
  "platform_ok example_env google_campaign sample_counters"
  "e_today example_env = ''2025-01-15''"
  by (simp_all add: platform_ok_def example_env_def google_campaign_def)

text \<open>
  C6. The error of a campaign's pipeline is caught in \<^verbatim>\<open>monitorCampaign\<close>, so the pass
  goes through all the active campaigns and returns normally, with one printed outcome per
  active campaign, however many of them failed. For an active campaign whose own platform
  answers, the pipeline runs to completion whatever happened to the campaigns before it:
  at the end of the pass the store holds its snapshot of the day and the rows of its
  alerts, and its completion line has been printed.
\<close>

theorem monitorAll_isolates_failures:
  "fst (monitorCampaign env c' w) = Inr ()
   \<and> fst (monitorAll env w) = Inr ()
   \<and> length (console (snd (monitorAll env w)))
       = length (console w) + length (filter (\<lambda>c. c_status c = ''active'') (campaigns w))
   \<and> (distinct (map c_id (campaigns w)) \<and> c \<in> set (campaigns w) \<and> c_status c = ''active''
        \<and> platform_ok env c pm
      \<longrightarrow> (\<exists>r \<in> set (performance_metrics (snd (monitorAll env w))).
              m_key r = (c_id c, e_today env)
              \<and> m_values r = m_values (snapshot env (c_id c) (calculateMetrics (raw_counters pm))))
          \<and> (\<exists>found. alert_rules c (calculateMetrics (raw_counters pm)) = Inr found
              \<and> set (map (insert_alert env c) found) \<subseteq> set (alerts (snd (monitorAll env w))))
          \<and> (\<exists>n. (c_name c, Inr n) \<in> set (console (snd (monitorAll env w)))))"
proof -
  have one: "fst (monitorCampaign env c' w) = Inr ()"
    by (rule monitorCampaign_ok)
  have pass: "fst (monitorAll env w) = Inr ()"
    by (rule monitorAll_ok)
  have lines: "length (console (snd (monitorAll env w)))
       = length (console w) + length (filter (\<lambda>c. c_status c = ''active'') (campaigns w))"
    by (simp only: monitorAll_state monitor_each_console)
  have later: "distinct (map c_id (campaigns w)) \<and> c \<in> set (campaigns w) \<and> c_status c = ''active''
        \<and> platform_ok env c pm
      \<longrightarrow> (\<exists>r \<in> set (performance_metrics (snd (monitorAll env w))).
              m_key r = (c_id c, e_today env)
              \<and> m_values r = m_values (snapshot env (c_id c) (calculateMetrics (raw_counters pm))))
          \<and> (\<exists>found. alert_rules c (calculateMetrics (raw_counters pm)) = Inr found
              \<and> set (map (insert_alert env c) found) \<subseteq> set (alerts (snd (monitorAll env w))))
          \<and> (\<exists>n. (c_name c, Inr n) \<in> set (console (snd (monitorAll env w))))"
  proof
    assume "distinct (map c_id (campaigns w)) \<and> c \<in> set (campaigns w) \<and> c_status c = ''active''
        \<and> platform_ok env c pm"
    then have "monitored env c pm (snd (monitorAll env w))"
      using monitorAll_reaches by blast
    then show "(\<exists>r \<in> set (performance_metrics (snd (monitorAll env w))).
              m_key r = (c_id c, e_today env)
              \<and> m_values r = m_values (snapshot env (c_id c) (calculateMetrics (raw_counters pm))))
          \<and> (\<exists>found. alert_rules c (calculateMetrics (raw_counters pm)) = Inr found
              \<and> set (map (insert_alert env c) found) \<subseteq> set (alerts (snd (monitorAll env w))))
          \<and> (\<exists>n. (c_name c, Inr n) \<in> set (console (snd (monitorAll env w))))"
      unfolding monitored_def .
  qed
  show ?thesis
    by (intro conjI) (fact one pass lines later)+
qed

theorem monitorAll_isolates_failures_witness:
  "fst (monitor_pipeline flaky_env meta_campaign example_world) = Inl NetworkError
   \<and> fst (monitorAll flaky_env example_world) = Inr ()
   \<and> length (console (snd (monitorAll flaky_env example_world))) = 2
   \<and> (\<exists>r \<in> set (performance_metrics (snd (monitorAll flaky_env example_world))).
         m_key r = (''c2'', ''2025-01-15'')
         \<and> m_values r
             = m_values (snapshot flaky_env ''c2'' (calculateMetrics (raw_counters sample_counters))))
   \<and> (\<exists>found. alert_rules google_campaign (calculateMetrics (raw_counters sample_counters))
                 = Inr found
         \<and> set (map (insert_alert flaky_env google_campaign) found)
             \<subseteq> set (alerts (snd (monitorAll flaky_env example_world))))
   \<and> (\<exists>n. (''Gesso'', Inr n) \<in> set (console (snd (monitorAll flaky_env example_world))))"
proof -
  note t = monitorAll_isolates_failures [of flaky_env meta_campaign example_world google_campaign
      sample_counters]
  have hyp: "distinct (map c_id (campaigns example_world))
      \<and> google_campaign \<in> set (campaigns example_world) \<and> c_status google_campaign = ''active''
      \<and> platform_ok flaky_env google_campaign sample_counters"
    by (intro conjI) (fact example_world_facts google_campaign_facts flaky_env_facts)+
  have pass: "fst (monitorAll flaky_env example_world) = Inr ()"
    using t [THEN conjunct2] by (rule conjunct1)
  have "length (console (snd (monitorAll flaky_env example_world)))
      = length (console example_world)
        + length (filter (\<lambda>c. c_status c = ''active'') (campaigns example_world))"
    using t [THEN conjunct2, THEN conjunct2] by (rule conjunct1)
  also have "\<dots> = 2"
    by (simp add: example_world_def meta_campaign_def google_campaign_def)
  finally have lines: "length (console (snd (monitorAll flaky_env example_world))) = 2" .
  note l = t [THEN conjunct2, THEN conjunct2, THEN conjunct2, THEN mp, OF hyp]
  have row: "\<exists>r \<in> set (performance_metrics (snd (monitorAll flaky_env example_world))).
         m_key r = (''c2'', ''2025-01-15'')
         \<and> m_values r
             = m_values (snapshot flaky_env ''c2'' (calculateMetrics (raw_counters sample_counters)))"
    using l [THEN conjunct1] by (simp only: google_campaign_facts flaky_env_facts)
  have alerted: "\<exists>found. alert_rules google_campaign (calculateMetrics (raw_counters sample_counters))
                 = Inr found
         \<and> set (map (insert_alert flaky_env google_campaign) found)
             \<subseteq> set (alerts (snd (monitorAll flaky_env example_world)))"
    using l [THEN conjunct2] by (rule conjunct1)
  have printed: "\<exists>n. (''Gesso'', Inr n) \<in> set (console (snd (monitorAll flaky_env example_world)))"
    using l [THEN conjunct2, THEN conjunct2] by (simp only: google_campaign_facts)
  show ?thesis
    by (intro conjI) (fact flaky_env_facts(3) pass lines row alerted printed)+
qed

section \<open>The counters of the stored snapshots\<close>

lemma or_zero_undefined: "or_zero Undefined = Number (Fin 0)"
  by (simp add: or_zero_def js_or_def)

lemma snapshot_normalized: "zero_counters (snapshot env cid (calculateMetrics data))"
  by (simp add: zero_counters_def snapshot_def normalized_fields or_zero_undefined)

lemma zero_counters_values: "m_values r = m_values r' \<Longrightarrow> zero_counters r' \<Longrightarrow> zero_counters r"
  by (simp add: m_values_def zero_counters_def)

lemma monitorCampaign_rows:
  assumes "r \<in> set (performance_metrics (snd (monitorCampaign env c w)))"
  shows "r \<in> set (performance_metrics w) \<or> zero_counters r"
  using monitorCampaign_frame(4) [of env c w]
proof
  assume "performance_metrics (snd (monitorCampaign env c w)) = performance_metrics w"
  with assms show ?thesis by simp
next
  assume "\<exists>data. performance_metrics (snd (monitorCampaign env c w))
         = upsert (snapshot env (c_id c) (calculateMetrics data)) (performance_metrics w)"
  then obtain data where "performance_metrics (snd (monitorCampaign env c w))
         = upsert (snapshot env (c_id c) (calculateMetrics data)) (performance_metrics w)"
    by blast
  with assms have "r \<in> set (performance_metrics w)
      \<or> m_values r = m_values (snapshot env (c_id c) (calculateMetrics data))"
    using upsert_new_rows by metis
  then show ?thesis
    using zero_counters_values snapshot_normalized by blast
qed

lemma monitor_each_rows:
  "r \<in> set (performance_metrics (snd (monitor_each env cs w)))
     \<Longrightarrow> r \<in> set (performance_metrics w) \<or> zero_counters r"
proof (induction cs arbitrary: w)
  case Nil
  then show ?case by simp
next
  case (Cons c cs)
  then have "r \<in> set (performance_metrics (snd (monitorCampaign env c w))) \<or> zero_counters r"
    by (simp add: monitor_each_step del: monitor_each.simps(2))
  then show ?case
    using monitorCampaign_rows by blast
qed

text \<open>
  C10. The object that the normalizer returns has no counters, so the snapshot that
  \<^verbatim>\<open>saveMetrics\<close> builds from it has 0 in its five counter columns. Every row of the
  metrics table that a monitored campaign, or a whole pass, has added or overwritten has
  these five columns at 0, whatever the network answered.
\<close>

theorem monitored_rows_have_zero_counters:
  "zero_counters (snapshot env cid (calculateMetrics data))
   \<and> (\<forall>r \<in> set (performance_metrics (snd (monitorCampaign env c w))).
         r \<in> set (performance_metrics w) \<or> zero_counters r)
   \<and> (\<forall>r \<in> set (performance_metrics (snd (monitorAll env w))).
         r \<in> set (performance_metrics w) \<or> zero_counters r)"
proof -
  have one: "\<forall>r \<in> set (performance_metrics (snd (monitorCampaign env c w))).
         r \<in> set (performance_metrics w) \<or> zero_counters r"
    using monitorCampaign_rows by blast
  have pass: "\<forall>r \<in> set (performance_metrics (snd (monitorAll env w))).
         r \<in> set (performance_metrics w) \<or> zero_counters r"
    unfolding monitorAll_state using monitor_each_rows by blast
  show ?thesis
    by (intro conjI) (fact snapshot_normalized one pass)+
qed

theorem monitored_rows_have_zero_counters_witness:
  "list_all zero_counters (performance_metrics (snd (monitorAll example_env example_world)))
   \<and> (\<exists>r \<in> set (performance_metrics (snd (monitorAll example_env example_world))).
         m_key r = (''c2'', ''2025-01-15''))
   \<and> map (get sample_counters) counter_names
       = [Number (Fin 1000), Number (Fin 50), Number (Fin 600), Number (Fin 5), Number (Fin 0)]"
proof -
  note t = monitored_rows_have_zero_counters [of example_env "''c2''" sample_counters
      google_campaign example_world]
  have "\<forall>r \<in> set (performance_metrics (snd (monitorAll example_env example_world))).
         r \<in> set (performance_metrics example_world) \<or> zero_counters r"
    using t [THEN conjunct2] by (rule conjunct2)
  then have zeros: "list_all zero_counters
      (performance_metrics (snd (monitorAll example_env example_world)))"
    by (simp add: example_world_facts list_all_iff)
  have "monitored example_env google_campaign sample_counters
      (snd (monitorAll example_env example_world))"
    by (rule monitorAll_reaches)
       (fact example_world_facts google_campaign_facts example_env_reports)+
  then have row: "\<exists>r \<in> set (performance_metrics (snd (monitorAll example_env example_world))).
         m_key r = (''c2'', ''2025-01-15'')"
    unfolding monitored_def by (auto simp: google_campaign_facts example_env_reports)
  have reported: "map (get sample_counters) counter_names
       = [Number (Fin 1000), Number (Fin 50), Number (Fin 600), Number (Fin 5), Number (Fin 0)]"
    by (simp add: counter_names_def sample_counters_def get_def)
  show ?thesis
    by (intro conjI) (fact zeros row reported)+
qed

end
